(* ===== verification/Prelude.thy ===== *)
theory Prelude
  imports Complex_Main
begin

text \<open>
  The vocabulary every component of the development shares: exceptions as values, a result
  bind, the sequences of guard clauses the validators of the code consist of, runs of a
  fallible step over a list.  Also the collections of facts the component proofs are run
  with.
\<close>

section \<open>Collections\<close>

named_theorems valid_simps \<open>unfoldings of the validation functions\<close>
named_theorems step_simps \<open>unfoldings of the operations that change state\<close>

section \<open>Exceptions as values\<close>

text \<open>
  Every exception class the modelled code raises is one constructor; the string is the
  message.  ValidationError is what pydantic raises when a field constraint or a model
  validator refuses a payload; the message is that of the first rule that fails.  ExternalError
  stands for whatever a database, a gateway or another service outside the repository raises.
\<close>

datatype fault =
    ValidationError string
  | ValueError string
  | OrderStateTransitionError
  | SignalOrderIntentError string
  | PortfolioStateError string
  | RuntimeError string
  | MissingControlPlaneSchemaError "string list"
  | TypeError string
  | ExternalError string
  | InvalidOperation
  | DivisionByZero
  | AssertionError

type_synonym 'a res = "fault + 'a"

fun res_bind :: "'a res \<Rightarrow> ('a \<Rightarrow> 'b res) \<Rightarrow> 'b res" where
  "res_bind (Inl e) f = Inl e"
| "res_bind (Inr x) f = f x"

abbreviation res_map :: "('a \<Rightarrow> 'b) \<Rightarrow> 'a res \<Rightarrow> 'b res" where
  "res_map f r \<equiv> res_bind r (\<lambda>x. Inr (f x))"

text \<open>In evaluation a bind is the case distinction it stands for: its continuation waits for the value.\<close>

lemma res_bind_code [code_unfold]:
  "res_bind r f = (case r of Inl e \<Rightarrow> Inl e | Inr x \<Rightarrow> f x)"
  by (cases r) simp_all

lemma res_bind_Inr_iff [simp]:
  "res_bind r f = Inr y \<longleftrightarrow> (\<exists>x. r = Inr x \<and> f x = Inr y)"
  by (cases r) auto

lemma Inr_res_bind_iff [simp]:
  "Inr y = res_bind r f \<longleftrightarrow> (\<exists>x. r = Inr x \<and> f x = Inr y)"
  by (cases r) auto

lemma res_bind_Inr_right [simp]: "res_bind r Inr = r"
  by (cases r) auto

lemma res_bind_assoc: "res_bind (res_bind r f) g = res_bind r (\<lambda>x. res_bind (f x) g)"
  by (cases r) auto

lemma res_bind_cong [fundef_cong]:
  "r = s \<Longrightarrow> (\<And>x. s = Inr x \<Longrightarrow> f x = g x) \<Longrightarrow> res_bind r f = res_bind s g"
  by (cases s) auto

definition is_ok :: "'a res \<Rightarrow> bool" where
  "is_ok r = (case r of Inl _ \<Rightarrow> False | Inr _ \<Rightarrow> True)"

lemma is_ok_simps [simp]: "is_ok (Inr x)" "\<not> is_ok (Inl e)"
  by (auto simp: is_ok_def)

lemma is_ok_iff: "is_ok r \<longleftrightarrow> (\<exists>x. r = Inr x)"
  by (cases r) auto

text \<open>
  A run of guard clauses: a list of conditions with the exception each one raises, tested in
  order; the first condition that holds raises.
\<close>

fun checks :: "(bool \<times> fault) list \<Rightarrow> unit res" where
  "checks [] = Inr ()"
| "checks ((c, e) # rest) = (if c then Inl e else checks rest)"

lemma checks_Cons_ok [simp]:
  "checks ((c, e) # rest) = Inr u \<longleftrightarrow> \<not> c \<and> checks rest = Inr u"
  by auto

lemma checks_Cons_fault:
  "checks ((c, e) # rest) = Inl f \<longleftrightarrow> c \<and> f = e \<or> \<not> c \<and> checks rest = Inl f"
  by auto

declare checks.simps(2) [simp del]

lemma checks_append [simp]:
  "checks (xs @ ys) = Inr u \<longleftrightarrow> checks xs = Inr () \<and> checks ys = Inr u"
  by (induction xs) auto

lemma checks_ok_iff: "checks xs = Inr u \<longleftrightarrow> (\<forall>(c, e) \<in> set xs. \<not> c)"
  by (induction xs) auto

lemma checks_faultD: "checks xs = Inl e \<Longrightarrow> (True, e) \<in> set xs"
  by (induction xs) (auto simp: checks_Cons_fault)

text \<open>Running a fallible step over a list, left to right, stopping at the first exception.\<close>

fun res_fold :: "('s \<Rightarrow> 'a \<Rightarrow> 's res) \<Rightarrow> 's \<Rightarrow> 'a list \<Rightarrow> 's res" where
  "res_fold f s [] = Inr s"
| "res_fold f s (x # xs) = res_bind (f s x) (\<lambda>t. res_fold f t xs)"

lemma res_fold_append:
  "res_fold f s (xs @ ys) = res_bind (res_fold f s xs) (\<lambda>t. res_fold f t ys)"
  by (induction xs arbitrary: s) (auto simp: res_bind_assoc)

lemma res_fold_invariant:
  assumes "res_fold f s xs = Inr t" and "P s"
    and "\<And>s x t. P s \<Longrightarrow> x \<in> set xs \<Longrightarrow> f s x = Inr t \<Longrightarrow> P t"
  shows "P t"
  using assms
proof (induction xs arbitrary: s)
  case (Cons x xs)
  from Cons.prems(1) obtain u where u: "f s x = Inr u" "res_fold f u xs = Inr t"
    by auto
  have "P u"
    by (rule Cons.prems(3) [OF Cons.prems(2) _ u(1)]) simp
  then show ?case
    by (rule Cons.IH [OF u(2)]) (rule Cons.prems(3), auto)
qed simp

fun res_list :: "('a \<Rightarrow> 'b res) \<Rightarrow> 'a list \<Rightarrow> 'b list res" where
  "res_list f [] = Inr []"
| "res_list f (x # xs) = res_bind (f x) (\<lambda>y. res_bind (res_list f xs) (\<lambda>ys. Inr (y # ys)))"

end
