(* ===== verification/Shared_Types.thy ===== *)
theory Shared_Types
  imports Prelude "HOL-Library.Word"
begin

text \<open>
  The shared building blocks of src/src/shared/types.py: the texts that name exchanges,
  symbols, assets and timeframes with their normalisers, UUIDs, and Shanghai datetimes; and the
  parts of Python's standard library the code calls on them (str methods, UUID rendering,
  datetime.date, isoformat).
\<close>

section \<open>Strings\<close>

text \<open>
  Identifiers are ASCII texts.  The operation py_strip is Python's str.strip, trim is the
  whitespace trimming pydantic applies to string fields (it keeps the separators 28 to 31,
  which str.strip removes), lower and upper change ASCII letters.
\<close>

definition is_py_space :: "char \<Rightarrow> bool" where
  "is_py_space c = (let n = (of_char c :: nat) in 9 \<le> n \<and> n \<le> 13 \<or> 28 \<le> n \<and> n \<le> 32)"

definition is_trim_space :: "char \<Rightarrow> bool" where
  "is_trim_space c = (let n = (of_char c :: nat) in 9 \<le> n \<and> n \<le> 13 \<or> n = 32)"

definition strip_by :: "(char \<Rightarrow> bool) \<Rightarrow> string \<Rightarrow> string" where
  "strip_by p s = rev (dropWhile p (rev (dropWhile p s)))"

definition py_strip :: "string \<Rightarrow> string" where
  "py_strip = strip_by is_py_space"

definition trim :: "string \<Rightarrow> string" where
  "trim = strip_by is_trim_space"

definition lower_char :: "char \<Rightarrow> char" where
  "lower_char c = (let n = (of_char c :: nat) in if 65 \<le> n \<and> n \<le> 90 then char_of (n + 32) else c)"

definition upper_char :: "char \<Rightarrow> char" where
  "upper_char c = (let n = (of_char c :: nat) in if 97 \<le> n \<and> n \<le> 122 then char_of (n - 32) else c)"

definition lower :: "string \<Rightarrow> string" where
  "lower s = map lower_char s"

definition upper :: "string \<Rightarrow> string" where
  "upper s = map upper_char s"

lemma strip_by_idem [simp]: "strip_by p (strip_by p s) = strip_by p s"
proof -
  define u where "u = dropWhile p s"
  define v where "v = dropWhile p (rev u)"
  have u: "u = rev v @ rev (takeWhile p (rev u))"
    unfolding v_def by (metis rev_append rev_rev_ident takeWhile_dropWhile_id)
  have "dropWhile p (rev v) = rev v"
  proof (cases "rev v")
    case (Cons c cs)
    then have "u \<noteq> []" "hd u = c"
      using u by (metis append_Cons list.discI, metis append_Cons list.sel(1))
    then have "\<not> p c"
      unfolding u_def using hd_dropWhile by blast
    then show ?thesis
      using Cons by simp
  qed simp
  then show ?thesis
    by (simp add: strip_by_def flip: u_def v_def) (simp add: v_def)
qed

lemma strip_by_map:
  assumes "\<And>c. p (f c) = p c"
  shows "strip_by p (map f s) = map f (strip_by p s)"
proof -
  have "p \<circ> f = p"
    using assms by auto
  then show ?thesis
    by (simp add: strip_by_def dropWhile_map add: rev_map)
qed

lemma strip_by_weaker:
  assumes "\<And>c. q c \<Longrightarrow> p c"
  shows "strip_by q (strip_by p s) = strip_by p s"
proof -
  have drop: "dropWhile q t = t" if "dropWhile p t = t" for t
    using that assms by (auto simp: dropWhile_eq_self_iff)
  define w where "w = strip_by p s"
  have w: "strip_by p w = w"
    by (simp add: w_def)
  then have len: "length (dropWhile p (rev (dropWhile p w))) = length w"
    by (metis length_rev strip_by_def)
  have "length (dropWhile p (rev (dropWhile p w))) \<le> length (dropWhile p w)"
    by (metis length_dropWhile_le length_rev)
  then have "length w \<le> length (dropWhile p w)"
    using len by simp
  then have l: "dropWhile p w = w"
    by (metis append_eq_append_conv append_Nil le_antisym length_dropWhile_le takeWhile_dropWhile_id)
  then have r: "dropWhile p (rev w) = rev w"
    using w by (metis rev_rev_ident strip_by_def)
  show ?thesis
    unfolding w_def [symmetric] strip_by_def [of q] using drop [OF l] drop [OF r] by simp
qed

lemma of_char_lower [simp]:
  "(of_char (lower_char c) :: nat)
     = (let n = of_char c in if 65 \<le> n \<and> n \<le> 90 then n + 32 else n)"
  by (simp add: lower_char_def Let_def of_char_of)

lemma of_char_upper [simp]:
  "(of_char (upper_char c) :: nat)
     = (let n = of_char c in if 97 \<le> n \<and> n \<le> 122 then n - 32 else n)"
  by (auto simp: upper_char_def Let_def of_char_of)

lemma lower_char_idem [simp]: "lower_char (lower_char c) = lower_char c"
  by (simp add: lower_char_def Let_def of_char_of)

lemma upper_char_idem [simp]: "upper_char (upper_char c) = upper_char c"
  by (auto simp: upper_char_def Let_def of_char_of)

lemma is_py_space_case [simp]:
  "is_py_space (lower_char c) = is_py_space c" "is_py_space (upper_char c) = is_py_space c"
  by (auto simp: is_py_space_def Let_def)

lemma lower_idem [simp]: "lower (lower s) = lower s"
  by (simp add: lower_def)

lemma upper_idem [simp]: "upper (upper s) = upper s"
  by (simp add: upper_def)

lemma py_strip_idem [simp]: "py_strip (py_strip s) = py_strip s"
  by (simp add: py_strip_def)

lemma trim_idem [simp]: "trim (trim s) = trim s"
  by (simp add: trim_def)

lemma py_strip_lower [simp]: "py_strip (lower s) = lower (py_strip s)"
  by (simp add: py_strip_def lower_def strip_by_map)

lemma py_strip_upper [simp]: "py_strip (upper s) = upper (py_strip s)"
  by (simp add: py_strip_def upper_def strip_by_map)

lemma trim_py_strip [simp]: "trim (py_strip s) = py_strip s"
  by (simp add: trim_def py_strip_def)
     (rule strip_by_weaker, auto simp: is_py_space_def is_trim_space_def Let_def)

section \<open>Normalisers and constrained texts\<close>

definition normalize_exchange :: "string \<Rightarrow> string" where
  "normalize_exchange s = lower (py_strip s)"

definition normalize_symbol :: "string \<Rightarrow> string" where
  "normalize_symbol s = upper (py_strip s)"

definition normalize_asset :: "string \<Rightarrow> string" where
  "normalize_asset s = upper (py_strip s)"

definition normalize_timeframe :: "string \<Rightarrow> string" where
  "normalize_timeframe s = lower (py_strip s)"

lemma normalize_idem [simp]:
  "normalize_exchange (normalize_exchange s) = normalize_exchange s"
  "normalize_symbol (normalize_symbol s) = normalize_symbol s"
  "normalize_asset (normalize_asset s) = normalize_asset s"
  "normalize_timeframe (normalize_timeframe s) = normalize_timeframe s"
  by (simp_all add: normalize_exchange_def normalize_symbol_def normalize_asset_def
      normalize_timeframe_def)

lemma trim_normalize [simp]:
  "trim (normalize_exchange s) = normalize_exchange s"
  "trim (normalize_symbol s) = normalize_symbol s"
  by (metis normalize_exchange_def py_strip_lower trim_py_strip,
      metis normalize_symbol_def py_strip_upper trim_py_strip)

definition is_digit :: "char \<Rightarrow> bool" where
  "is_digit c = (let n = (of_char c :: nat) in 48 \<le> n \<and> n \<le> 57)"

text \<open>The TimeframeStr pattern: one or more digits followed by one of m, h, d, w.\<close>

definition timeframe_ok :: "string \<Rightarrow> bool" where
  "timeframe_ok s = (2 \<le> length s \<and> list_all is_digit (butlast s)
     \<and> (last s = CHR ''m'' \<or> last s = CHR ''h'' \<or> last s = CHR ''d'' \<or> last s = CHR ''w''))"

section \<open>Rendering of numbers and identifiers\<close>

definition digit_char :: "nat \<Rightarrow> char" where
  "digit_char n = (if n < 10 then char_of (48 + n) else char_of (87 + n))"

lemma of_char_digit_char: "n < 16 \<Longrightarrow> (of_char (digit_char n) :: nat) = (if n < 10 then 48 + n else 87 + n)"
  by (auto simp: digit_char_def of_char_of)

lemma digit_char_inj:
  assumes "m < 16" "n < 16"
  shows "digit_char m = digit_char n \<longleftrightarrow> m = n"
proof
  assume "digit_char m = digit_char n"
  then have "(if m < 10 then 48 + m else 87 + m) = (if n < 10 then 48 + n else 87 + n)"
    using assms by (metis of_char_digit_char)
  then show "m = n"
    using assms by (simp split: if_splits)
qed simp

lemma digit_char_not_separator:
  "n < 16 \<Longrightarrow> digit_char n \<noteq> CHR '':''" "n < 16 \<Longrightarrow> digit_char n \<noteq> CHR ''-''"
  using of_char_digit_char [of n] by (auto split: if_splits)

text \<open>The decimal rendering of a natural number, as str(n) and f-strings give it.\<close>

fun show_nat :: "nat \<Rightarrow> string" where
  "show_nat n = (if n < 10 then [digit_char n] else show_nat (n div 10) @ [digit_char (n mod 10)])"

declare show_nat.simps [simp del]

definition read_nat :: "string \<Rightarrow> nat" where
  "read_nat s = foldl (\<lambda>a c. a * 10 + (of_char c - 48)) 0 s"

lemma read_show_nat [simp]: "read_nat (show_nat n) = n"
proof (induction n rule: show_nat.induct)
  case (1 n)
  show ?case
  proof (cases "n < 10")
    case True
    then show ?thesis
      by (simp add: show_nat.simps [of n] of_char_digit_char read_nat_def)
  next
    case False
    have "show_nat n = show_nat (n div 10) @ [digit_char (n mod 10)]"
      using False by (simp add: show_nat.simps [of n])
    then show ?thesis
      using 1 [OF False] by (simp add: of_char_digit_char read_nat_def)
  qed
qed

lemma show_nat_inj [simp]: "show_nat m = show_nat n \<longleftrightarrow> m = n"
  by (metis read_show_nat)

lemma show_nat_digits: "c \<in> set (show_nat n) \<Longrightarrow> is_digit c"
proof (induction n rule: show_nat.induct)
  case (1 n)
  show ?case
  proof (cases "n < 10")
    case True
    then show ?thesis
      using 1 by (simp add: show_nat.simps [of n] is_digit_def of_char_digit_char)
  next
    case False
    have "show_nat n = show_nat (n div 10) @ [digit_char (n mod 10)]"
      using False by (simp add: show_nat.simps [of n])
    then show ?thesis
      using 1 False by (auto simp: is_digit_def of_char_digit_char)
  qed
qed

text \<open>A UUID is its 128-bit value; UUID.hex has 32 hexadecimal digits, str adds four hyphens.\<close>

type_synonym uuid = "128 word"

fun hex_digits :: "nat \<Rightarrow> nat \<Rightarrow> string" where
  "hex_digits 0 n = []"
| "hex_digits (Suc k) n = hex_digits k (n div 16) @ [digit_char (n mod 16)]"

lemma length_hex_digits [simp]: "length (hex_digits k n) = k"
  by (induction k arbitrary: n) auto

lemma hex_digits_inj:
  "hex_digits k m = hex_digits k n \<Longrightarrow> m < 16 ^ k \<Longrightarrow> n < 16 ^ k \<Longrightarrow> m = n"
proof (induction k arbitrary: m n)
  case (Suc k)
  then have "m div 16 = n div 16" "m mod 16 = n mod 16"
    by (auto simp: digit_char_inj less_mult_imp_div_less mult.commute)
  then show ?case
    by (metis div_mult_mod_eq)
qed simp

definition uuid_hex :: "uuid \<Rightarrow> string" where
  "uuid_hex u = hex_digits 32 (unat u)"

definition uuid_str :: "uuid \<Rightarrow> string" where
  "uuid_str u =
     (let h = uuid_hex u
      in take 8 h @ ''-'' @ take 4 (drop 8 h) @ ''-'' @ take 4 (drop 12 h) @ ''-''
           @ take 4 (drop 16 h) @ ''-'' @ drop 20 h)"

lemma uuid_hex_inj [simp]: "uuid_hex u = uuid_hex v \<longleftrightarrow> u = v"
proof
  assume "uuid_hex u = uuid_hex v"
  then have "unat u = unat v"
    unfolding uuid_hex_def
    by (rule hex_digits_inj) (use unsigned_less [of u] unsigned_less [of v] in simp_all)
  then show "u = v"
    by (simp add: word_unat_eq_iff)
qed simp

lemma length_uuid_hex [simp]: "length (uuid_hex u) = 32"
  by (simp add: uuid_hex_def)

lemma length_uuid_str [simp]: "length (uuid_str u) = 36"
  by (simp add: uuid_str_def Let_def)

lemma uuid_str_inj [simp]: "uuid_str u = uuid_str v \<longleftrightarrow> u = v"
proof
  let ?a = "uuid_hex u" and ?b = "uuid_hex v"
  assume "uuid_str u = uuid_str v"
  then have e: "take 8 ?a = take 8 ?b" "take 4 (drop 8 ?a) = take 4 (drop 8 ?b)"
    "take 4 (drop 12 ?a) = take 4 (drop 12 ?b)" "take 4 (drop 16 ?a) = take 4 (drop 16 ?b)"
    "drop 20 ?a = drop 20 ?b"
    by (simp_all add: uuid_str_def Let_def)
  have split: "h = take 8 h @ take 4 (drop 8 h) @ take 4 (drop 12 h) @ take 4 (drop 16 h) @ drop 20 h"
    for h :: string
  proof -
    have "drop 8 h = take 4 (drop 8 h) @ drop 12 h" "drop 12 h = take 4 (drop 12 h) @ drop 16 h"
      "drop 16 h = take 4 (drop 16 h) @ drop 20 h"
      using append_take_drop_id [of 4 "drop 8 h"] append_take_drop_id [of 4 "drop 12 h"]
        append_take_drop_id [of 4 "drop 16 h"] by simp_all
    then show ?thesis
      by (metis append_take_drop_id)
  qed
  have "?a = ?b"
    by (subst split [of ?a], subst split [of ?b]) (simp only: e)
  then show "u = v"
    by simp
qed simp

section \<open>Shanghai datetimes\<close>

text \<open>
  A datetime is the number of microseconds since 1970-01-01 00:00 Shanghai time: the
  ShanghaiDateTime validator of the code normalises every datetime to Asia/Shanghai, whose
  offset is a constant +08:00 for all dates the program handles (the daylight-saving years
  1986 to 1991 and the times before 1901 are not modelled).  A date is a day number.
\<close>

type_synonym datetime = int
type_synonym date = int

definition us_per_second :: int where "us_per_second = 1000000"
definition us_per_minute :: int where "us_per_minute = 60 * us_per_second"
definition us_per_day :: int where "us_per_day = 24 * 60 * us_per_minute"

lemmas us_defs = us_per_second_def us_per_minute_def us_per_day_def

definition date_of :: "datetime \<Rightarrow> date" where
  "date_of t = t div us_per_day"

definition time_of :: "datetime \<Rightarrow> int" where
  "time_of t = t mod us_per_day"

definition clock_time :: "int \<Rightarrow> int \<Rightarrow> int" where
  "clock_time h m = (h * 60 + m) * us_per_minute"

definition seconds :: "int \<Rightarrow> int" where
  "seconds n = n * us_per_second"

lemma date_of_mono: "s \<le> t \<Longrightarrow> date_of s \<le> date_of t"
  by (simp add: date_of_def us_defs zdiv_mono1)

lemma time_of_bounds: "0 \<le> time_of t" "time_of t < us_per_day"
  by (simp_all add: time_of_def us_defs)

section \<open>JSON values\<close>

text \<open>The payloads the program stores and logs: what a JSON-compatible Python value is.\<close>

datatype json =
    JNull
  | JBool bool
  | JInt int
  | JFloat rat
  | JStr string
  | JList "json list"
  | JDict "(string \<times> json) list"

type_synonym json_object = "(string \<times> json) list"

text \<open>Objects: the dict values of a JSON dict, and a JSON value that is a dict.\<close>

fun json_object_mapping :: "json \<Rightarrow> (string \<times> json_object) list" where
  "json_object_mapping (JDict items) =
     concat (map (\<lambda>(k, v). case v of JDict item \<Rightarrow> [(k, item)] | _ \<Rightarrow> []) items)"
| "json_object_mapping _ = []"

fun json_single_object :: "json \<Rightarrow> json_object option" where
  "json_single_object (JDict items) = Some items"
| "json_single_object _ = None"

definition objects_json :: "(string \<times> json_object) list \<Rightarrow> json" where
  "objects_json m = JDict (map (\<lambda>(k, item). (k, JDict item)) m)"

definition object_json :: "json_object option \<Rightarrow> json" where
  "object_json x = (case x of None \<Rightarrow> JNull | Some items \<Rightarrow> JDict items)"

lemma json_object_mapping_objects [simp]: "json_object_mapping (objects_json m) = m"
  by (induction m) (auto simp: objects_json_def)

lemma json_single_object_object [simp]: "json_single_object (object_json x) = x"
  by (auto simp: object_json_def split: option.split)

section \<open>Integer literals\<close>

text \<open>
  int(text) on ASCII texts: surrounding whitespace, an optional sign, digits with single
  underscores between them; None where Python raises ValueError.
\<close>

fun py_digits :: "nat \<Rightarrow> bool \<Rightarrow> string \<Rightarrow> nat option" where
  "py_digits acc after_digit [] = (if after_digit then Some acc else None)"
| "py_digits acc after_digit (c # cs) =
     (if is_digit c then py_digits (acc * 10 + (of_char c - 48)) True cs
      else if c = CHR ''_'' \<and> after_digit then py_digits acc False cs
      else None)"

definition py_int :: "string \<Rightarrow> int option" where
  "py_int s =
     (case py_strip s of
        [] \<Rightarrow> None
      | c # cs \<Rightarrow>
          if c = CHR ''-'' then map_option (\<lambda>n. - int n) (py_digits 0 False cs)
          else if c = CHR ''+'' then map_option int (py_digits 0 False cs)
          else map_option int (py_digits 0 False (c # cs)))"

lemma py_digits_digits:
  "list_all is_digit s \<Longrightarrow> s \<noteq> [] \<or> b
     \<Longrightarrow> py_digits a b s = Some (foldl (\<lambda>a c. a * 10 + (of_char c - 48)) a s)"
  by (induction s arbitrary: a b) auto

lemma is_digit_not_space: "is_digit c \<Longrightarrow> \<not> is_py_space c"
  by (auto simp: is_digit_def is_py_space_def Let_def)

lemma py_strip_digits: "list_all is_digit s \<Longrightarrow> py_strip s = s"
proof -
  assume d: "list_all is_digit s"
  have "dropWhile is_py_space t = t" if "list_all is_digit t" for t
    using that by (cases t) (auto simp: is_digit_not_space)
  from this [of s] this [of "rev s"] show ?thesis
    using d by (simp add: py_strip_def strip_by_def list_all_rev)
qed

lemma py_int_digits:
  assumes "list_all is_digit s" "s \<noteq> []"
  shows "py_int s = Some (int (read_nat s))"
proof -
  obtain c cs where s: "s = c # cs"
    using assms by (cases s) auto
  have "\<not> is_digit (CHR ''-'')" "\<not> is_digit (CHR ''+'')"
    by (simp_all add: is_digit_def)
  then have "c \<noteq> CHR ''-''" "c \<noteq> CHR ''+''"
    using assms s by auto
  then show ?thesis
    using py_digits_digits [of s False 0] py_strip_digits [OF assms(1)] assms s
    by (simp add: py_int_def read_nat_def)
qed

lemma py_int_show_nat [simp]: "py_int (show_nat n) = Some (int n)"
proof -
  have "show_nat n \<noteq> []"
    by (subst show_nat.simps) simp
  then show ?thesis
    using py_int_digits [of "show_nat n"] show_nat_digits by (auto simp: list_all_iff)
qed

lemma trim_ends:
  "\<not> is_trim_space c \<Longrightarrow> \<not> is_trim_space d \<Longrightarrow> trim (c # xs @ [d]) = c # xs @ [d]"
  by (simp add: trim_def strip_by_def)

lemma trim_id: "list_all (\<lambda>c. \<not> is_trim_space c) s \<Longrightarrow> trim s = s"
proof -
  have drop: "dropWhile is_trim_space t = t" if "list_all (\<lambda>c. \<not> is_trim_space c) t" for t
    using that by (cases t) auto
  assume "list_all (\<lambda>c. \<not> is_trim_space c) s"
  then show ?thesis
    using drop [of s] drop [of "rev s"] by (simp add: trim_def strip_by_def list_all_rev)
qed

lemma digit_char_not_space: "m < 16 \<Longrightarrow> \<not> is_trim_space (digit_char m)"
  using of_char_digit_char [of m] by (auto simp: is_trim_space_def Let_def split: if_splits)

lemma hex_digits_not_space: "c \<in> set (hex_digits k n) \<Longrightarrow> \<not> is_trim_space c"
  by (induction k arbitrary: n) (auto simp: digit_char_not_space)

lemma show_nat_not_space: "c \<in> set (show_nat n) \<Longrightarrow> \<not> is_trim_space c"
  by (drule show_nat_digits) (auto simp: is_digit_def is_trim_space_def Let_def)

end
