(* ===== verification/Calendar.thy ===== *)
theory Calendar
  imports Shared_Types
begin

text \<open>
  The proleptic Gregorian calendar of Python's datetime module (date.fromordinal) and
  datetime.isoformat on Shanghai datetimes, which the bar keys and the market-context payloads
  of the program are built from.  The lemmas show that distinct datetimes have distinct
  renderings.
\<close>

text \<open>Days between 0001-01-01 and 1970-01-01.\<close>

definition epoch_days :: int where "epoch_days = 719162"

text \<open>The year and the zero-based day of the year, from the days since 0001-01-01.\<close>

definition year_yday :: "int \<Rightarrow> int \<times> int" where
  "year_yday n =
     (let n400 = n div 146097; r400 = n mod 146097;
          n100 = r400 div 36524; r100 = r400 mod 36524;
          n4 = r100 div 1461; r4 = r100 mod 1461;
          n1 = r4 div 365; r1 = r4 mod 365;
          y = n400 * 400 + n100 * 100 + n4 * 4 + n1
      in if n1 = 4 \<or> n100 = 4 then (y, 365) else (y + 1, r1))"

definition is_leap :: "int \<Rightarrow> bool" where
  "is_leap y \<longleftrightarrow> y mod 4 = 0 \<and> (y mod 100 \<noteq> 0 \<or> y mod 400 = 0)"

definition days_before_year :: "int \<Rightarrow> int" where
  "days_before_year y = (y - 1) * 365 + (y - 1) div 4 - (y - 1) div 100 + (y - 1) div 400"

definition month_days :: "bool \<Rightarrow> int list" where
  "month_days leap = [31, if leap then 29 else 28, 31, 30, 31, 30, 31, 31, 30, 31, 30, 31]"

fun month_day :: "int list \<Rightarrow> int \<Rightarrow> int \<Rightarrow> int \<times> int" where
  "month_day [] m d = (m, d + 1)"
| "month_day (l # ls) m d = (if d < l then (m, d + 1) else month_day ls (m + 1) (d - l))"

definition civil :: "date \<Rightarrow> int \<times> int \<times> int" where
  "civil z = (let (y, yd) = year_yday (z + epoch_days); (m, d) = month_day (month_days (is_leap y)) 1 yd
              in (y, m, d))"

definition yday_of :: "bool \<Rightarrow> int \<Rightarrow> int \<Rightarrow> int" where
  "yday_of leap m d = sum_list (take (nat (m - 1)) (month_days leap)) + d - 1"

definition days_from_civil :: "int \<Rightarrow> int \<Rightarrow> int \<Rightarrow> date" where
  "days_from_civil y m d = days_before_year y + yday_of (is_leap y) m d - epoch_days"

lemma year_yday_inverse:
  assumes "year_yday n = (y, yd)"
  shows "days_before_year y + yd = n" "0 \<le> yd" "yd \<le> 365"
proof -
  define a where "a = n div 146097"
  define r where "r = n mod 146097"
  define b where "b = r div 36524"
  define s where "s = r mod 36524"
  define c where "c = s div 1461"
  define t where "t = s mod 1461"
  define d where "d = t div 365"
  define u where "u = t mod 365"
  have n: "n = 146097 * a + 36524 * b + 1461 * c + 365 * d + u"
    unfolding a_def b_def c_def d_def u_def t_def s_def r_def by (simp add: algebra_simps)
  have r: "0 \<le> r" "r < 146097" and s: "0 \<le> s" "s < 36524" and t: "0 \<le> t" "t < 1461"
    and u: "0 \<le> u" "u < 365"
    unfolding r_def s_def t_def u_def by simp_all
  have b: "0 \<le> b" "b \<le> 4" and c: "0 \<le> c" "c \<le> 24" and d: "0 \<le> d" "d \<le> 4"
    using zdiv_mono1 [of r 146096 36524] zdiv_mono1 [of s 36523 1461] zdiv_mono1 [of t 1460 365] r s t
    unfolding b_def c_def d_def by (simp_all add: pos_imp_zdiv_nonneg_iff)
  have rb: "r = 36524 * b + s" and sc: "s = 1461 * c + t" and td: "t = 365 * d + u"
    unfolding b_def s_def c_def t_def d_def u_def by simp_all
  have b4: "b = 4 \<Longrightarrow> s = 0"
    using r s rb by simp
  have d4: "d = 4 \<Longrightarrow> u = 0 \<and> t = 1460"
    using t u td by simp
  have yy: "year_yday n = (if d = 4 \<or> b = 4 then (a * 400 + b * 100 + c * 4 + d, 365)
                            else (a * 400 + b * 100 + c * 4 + d + 1, u))"
    unfolding year_yday_def Let_def a_def b_def c_def d_def u_def t_def s_def r_def by simp
  show "0 \<le> yd" "yd \<le> 365"
    using assms u unfolding yy by (auto split: if_splits)
  show "days_before_year y + yd = n"
  proof (cases "b = 4")
    case True
    then have z: "c = 0" "d = 0" "u = 0"
      using b4 by (simp_all add: c_def d_def u_def t_def)
    then show ?thesis
      using assms n True unfolding yy days_before_year_def by auto
  next
    case False
    then have b3: "b \<le> 3"
      using b by simp
    have c24: "d = 4 \<Longrightarrow> c < 24"
      using d4 sc s c by linarith
    have q: "(400 * a + 100 * b + 4 * c + d') div 4 = 100 * a + 25 * b + c"
      "(400 * a + 100 * b + 4 * c + d') div 100 = 4 * a + b"
      "(400 * a + 100 * b + 4 * c + d') div 400 = a" if "0 \<le> d'" "d' \<le> 3" for d'
      using that b b3 c
      by (auto intro!: int_div_pos_eq [where r = d'] int_div_pos_eq [where r = "4 * c + d'"]
          int_div_pos_eq [where r = "100 * b + 4 * c + d'"])
    show ?thesis
    proof (cases "d = 4")
      case True
      then show ?thesis
        using assms n q [of 3] d4 False unfolding yy days_before_year_def by (auto simp: algebra_simps)
    next
      case d3: False
      then show ?thesis
        using assms n q [of d] d False unfolding yy days_before_year_def by (auto simp: algebra_simps)
    qed
  qed
qed

lemma month_day_inverse:
  "month_day ls m d = (m', d') \<Longrightarrow>
     m \<le> m' \<and> sum_list (take (nat (m' - m)) ls) + d' - 1 = d"
proof (induction ls m d rule: month_day.induct)
  case (2 l ls m d)
  show ?case
  proof (cases "d < l")
    case False
    then have ih: "m + 1 \<le> m'" "sum_list (take (nat (m' - (m + 1))) ls) + d' - 1 = d - l"
      using 2 by auto
    then have "nat (m' - m) = Suc (nat (m' - (m + 1)))"
      by simp
    then show ?thesis
      using ih by simp
  qed (use 2 in simp)
qed simp

lemma month_day_range:
  assumes "month_day (month_days leap) 1 d = (m', d')" "0 \<le> d" "d \<le> 365"
  shows "1 \<le> m' \<and> m' \<le> 13 \<and> 1 \<le> d' \<and> d' \<le> 31"
  using assms by (cases leap) (auto simp: month_days_def split: if_splits)

lemma days_from_civil_civil:
  assumes "civil z = (y, m, d)"
  shows "days_from_civil y m d = z"
proof -
  obtain yd where yd: "year_yday (z + epoch_days) = (y, yd)"
    and md: "month_day (month_days (is_leap y)) 1 yd = (m, d)"
    using assms by (auto simp: civil_def split: prod.splits)
  show ?thesis
    using month_day_inverse [OF md] year_yday_inverse(1) [OF yd]
    by (simp add: days_from_civil_def yday_of_def)
qed

lemma civil_inj: "civil y = civil z \<longleftrightarrow> y = z"
proof
  assume "civil y = civil z"
  moreover obtain a b c where "civil y = (a, b, c)"
    by (cases "civil y")
  ultimately show "y = z"
    by (metis days_from_civil_civil)
qed simp

lemma civil_range:
  assumes "civil z = (y, m, d)"
  shows "1 \<le> m \<and> m \<le> 13 \<and> 1 \<le> d \<and> d \<le> 31"
proof -
  obtain yd where yd: "year_yday (z + epoch_days) = (y, yd)"
    and md: "month_day (month_days (is_leap y)) 1 yd = (m, d)"
    using assms by (auto simp: civil_def split: prod.splits)
  show ?thesis
    using month_day_range [OF md] year_yday_inverse(2,3) [OF yd] by simp
qed

section \<open>isoformat\<close>

definition pad2 :: "int \<Rightarrow> string" where
  "pad2 n = [digit_char (nat (n div 10)), digit_char (nat (n mod 10))]"

definition pad4 :: "int \<Rightarrow> string" where
  "pad4 n = pad2 (n div 100) @ pad2 (n mod 100)"

definition pad6 :: "int \<Rightarrow> string" where
  "pad6 n = pad2 (n div 10000) @ pad4 (n mod 10000)"

definition date_isoformat :: "date \<Rightarrow> string" where
  "date_isoformat z = (let (y, m, d) = civil z in pad4 y @ ''-'' @ pad2 m @ ''-'' @ pad2 d)"

definition isoformat :: "datetime \<Rightarrow> string" where
  "isoformat t =
     (let s = time_of t div us_per_second; us = time_of t mod us_per_second
      in date_isoformat (date_of t) @ ''T'' @ pad2 (s div 3600) @ '':'' @ pad2 (s div 60 mod 60)
           @ '':'' @ pad2 (s mod 60) @ (if us = 0 then '''' else ''.'' @ pad6 us) @ ''+08:00'')"

text \<open>The datetimes Python can represent: the years 1 to 9999.\<close>

definition datetime_ok :: "datetime \<Rightarrow> bool" where
  "datetime_ok t \<longleftrightarrow> - epoch_days \<le> date_of t \<and> date_of t < 3652059 - epoch_days"

lemma nat_digit_inj:
  assumes "0 \<le> a" "a < 10" "0 \<le> b" "b < 10"
  shows "digit_char (nat a) = digit_char (nat b) \<longleftrightarrow> a = b"
  using assms digit_char_inj [of "nat a" "nat b"] by auto

lemma pad2_inj:
  assumes "0 \<le> a" "a < 100" "0 \<le> b" "b < 100"
  shows "pad2 a = pad2 b \<longleftrightarrow> a = b"
proof
  assume "pad2 a = pad2 b"
  then have "a div 10 = b div 10" "a mod 10 = b mod 10"
    using assms by (simp_all add: pad2_def nat_digit_inj)
  then show "a = b"
    by (metis mult_div_mod_eq)
qed simp

lemma length_pad [simp]: "length (pad2 a) = 2" "length (pad4 a) = 4" "length (pad6 a) = 6"
  by (simp_all add: pad2_def pad4_def pad6_def)

lemma pad4_inj:
  assumes "0 \<le> a" "a < 10000" "0 \<le> b" "b < 10000"
  shows "pad4 a = pad4 b \<longleftrightarrow> a = b"
proof
  assume "pad4 a = pad4 b"
  then have "a div 100 = b div 100" "a mod 100 = b mod 100"
    using assms by (simp_all add: pad4_def pad2_inj)
  then show "a = b"
    by (metis mult_div_mod_eq)
qed simp

lemma pad6_inj:
  assumes "0 \<le> a" "a < 1000000" "0 \<le> b" "b < 1000000"
  shows "pad6 a = pad6 b \<longleftrightarrow> a = b"
proof
  assume "pad6 a = pad6 b"
  then have "a div 10000 = b div 10000" "a mod 10000 = b mod 10000"
    using assms by (simp_all add: pad6_def pad2_inj pad4_inj)
  then show "a = b"
    by (metis mult_div_mod_eq)
qed simp

lemma div_bounds:
  fixes x k :: int
  assumes "0 < k"
  shows "k * (x div k) \<le> x" "x \<le> k * (x div k) + (k - 1)"
proof -
  have "x = k * (x div k) + x mod k" "0 \<le> x mod k" "x mod k < k"
    using assms by simp_all
  then show "k * (x div k) \<le> x" "x \<le> k * (x div k) + (k - 1)"
    by linarith+
qed

lemma civil_year:
  assumes "civil z = (y, m, d)" "- epoch_days \<le> z" "z < 3652059 - epoch_days"
  shows "1 \<le> y" "y < 10000"
proof -
  obtain yd where yd: "year_yday (z + epoch_days) = (y, yd)"
    using assms by (auto simp: civil_def split: prod.splits)
  note f = year_yday_inverse [OF yd]
  have lo: "0 \<le> days_before_year y + 365" and hi: "days_before_year y < 3652059"
    using f assms by linarith+
  obtain p q r where dy: "days_before_year y = (y - 1) * 365 + p - q + r"
    and q: "4 * p \<le> y - 1" "y - 1 \<le> 4 * p + 3" "100 * q \<le> y - 1" "y - 1 \<le> 100 * q + 99"
      "400 * r \<le> y - 1" "y - 1 \<le> 400 * r + 399"
  proof
    show "days_before_year y = (y - 1) * 365 + (y - 1) div 4 - (y - 1) div 100 + (y - 1) div 400"
      by (simp add: days_before_year_def)
  qed (use div_bounds [of 4 "y - 1"] div_bounds [of 100 "y - 1"] div_bounds [of 400 "y - 1"] in simp_all)
  show "1 \<le> y"
  proof (rule ccontr)
    assume "\<not> 1 \<le> y"
    then have "y = 0 \<or> y \<le> - 1"
      by linarith
    then show False
    proof
      assume "y = 0"
      then have "days_before_year y + 365 = - 1"
        by (simp add: days_before_year_def)
      then show False
        using lo by simp
    next
      assume "y \<le> - 1"
      then have "400 * (days_before_year y + 365) \<le> 146097 * (y - 1) + 146396"
        using q unfolding dy by (simp add: algebra_simps)
      also have "\<dots> < 0"
        using \<open>y \<le> - 1\<close> by simp
      finally have "days_before_year y + 365 < 0"
        by simp
      then show False
        using lo by simp
    qed
  qed
  show "y < 10000"
  proof (rule ccontr)
    assume "\<not> y < 10000"
    then have "400 * 3652058 < 146097 * (y - 1) - 699"
      by simp
    also have "\<dots> \<le> 400 * days_before_year y"
      using q unfolding dy by (simp add: algebra_simps)
    finally have "3652059 \<le> days_before_year y"
      by simp
    then show False
      using hi by simp
  qed
qed

lemma date_isoformat_inj:
  assumes "- epoch_days \<le> a" "a < 3652059 - epoch_days" "- epoch_days \<le> b" "b < 3652059 - epoch_days"
  shows "date_isoformat a = date_isoformat b \<longleftrightarrow> a = b"
proof
  assume eq: "date_isoformat a = date_isoformat b"
  obtain y m d y' m' d' where c: "civil a = (y, m, d)" "civil b = (y', m', d')"
    by (metis prod_cases3)
  note rng = civil_range [OF c(1)] civil_range [OF c(2)] civil_year [OF c(1)] civil_year [OF c(2)]
  have "y = y'" "m = m'" "d = d'"
    using eq c rng assms by (auto simp: date_isoformat_def pad2_inj pad4_inj)
  then have "civil a = civil b"
    using c by simp
  then show "a = b"
    by (rule civil_inj [THEN iffD1])
qed simp

text \<open>Distinct datetimes have distinct renderings.\<close>

lemma isoformat_inj:
  assumes "datetime_ok a" "datetime_ok b"
  shows "isoformat a = isoformat b \<longleftrightarrow> a = b"
proof
  assume eq: "isoformat a = isoformat b"
  let ?s = "\<lambda>t. time_of t div us_per_second" and ?u = "\<lambda>t. time_of t mod us_per_second"
  have len: "length (date_isoformat z) = 10" for z
    by (simp add: date_isoformat_def split: prod.splits)
  have rng: "0 \<le> ?s t" "?s t < 86400" "0 \<le> ?u t" "?u t < 1000000" for t
    using time_of_bounds [of t] zdiv_mono1 [of "time_of t" "us_per_day - 1" us_per_second]
    by (simp_all add: us_defs pos_imp_zdiv_nonneg_iff)
  have hms: "0 \<le> x div 3600" "x div 3600 < 100" "0 \<le> x div 60 mod 60" "x div 60 mod 60 < 100"
    "0 \<le> x mod 60" "x mod 60 < 100" if "0 \<le> x" "x < 86400" for x :: int
    using that zdiv_mono1 [of x 86399 3600] pos_mod_bound [of 60 "x div 60"] pos_mod_bound [of 60 x]
    by (simp_all add: pos_imp_zdiv_nonneg_iff)
  have parts: "date_isoformat (date_of a) = date_isoformat (date_of b)"
    "pad2 (?s a div 3600) = pad2 (?s b div 3600)" "pad2 (?s a div 60 mod 60) = pad2 (?s b div 60 mod 60)"
    "pad2 (?s a mod 60) = pad2 (?s b mod 60)"
    "(if ?u a = 0 then '''' else ''.'' @ pad6 (?u a)) @ ''+08:00''
       = (if ?u b = 0 then '''' else ''.'' @ pad6 (?u b)) @ ''+08:00''"
    using eq by (simp_all add: isoformat_def Let_def len)
  have "date_of a = date_of b"
    using parts(1) assms by (simp add: date_isoformat_inj datetime_ok_def)
  moreover have "?s a = ?s b"
  proof -
    note ha = hms [OF rng(1) [of a] rng(2) [of a]] and hb = hms [OF rng(1) [of b] rng(2) [of b]]
    have "?s a div 3600 = ?s b div 3600" "?s a div 60 mod 60 = ?s b div 60 mod 60" "?s a mod 60 = ?s b mod 60"
      by (fact pad2_inj [OF ha(1,2) hb(1,2), THEN iffD1, OF parts(2)]
          pad2_inj [OF ha(3,4) hb(3,4), THEN iffD1, OF parts(3)]
          pad2_inj [OF ha(5,6) hb(5,6), THEN iffD1, OF parts(4)])+
    note hms_eq = this
    have d: "x div 60 div 60 = x div 3600" for x :: int
      by (simp flip: zdiv_zmult2_eq)
    have "?s a div 60 div 60 = ?s b div 60 div 60"
      unfolding d by (rule hms_eq(1))
    then have "?s a div 60 = ?s b div 60"
      using hms_eq(2) by (metis mult_div_mod_eq)
    then show ?thesis
      using hms_eq(3) by (metis mult_div_mod_eq)
  qed
  moreover have "?u a = ?u b"
    using parts(5) pad6_inj [OF rng(3,4) rng(3,4), of a b] by (simp split: if_splits)
  ultimately show "a = b"
    unfolding date_of_def time_of_def by (metis mult_div_mod_eq)
qed simp

end
