(* ===== verification/Decimals.thy ===== *)
theory Decimals
  imports Prelude
begin

text \<open>
  Python's decimal arithmetic under the default context of the program: a Decimal is its
  numerical value, a rational, and every +, -, * and / is the exact result rounded to 28
  significant digits, ties to even (decimal.DefaultContext: prec=28, ROUND_HALF_EVEN).
  Division by zero and quantize beyond 28 digits raise.  Infinities, NaNs, the exponent range
  and the number of trailing zeros of a representation are not modelled; where the code uses
  the exponent of a Decimal (quantize), the exponent is an argument.

  The locale decimal_context states what the clients of the arithmetic use of it: rounding is
  monotone, symmetric, idempotent and keeps the sign.  It is interpreted on the 28-digit
  context; on_grid names the values (at most 28 digits, k decimal places) it keeps exactly.
\<close>

section \<open>Powers of ten\<close>

definition pow10 :: "int \<Rightarrow> rat" where
  "pow10 e = 10 powi e"

lemma pow10_pos [simp]: "0 < pow10 e"
  by (simp add: pow10_def zero_less_power_int)

lemma pow10_nonneg [simp]: "0 \<le> pow10 e" and pow10_nz [simp]: "pow10 e \<noteq> 0"
  by (simp_all add: less_imp_le less_imp_neq [THEN not_sym])

lemma pow10_add: "pow10 (a + b) = pow10 a * pow10 b"
  by (simp add: pow10_def power_int_add)

lemma pow10_0 [simp]: "pow10 0 = 1"
  by (simp add: pow10_def)

lemma pow10_minus: "pow10 (- e) = 1 / pow10 e"
  by (simp add: pow10_def power_int_minus inverse_eq_divide)

lemma pow10_of_nat: "pow10 (int n) = 10 ^ n"
  by (simp add: pow10_def)

lemma pow10_mono: "a \<le> b \<Longrightarrow> pow10 a \<le> pow10 b"
  by (simp add: pow10_def power_int_increasing)

lemma pow10_strict_mono: "a < b \<Longrightarrow> pow10 a < pow10 b"
  by (simp add: pow10_def power_int_strict_increasing)

lemma pow10_le_iff [simp]: "pow10 a \<le> pow10 b \<longleftrightarrow> a \<le> b"
  using pow10_mono pow10_strict_mono by (meson leD le_less_linear)

lemma pow10_less_iff [simp]: "pow10 a < pow10 b \<longleftrightarrow> a < b"
  using pow10_le_iff [of b a] by (simp add: not_le [symmetric])

section \<open>Rounding to an integer\<close>

definition round_half_even :: "rat \<Rightarrow> int" where
  "round_half_even x =
     (let f = \<lfloor>x\<rfloor>; d = x - of_int f
      in if d < 1 / 2 then f else if 1 / 2 < d then f + 1 else if even f then f else f + 1)"

definition round_half_up :: "rat \<Rightarrow> int" where
  "round_half_up x = (if 0 \<le> x then \<lfloor>x + 1 / 2\<rfloor> else - \<lfloor>1 / 2 - x\<rfloor>)"

definition round_down :: "rat \<Rightarrow> int" where
  "round_down x = (if 0 \<le> x then \<lfloor>x\<rfloor> else - \<lfloor>- x\<rfloor>)"

lemma round_half_even_of_int [simp]: "round_half_even (of_int n) = n"
  by (simp add: round_half_even_def)

lemma round_half_up_of_int [simp]: "round_half_up (of_int n) = n"
  by (simp add: round_half_up_def floor_unique)

lemma round_half_even_floor:
  "round_half_even x = \<lfloor>x\<rfloor> \<or> round_half_even x = \<lfloor>x\<rfloor> + 1"
  by (simp add: round_half_even_def Let_def)

lemma round_half_even_mono:
  assumes "x \<le> y"
  shows "round_half_even x \<le> round_half_even y"
proof (cases "\<lfloor>x\<rfloor> = \<lfloor>y\<rfloor>")
  case True
  then show ?thesis
    using assms by (auto simp: round_half_even_def Let_def)
next
  case False
  then have "\<lfloor>x\<rfloor> + 1 \<le> \<lfloor>y\<rfloor>"
    using floor_mono [OF assms] by simp
  then show ?thesis
    using round_half_even_floor [of x] round_half_even_floor [of y] by auto
qed

lemma round_half_even_error: "\<bar>of_int (round_half_even x) - x\<bar> \<le> 1 / 2"
proof -
  have "of_int \<lfloor>x\<rfloor> \<le> x" "x < of_int \<lfloor>x\<rfloor> + 1"
    by linarith+
  then show ?thesis
    by (auto simp: round_half_even_def Let_def abs_le_iff)
qed

lemma round_half_up_error: "\<bar>of_int (round_half_up x) - x\<bar> \<le> 1 / 2"
proof (cases "0 \<le> x")
  case True
  then show ?thesis
    unfolding round_half_up_def abs_le_iff by simp linarith
next
  case False
  then show ?thesis
    unfolding round_half_up_def abs_le_iff by simp linarith
qed

lemma round_half_up_mono: "x \<le> y \<Longrightarrow> round_half_up x \<le> round_half_up y"
  unfolding round_half_up_def by (auto intro: floor_mono) linarith

lemma round_half_up_nonneg: "0 \<le> x \<Longrightarrow> 0 \<le> round_half_up x"
  by (simp add: round_half_up_def)

lemma round_half_up_minus: "round_half_up (- x) = - round_half_up x"
  by (auto simp: round_half_up_def algebra_simps floor_unique)

section \<open>The number of digits\<close>

fun ndigits :: "nat \<Rightarrow> nat" where
  "ndigits n = (if n < 10 then 1 else Suc (ndigits (n div 10)))"

declare ndigits.simps [simp del]

lemma ndigits_upper: "n < 10 ^ ndigits n"
proof (induction n rule: ndigits.induct)
  case (1 n)
  then show ?case
    by (subst ndigits.simps) (auto simp: less_mult_imp_div_less div_less_iff_less_mult)
qed

lemma ndigits_pos: "0 < ndigits n"
  by (subst ndigits.simps) simp

lemma ndigits_lower: "0 < n \<Longrightarrow> 10 ^ (ndigits n - 1) \<le> n"
proof (induction n rule: ndigits.induct)
  case (1 n)
  show ?case
  proof (cases "n < 10")
    case True
    then show ?thesis
      using 1 by (simp add: ndigits.simps [of n])
  next
    case False
    then have "10 ^ (ndigits (n div 10) - 1) \<le> n div 10"
      using 1 by simp
    then have "10 * 10 ^ (ndigits (n div 10) - 1) \<le> n"
      by simp
    then show ?thesis
      using False ndigits_pos [of "n div 10"]
      by (simp add: ndigits.simps [of n] flip: power_Suc)
  qed
qed

text \<open>The adjusted exponent of a positive value: the power of ten of its leading digit.\<close>

definition adjusted :: "rat \<Rightarrow> int" where
  "adjusted x = (if 1 \<le> x then int (ndigits (nat \<lfloor>x\<rfloor>)) - 1
                 else - int (ndigits (nat (\<lceil>1 / x\<rceil> - 1))))"

text \<open>The same on integers, which evaluate in binary.\<close>

function int_digits :: "int \<Rightarrow> int" where
  "int_digits n = (if n < 10 then 1 else 1 + int_digits (n div 10))"
  by auto
termination
  by (relation "measure nat") auto

declare int_digits.simps [simp del]

lemma int_ndigits: "int (ndigits (nat n)) = int_digits n"
proof (induction n rule: int_digits.induct)
  case (1 n)
  show ?case
  proof (cases "n < 10")
    case False
    then have "int (ndigits (nat n)) = 1 + int (ndigits (nat n div 10))"
      by (subst ndigits.simps) (simp add: nat_less_iff)
    also have "nat n div 10 = nat (n div 10)"
      by (simp add: nat_div_distrib)
    finally show ?thesis
      using 1 False by (simp add: int_digits.simps [of n])
  next
    case True
    then have "nat n < 10"
      by (simp add: nat_less_iff)
    then show ?thesis
      using True by (simp add: ndigits.simps [of "nat n"] int_digits.simps [of n])
  qed
qed

lemma adjusted_code [code]:
  "adjusted x = (if 1 \<le> x then int_digits \<lfloor>x\<rfloor> - 1 else - int_digits (\<lceil>1 / x\<rceil> - 1))"
  by (simp add: adjusted_def int_ndigits)

lemma pow10_ndigits: "0 < n \<Longrightarrow> pow10 (int (ndigits n) - 1) \<le> of_nat n"
proof -
  assume "0 < n"
  have "pow10 (int (ndigits n) - 1) = pow10 (int (ndigits n - 1))"
    using ndigits_pos [of n] by (simp add: of_nat_diff)
  also have "\<dots> = of_nat (10 ^ (ndigits n - 1))"
    by (simp add: pow10_of_nat)
  also have "\<dots> \<le> of_nat n"
    using ndigits_lower [OF \<open>0 < n\<close>] by (simp only: of_nat_le_iff)
  finally show ?thesis .
qed

lemma pow10_ndigits_upper: "of_nat (n + 1) \<le> pow10 (int (ndigits n))"
proof -
  have "of_nat (n + 1) \<le> (of_nat (10 ^ ndigits n) :: rat)"
    using ndigits_upper [of n] by (subst of_nat_le_iff) simp
  then show ?thesis
    by (simp add: pow10_of_nat)
qed

lemma adjusted_bounds:
  assumes "0 < x"
  shows "pow10 (adjusted x) \<le> x" and "x < pow10 (adjusted x + 1)"
proof -
  have "pow10 (adjusted x) \<le> x \<and> x < pow10 (adjusted x + 1)"
  proof (cases "1 \<le> x")
    case True
    define n where "n = nat \<lfloor>x\<rfloor>"
    have n: "0 < n" "of_nat n \<le> x" "x < of_nat (n + 1)"
      using True unfolding n_def by (simp_all add: le_floor_iff) linarith+
    show ?thesis
      using pow10_ndigits [OF n(1)] pow10_ndigits_upper [of n] n True
      by (simp add: adjusted_def flip: n_def)
  next
    case False
    define n where "n = nat (\<lceil>1 / x\<rceil> - 1)"
    have inv: "1 < 1 / x"
      using False assms by simp
    then have "1 < \<lceil>1 / x\<rceil>"
      by simp
    then have c: "0 \<le> \<lceil>1 / x\<rceil> - 1" and pos: "0 < n"
      unfolding n_def by linarith+
    have "of_nat n = (of_int (\<lceil>1 / x\<rceil> - 1) :: rat)"
      unfolding n_def by (rule of_nat_nat [OF c])
    then have n: "0 < n" "1 / x \<le> of_nat (n + 1)" "of_nat n < 1 / x"
      using ceiling_correct [of "1 / x"] pos by simp_all
    have "1 / x \<le> pow10 (int (ndigits n))"
      using pow10_ndigits_upper [of n] n by linarith
    moreover have "pow10 (int (ndigits n) - 1) < 1 / x"
      using pow10_ndigits [OF n(1)] n by linarith
    ultimately have "1 / pow10 (int (ndigits n)) \<le> x" "x < 1 / pow10 (int (ndigits n) - 1)"
      using assms by (simp_all add: field_simps)
    moreover have "1 / pow10 (int (ndigits n) - 1) = pow10 (- int (ndigits n) + 1)"
      using pow10_minus [of "int (ndigits n) - 1"] by simp
    ultimately show ?thesis
      using False by (simp add: adjusted_def pow10_minus flip: n_def)
  qed
  then show "pow10 (adjusted x) \<le> x" "x < pow10 (adjusted x + 1)"
    by blast+
qed

lemma adjusted_unique:
  assumes "pow10 a \<le> x" "x < pow10 (a + 1)"
  shows "adjusted x = a"
proof -
  have "0 < x"
    using assms pow10_pos [of a] by linarith
  then have "pow10 (adjusted x) < pow10 (a + 1)" "pow10 a < pow10 (adjusted x + 1)"
    using adjusted_bounds [of x] assms by linarith+
  then show ?thesis
    by simp
qed

section \<open>Context rounding\<close>

text \<open>The 28 most significant digits of a value.\<close>

definition ctx :: "rat \<Rightarrow> rat" where
  "ctx x = (if x = 0 then 0
            else let e = adjusted \<bar>x\<bar> - 27
                 in sgn x * of_int (round_half_even (\<bar>x\<bar> * pow10 (- e))) * pow10 e)"

text \<open>A value no operation has to round: it has at most 28 significant digits.\<close>

definition exact :: "rat \<Rightarrow> bool" where "exact x \<longleftrightarrow> ctx x = x"

definition dec_add :: "rat \<Rightarrow> rat \<Rightarrow> rat" where "dec_add x y = ctx (x + y)"
definition dec_sub :: "rat \<Rightarrow> rat \<Rightarrow> rat" where "dec_sub x y = ctx (x - y)"
definition dec_mul :: "rat \<Rightarrow> rat \<Rightarrow> rat" where "dec_mul x y = ctx (x * y)"
definition dec_neg :: "rat \<Rightarrow> rat" where "dec_neg x = ctx (- x)"
definition dec_abs :: "rat \<Rightarrow> rat" where "dec_abs x = ctx \<bar>x\<bar>"

definition dec_div :: "rat \<Rightarrow> rat \<Rightarrow> rat res" where
  "dec_div x y = (if y = 0 then Inl DivisionByZero else Inr (ctx (x / y)))"

text \<open>x.quantize(q) with the exponent e of q: refused when the coefficient needs over 28 digits.\<close>

definition quantize_with :: "(rat \<Rightarrow> int) \<Rightarrow> int \<Rightarrow> rat \<Rightarrow> rat res" where
  "quantize_with rounding e x =
     (let c = rounding (x * pow10 (- e))
      in if \<bar>c\<bar> < 10 ^ 28 then Inr (of_int c * pow10 e) else Inl InvalidOperation)"

lemma ctx_0 [simp]: "ctx 0 = 0"
  by (simp add: ctx_def)

lemma ctx_minus: "ctx (- x) = - ctx x"
  by (simp add: ctx_def Let_def)

lemma ctx_pos_eq:
  "0 < x \<Longrightarrow> ctx x = of_int (round_half_even (x * pow10 (27 - adjusted x))) * pow10 (adjusted x - 27)"
  by (simp add: ctx_def Let_def)

text \<open>The coefficient of a rounded value has 28 digits, or is the next power of ten.\<close>

lemma ctx_coefficient:
  assumes "0 < x"
  shows "10 ^ 27 \<le> round_half_even (x * pow10 (27 - adjusted x))"
    and "round_half_even (x * pow10 (27 - adjusted x)) \<le> 10 ^ 28"
proof -
  let ?a = "adjusted x"
  have e: "pow10 ?a * pow10 (27 - ?a) = of_int (10 ^ 27)"
    "pow10 (?a + 1) * pow10 (27 - ?a) = of_int (10 ^ 28)"
    using pow10_of_nat [of 27] pow10_of_nat [of 28] by (simp_all flip: pow10_add)
  have "of_int (10 ^ 27) \<le> x * pow10 (27 - ?a)" "x * pow10 (27 - ?a) \<le> of_int (10 ^ 28)"
    using adjusted_bounds [OF assms] unfolding e [symmetric]
    by (auto intro!: mult_right_mono)
  then have "round_half_even (of_int (10 ^ 27)) \<le> round_half_even (x * pow10 (27 - ?a))"
    "round_half_even (x * pow10 (27 - ?a)) \<le> round_half_even (of_int (10 ^ 28))"
    by (simp_all only: round_half_even_mono)
  then show "10 ^ 27 \<le> round_half_even (x * pow10 (27 - ?a))"
    "round_half_even (x * pow10 (27 - ?a)) \<le> 10 ^ 28"
    by (simp_all only: round_half_even_of_int)
qed

lemma ctx_bounds:
  assumes "0 < x"
  shows "pow10 (adjusted x) \<le> ctx x" and "ctx x \<le> pow10 (adjusted x + 1)"
proof -
  let ?c = "round_half_even (x * pow10 (27 - adjusted x))"
  have "of_int (10 ^ 27) \<le> (of_int ?c :: rat)" "(of_int ?c :: rat) \<le> of_int (10 ^ 28)"
    using ctx_coefficient [OF assms] by (simp_all only: of_int_le_iff)
  then have "of_int (10 ^ 27) * pow10 (adjusted x - 27) \<le> ctx x"
    "ctx x \<le> of_int (10 ^ 28) * pow10 (adjusted x - 27)"
    unfolding ctx_pos_eq [OF assms] by (simp_all only: mult_right_mono pow10_nonneg)
  moreover have "of_int (10 ^ 27) * pow10 (adjusted x - 27) = pow10 (adjusted x)"
    "of_int (10 ^ 28) * pow10 (adjusted x - 27) = pow10 (adjusted x + 1)"
    using pow10_of_nat [of 27] pow10_of_nat [of 28]
      pow10_add [of 27 "adjusted x - 27"] pow10_add [of 28 "adjusted x - 27"]
    by (simp_all add: add.commute)
  ultimately show "pow10 (adjusted x) \<le> ctx x" "ctx x \<le> pow10 (adjusted x + 1)"
    by simp_all
qed

lemma ctx_pos: "0 < x \<Longrightarrow> 0 < ctx x"
  using ctx_bounds(1) [of x] pow10_pos [of "adjusted x"] by linarith

lemma adjusted_mono: "0 < x \<Longrightarrow> x \<le> y \<Longrightarrow> adjusted x \<le> adjusted y"
proof -
  assume "0 < x" "x \<le> y"
  then have "pow10 (adjusted x) < pow10 (adjusted y + 1)"
    using adjusted_bounds [of x] adjusted_bounds [of y] by linarith
  then show ?thesis
    by simp
qed

lemma ctx_mono_pos:
  assumes "0 < x" "x \<le> y"
  shows "ctx x \<le> ctx y"
proof (cases "adjusted x = adjusted y")
  case True
  have "round_half_even (x * pow10 (27 - adjusted x)) \<le> round_half_even (y * pow10 (27 - adjusted x))"
    by (intro round_half_even_mono mult_right_mono assms) simp
  then show ?thesis
    using assms True by (simp add: ctx_pos_eq)
next
  case False
  then have "adjusted x + 1 \<le> adjusted y"
    using adjusted_mono [OF assms] by simp
  then have "pow10 (adjusted x + 1) \<le> pow10 (adjusted y)"
    by simp
  then show ?thesis
    using ctx_bounds(2) [of x] ctx_bounds(1) [of y] assms by linarith
qed

lemma ctx_mono:
  assumes "x \<le> y"
  shows "ctx x \<le> ctx y"
proof -
  consider "0 < x" | "x \<le> 0" "0 \<le> y" | "y < 0"
    by linarith
  then show ?thesis
  proof cases
    case 1
    then show ?thesis
      using assms by (rule ctx_mono_pos)
  next
    case 2
    have "ctx x \<le> 0"
      using 2 ctx_pos [of "- x"] by (cases "x = 0") (auto simp: ctx_minus)
    moreover have "0 \<le> ctx y"
      using 2 ctx_pos [of y] by (cases "y = 0") auto
    ultimately show ?thesis
      by linarith
  next
    case 3
    then have "ctx (- y) \<le> ctx (- x)"
      using assms by (intro ctx_mono_pos) auto
    then show ?thesis
      by (simp add: ctx_minus)
  qed
qed

text \<open>
  The values with at most 28 significant digits whose last digit is at exponent e or above:
  what a column Numeric(28, 10) holds is on the grid of exponent -10.
\<close>

definition on_grid :: "int \<Rightarrow> rat \<Rightarrow> bool" where
  "on_grid e x = (let n = x * pow10 (- e) in of_int \<lfloor>n\<rfloor> = n \<and> \<bar>n\<bar> \<le> 10 ^ 28)"

lemma on_gridE:
  assumes "on_grid e x"
  obtains n where "x = of_int n * pow10 e" "\<bar>n\<bar> \<le> 10 ^ 28"
proof
  let ?n = "x * pow10 (- e)"
  have n: "of_int \<lfloor>?n\<rfloor> = ?n" "\<bar>?n\<bar> \<le> 10 ^ 28"
    using assms by (simp_all add: on_grid_def Let_def)
  have "pow10 (- e) * pow10 e = 1"
    by (simp flip: pow10_add)
  then show "x = of_int \<lfloor>?n\<rfloor> * pow10 e"
    unfolding n(1) by (simp only: mult.assoc mult_1_right)
  have "(of_int \<bar>\<lfloor>?n\<rfloor>\<bar> :: rat) \<le> of_int (10 ^ 28)"
    unfolding of_int_abs n(1) using n(2) by simp
  then show "\<bar>\<lfloor>?n\<rfloor>\<bar> \<le> 10 ^ 28"
    by (simp only: of_int_le_iff)
qed

lemma on_gridI:
  assumes "\<bar>n\<bar> \<le> 10 ^ 28"
  shows "on_grid e (of_int n * pow10 e)"
proof -
  have "of_int n * pow10 e * pow10 (- e) = of_int n"
    by (simp only: mult.assoc flip: pow10_add) simp
  moreover have "\<bar>of_int n\<bar> \<le> (10 ^ 28 :: rat)"
    using assms by (metis of_int_abs of_int_le_iff of_int_numeral of_int_power)
  ultimately show ?thesis
    by (simp only: on_grid_def Let_def floor_of_int)
qed

lemma on_grid_0 [simp]: "on_grid e 0"
  by (simp add: on_grid_def)

lemma on_grid_minus [simp]: "on_grid e (- x) = on_grid e x"
proof -
  have "on_grid e (- x)" if "on_grid e x" for x
    using that
  proof (rule on_gridE)
    fix n
    assume "x = of_int n * pow10 e" "\<bar>n\<bar> \<le> 10 ^ 28"
    then show ?thesis
      using on_gridI [of "- n" e] by simp
  qed
  from this [of x] this [of "- x"] show ?thesis
    by auto
qed

lemma ctx_exact_pos:
  assumes "0 < n" "n \<le> 10 ^ 28"
  shows "ctx (of_int n * pow10 e) = of_int n * pow10 e"
proof -
  let ?x = "of_int n * pow10 e"
  have "(of_int n :: rat) \<le> of_int (10 ^ 28)"
    using assms by (simp only: of_int_le_iff)
  then have "?x \<le> of_int (10 ^ 28) * pow10 e"
    by (simp only: mult_right_mono pow10_nonneg)
  also have "\<dots> = pow10 (28 + e)"
    using pow10_of_nat [of 28] by (simp add: pow10_add)
  finally have top: "?x \<le> pow10 (28 + e)" .
  have pos: "0 < ?x"
    using assms by simp
  have "pow10 (adjusted ?x) \<le> pow10 (28 + e)"
    using adjusted_bounds(1) [OF pos] top by linarith
  then have le: "adjusted ?x \<le> 28 + e"
    by simp
  obtain c where m: "?x * pow10 (27 - adjusted ?x) = of_int c"
  proof (cases "adjusted ?x = 28 + e")
    case True
    then have "?x = pow10 (28 + e)"
      using adjusted_bounds(1) [OF pos] top by simp
    moreover have "pow10 (28 + e) * pow10 (27 - (28 + e)) = of_int (10 ^ 27)"
      using pow10_of_nat [of 27] by (simp only: flip: pow10_add) simp
    ultimately show ?thesis
      using that [of "10 ^ 27"] True by (simp only:)
  next
    case False
    then have "0 \<le> e - (adjusted ?x - 27)"
      using le by simp
    then obtain k where k: "e + (27 - adjusted ?x) = int k"
      by (metis nonneg_int_cases add_diff_eq diff_diff_eq2)
    have "?x * pow10 (27 - adjusted ?x) = of_int n * pow10 (int k)"
      unfolding k [symmetric] pow10_add by (simp only: mult.assoc)
    also have "\<dots> = of_int (n * 10 ^ k)"
      by (simp add: pow10_of_nat)
    finally show ?thesis
      by (rule that)
  qed
  have "ctx ?x = of_int c * pow10 (adjusted ?x - 27)"
    unfolding ctx_pos_eq [OF pos] m round_half_even_of_int ..
  also have "\<dots> = ?x * (pow10 (27 - adjusted ?x) * pow10 (adjusted ?x - 27))"
    unfolding m [symmetric] by (simp only: mult.assoc)
  also have "\<dots> = ?x"
    by (simp only: flip: pow10_add) simp
  finally show ?thesis .
qed

lemma ctx_exact: "on_grid e x \<Longrightarrow> ctx x = x"
proof (erule on_gridE)
  fix n
  assume x: "x = of_int n * pow10 e" "\<bar>n\<bar> \<le> 10 ^ 28"
  consider "n = 0" | "0 < n" | "n < 0"
    by linarith
  then show "ctx x = x"
  proof cases
    case 3
    then have "ctx (- x) = - x"
      using x ctx_exact_pos [of "- n" e] by simp
    then show ?thesis
      by (simp add: ctx_minus)
  qed (use x ctx_exact_pos in auto)
qed

lemma ctx_on_grid: "0 < x \<Longrightarrow> on_grid (adjusted x - 27) (ctx x)"
  using ctx_coefficient [of x] by (simp add: ctx_pos_eq on_gridI)

lemma ctx_idem [simp]: "ctx (ctx x) = ctx x"
proof -
  consider "x = 0" | "0 < x" | "x < 0"
    by linarith
  then show ?thesis
  proof cases
    case 2
    then show ?thesis
      by (blast intro: ctx_exact ctx_on_grid)
  next
    case 3
    then have "ctx (ctx (- x)) = ctx (- x)"
      by (blast intro: ctx_exact ctx_on_grid neg_0_less_iff_less [THEN iffD2])
    then show ?thesis
      by (simp add: ctx_minus)
  qed simp
qed

text \<open>The error of a rounding is at most half a unit of the 28th digit.\<close>

lemma ctx_error:
  assumes "0 < x"
  shows "\<bar>ctx x - x\<bar> \<le> x / (2 * 10 ^ 27)"
proof -
  let ?p = "pow10 (27 - adjusted x)" and ?q = "pow10 (adjusted x - 27)"
  have one: "?p * ?q = 1"
    by (simp only: flip: pow10_add) simp
  have "ctx x - x = (of_int (round_half_even (x * ?p)) - x * ?p) * ?q"
    using one by (simp add: ctx_pos_eq [OF assms] algebra_simps)
  then have "\<bar>ctx x - x\<bar> = \<bar>of_int (round_half_even (x * ?p)) - x * ?p\<bar> * ?q"
    by (simp add: abs_mult)
  also have "\<dots> \<le> 1 / 2 * ?q"
    by (intro mult_right_mono round_half_even_error) simp
  also have "?q * 10 ^ 27 = pow10 (adjusted x)"
    using pow10_add [of "adjusted x - 27" 27] pow10_of_nat [of 27] by simp
  then have "?q \<le> x / 10 ^ 27"
    using adjusted_bounds(1) [OF assms] by (simp add: field_simps)
  then have "1 / 2 * ?q \<le> x / (2 * 10 ^ 27)"
    by simp
  finally show ?thesis .
qed

section \<open>The contract of the arithmetic\<close>

locale decimal_context =
  fixes rnd :: "rat \<Rightarrow> rat"
  assumes rnd_minus: "rnd (- x) = - rnd x"
    and rnd_mono: "x \<le> y \<Longrightarrow> rnd x \<le> rnd y"
    and rnd_idem: "rnd (rnd x) = rnd x"
    and rnd_pos: "0 < x \<Longrightarrow> 0 < rnd x"
begin

lemma rnd_0: "rnd 0 = 0"
  using rnd_minus [of 0] by simp

lemma rnd_nonneg: "0 \<le> x \<Longrightarrow> 0 \<le> rnd x"
  using rnd_mono [of 0 x] by (simp add: rnd_0)

lemma rnd_nonpos: "x \<le> 0 \<Longrightarrow> rnd x \<le> 0"
  using rnd_mono [of x 0] by (simp add: rnd_0)

lemma rnd_eq_0: "rnd x = 0 \<longleftrightarrow> x = 0"
  using rnd_pos [of x] rnd_pos [of "- x"] rnd_0 rnd_minus [of x]
  by (cases "x = 0"; cases "0 < x") auto

lemma rnd_neg: "x < 0 \<Longrightarrow> rnd x < 0"
  using rnd_pos [of "- x"] rnd_minus [of x] by simp

lemma rnd_le_exact: "rnd y = y \<Longrightarrow> x \<le> y \<Longrightarrow> rnd x \<le> y"
  by (metis rnd_mono)

lemma rnd_ge_exact: "rnd y = y \<Longrightarrow> y \<le> x \<Longrightarrow> y \<le> rnd x"
  by (metis rnd_mono)

lemma rnd_sub_le: "rnd a = a \<Longrightarrow> 0 \<le> b \<Longrightarrow> rnd (a - b) \<le> a"
  by (rule rnd_le_exact) simp_all

lemma rnd_add_ge: "rnd a = a \<Longrightarrow> 0 \<le> b \<Longrightarrow> a \<le> rnd (a + b)"
  by (rule rnd_ge_exact) simp_all

lemma rnd_sub_nonneg: "b \<le> a \<Longrightarrow> 0 \<le> rnd (a - b)"
  by (rule rnd_nonneg) simp

lemma rnd_sub_mono: "a \<le> b \<Longrightarrow> rnd (a - c) \<le> rnd (b - c)"
  by (rule rnd_mono) simp

lemma rnd_add_mono: "a \<le> b \<Longrightarrow> rnd (a + c) \<le> rnd (b + c)"
  by (rule rnd_mono) simp

lemma rnd_mult_nonneg: "0 \<le> a \<Longrightarrow> 0 \<le> b \<Longrightarrow> 0 \<le> rnd (a * b)"
  by (rule rnd_nonneg) simp

lemma rnd_mult_pos: "0 < a \<Longrightarrow> 0 < b \<Longrightarrow> 0 < rnd (a * b)"
  by (rule rnd_pos) simp

lemma rnd_between: "rnd a = a \<Longrightarrow> rnd b = b \<Longrightarrow> a \<le> x \<Longrightarrow> x \<le> b \<Longrightarrow> a \<le> rnd x \<and> rnd x \<le> b"
  using rnd_ge_exact rnd_le_exact by blast

end

interpretation dec: decimal_context ctx
  by unfold_locales (rule ctx_minus, erule ctx_mono, rule ctx_idem, erule ctx_pos)

lemmas dec_defs = dec_add_def dec_sub_def dec_mul_def dec_neg_def dec_abs_def

lemma ctx_eq_0 [simp]: "ctx x = 0 \<longleftrightarrow> x = 0"
  by (rule dec.rnd_eq_0)

lemma ctx_pos_iff [simp]: "0 < ctx x \<longleftrightarrow> 0 < x"
  by (metis ctx_pos dec.rnd_nonpos not_le)

lemma ctx_nonneg_iff [simp]: "0 \<le> ctx x \<longleftrightarrow> 0 \<le> x"
  by (metis dec.rnd_neg dec.rnd_nonneg not_le)

lemma ctx_neg_iff [simp]: "ctx x < 0 \<longleftrightarrow> x < 0"
  by (metis ctx_nonneg_iff not_le)

lemma ctx_nonpos_iff [simp]: "ctx x \<le> 0 \<longleftrightarrow> x \<le> 0"
  by (metis ctx_pos_iff not_le)

text \<open>Sums, differences and whole multiples of values on one grid are exact.\<close>

lemma on_grid_add:
  assumes "on_grid e x" "on_grid e y" "\<bar>x + y\<bar> \<le> 10 ^ 28 * pow10 e"
  shows "on_grid e (x + y)"
proof -
  obtain m n where "x = of_int m * pow10 e" "y = of_int n * pow10 e"
    using assms by (metis on_gridE)
  then have eq: "x + y = of_int (m + n) * pow10 e"
    by (simp add: algebra_simps)
  then have "of_int \<bar>m + n\<bar> * pow10 e \<le> of_int (10 ^ 28) * pow10 e"
    using assms(3) by (simp add: abs_mult)
  then have "of_int \<bar>m + n\<bar> \<le> (of_int (10 ^ 28) :: rat)"
    by (rule mult_right_le_imp_le) simp
  then have "\<bar>m + n\<bar> \<le> 10 ^ 28"
    by (simp only: of_int_le_iff)
  then show ?thesis
    unfolding eq by (rule on_gridI)
qed

lemma on_grid_diff:
  "on_grid e x \<Longrightarrow> on_grid e y \<Longrightarrow> \<bar>x - y\<bar> \<le> 10 ^ 28 * pow10 e \<Longrightarrow> on_grid e (x - y)"
  using on_grid_add [of e x "- y"] by simp

lemma on_grid_bound: "on_grid e x \<Longrightarrow> \<bar>x\<bar> \<le> 10 ^ 28 * pow10 e"
proof (erule on_gridE)
  fix n
  assume x: "x = of_int n * pow10 e" "\<bar>n\<bar> \<le> 10 ^ 28"
  then have "of_int \<bar>n\<bar> \<le> (of_int (10 ^ 28) :: rat)"
    by (simp only: of_int_le_iff)
  then show ?thesis
    by (simp add: x(1) abs_mult)
qed

lemma on_grid_diff_le:
  assumes "on_grid e x" "on_grid e y" "0 \<le> y" "y \<le> x"
  shows "on_grid e (x - y)"
  using on_grid_bound [OF assms(1)] assms by (intro on_grid_diff) auto

section \<open>Whole multiples\<close>

text \<open>x % y: the remainder of the division truncated toward zero, refused for huge quotients.\<close>

definition dec_mod :: "rat \<Rightarrow> rat \<Rightarrow> rat res" where
  "dec_mod x y =
     (if y = 0 then Inl InvalidOperation
      else let q = round_down (x / y)
           in if 10 ^ 28 \<le> \<bar>q\<bar> then Inl InvalidOperation else Inr (ctx (x - of_int q * y)))"

definition is_multiple :: "rat \<Rightarrow> rat \<Rightarrow> bool" where
  "is_multiple x y \<longleftrightarrow> (let q = x / y in of_int \<lfloor>q\<rfloor> = q)"

lemma is_multipleI: "0 < y \<Longrightarrow> x = of_int k * y \<Longrightarrow> is_multiple x y"
  by (simp add: is_multiple_def)

lemma is_multipleE:
  assumes "is_multiple x y" "y \<noteq> 0"
  obtains k where "x = of_int k * y"
proof
  have "of_int \<lfloor>x / y\<rfloor> * y = x / y * y"
    using assms(1) by (simp only: is_multiple_def Let_def)
  then show "x = of_int \<lfloor>x / y\<rfloor> * y"
    using assms(2) by simp
qed

lemma dec_mod_zero_iff:
  assumes "0 < y" "0 \<le> x" "x / y < 10 ^ 28"
  shows "dec_mod x y = Inr 0 \<longleftrightarrow> is_multiple x y"
proof -
  have "0 \<le> x / y"
    using assms by simp
  then have r: "round_down (x / y) = \<lfloor>x / y\<rfloor>" "0 \<le> \<lfloor>x / y\<rfloor>"
    by (simp_all add: round_down_def)
  have "\<lfloor>x / y\<rfloor> < 10 ^ 28"
    using assms(3) by (simp add: floor_less_iff)
  then have "dec_mod x y = Inr 0 \<longleftrightarrow> x - of_int \<lfloor>x / y\<rfloor> * y = 0"
    using assms(1) r by (simp add: dec_mod_def Let_def)
  also have "\<dots> \<longleftrightarrow> of_int \<lfloor>x / y\<rfloor> = x / y"
    using assms(1) by (auto simp: field_simps)
  finally show ?thesis
    by (simp add: is_multiple_def Let_def)
qed

section \<open>Values of at most 27 digits\<close>

text \<open>
  Quotients of values of at most 27 digits on one grid have the floor of the exact quotient
  after rounding: with 28 digits of precision the rounding cannot reach the next integer.
\<close>

definition sized :: "int \<Rightarrow> rat \<Rightarrow> bool" where
  "sized e x \<longleftrightarrow> on_grid e x \<and> \<bar>x\<bar> \<le> 10 ^ 27 * pow10 e"

lemma sizedE:
  assumes "sized e x"
  obtains n where "x = of_int n * pow10 e" "\<bar>n\<bar> \<le> 10 ^ 27"
proof -
  obtain n where n: "x = of_int n * pow10 e"
    using assms by (auto simp: sized_def elim: on_gridE)
  then have "of_int \<bar>n\<bar> * pow10 e \<le> of_int (10 ^ 27) * pow10 e"
    using assms by (simp add: sized_def abs_mult)
  then have "of_int \<bar>n\<bar> \<le> (of_int (10 ^ 27) :: rat)"
    by (rule mult_right_le_imp_le) simp
  then show ?thesis
    using that [OF n] by (simp only: of_int_le_iff)
qed

lemma sizedI:
  assumes "\<bar>n\<bar> \<le> 10 ^ 27"
  shows "sized e (of_int n * pow10 e)"
proof -
  have "of_int \<bar>n\<bar> \<le> (of_int (10 ^ 27) :: rat)"
    using assms by (simp only: of_int_le_iff)
  then have "\<bar>of_int n * pow10 e\<bar> \<le> 10 ^ 27 * pow10 e"
    by (simp add: abs_mult)
  then show ?thesis
    using assms by (simp add: sized_def on_gridI)
qed

lemma sized_on_grid: "sized e x \<Longrightarrow> on_grid e x"
  by (simp add: sized_def)

lemma sized_0 [simp]: "sized e 0"
  by (simp add: sized_def)

lemma sized_diff:
  assumes "sized e x" "sized e y" "0 \<le> x" "0 \<le> y"
  shows "sized e (x - y)"
proof -
  obtain m n where "x = of_int m * pow10 e" "\<bar>m\<bar> \<le> 10 ^ 27" "y = of_int n * pow10 e" "\<bar>n\<bar> \<le> 10 ^ 27"
    using assms(1,2) by (metis sizedE)
  moreover from this have "0 \<le> m" "0 \<le> n"
    using assms(3,4) pow10_pos [of e] by (auto simp: zero_le_mult_iff)
  ultimately show ?thesis
    using sizedI [of "m - n" e] by (simp add: algebra_simps)
qed

lemma sized_minus [simp]: "sized e (- x) = sized e x"
  by (simp add: sized_def)

lemma sized_abs: "sized e x \<Longrightarrow> sized e \<bar>x\<bar>"
  by (simp add: abs_if)

lemma ctx_sized: "sized e x \<Longrightarrow> ctx x = x"
  by (rule ctx_exact) (rule sized_on_grid)

lemma ctx_quotient_floor:
  assumes "0 < a" "a \<le> 10 ^ 27" "0 < b"
  shows "\<lfloor>ctx (of_int a / of_int b)\<rfloor> = a div b"
proof -
  let ?x = "of_int a / of_int b :: rat" and ?q = "a div b"
  have q0: "0 \<le> ?q"
    using assms by (simp add: pos_imp_zdiv_nonneg_iff)
  have "?q \<le> a"
    using assms by (metis int_one_le_iff_zero_less zdiv_mono2 div_by_1 zero_less_one less_imp_le)
  then have grid: "ctx (of_int ?q) = of_int ?q"
    using ctx_exact [OF on_gridI [of ?q 0]] assms q0 by simp
  have "b * ?q \<le> a" "a + 1 \<le> b * ?q + b"
    using assms mult_div_mod_eq [of b a] pos_mod_bound [of b a] pos_mod_sign [of b a] by linarith+
  then have "of_int (b * ?q) \<le> (of_int a :: rat)" "of_int (a + 1) \<le> (of_int (b * ?q + b) :: rat)"
    by (simp_all only: of_int_le_iff)
  then have lo: "of_int ?q \<le> ?x" and hi: "?x + 1 / of_int b \<le> of_int ?q + 1"
    using assms by (simp_all add: field_simps)
  have pos: "0 < ?x"
    using assms by simp
  have "of_int a \<le> (of_int (10 ^ 27) :: rat)"
    using assms by (simp only: of_int_le_iff)
  then have "?x / (2 * 10 ^ 27) \<le> 1 / (2 * of_int b)"
    using assms by (simp add: field_simps)
  moreover have "1 / (2 * of_int b) < (1 / of_int b :: rat)"
    using assms by (simp add: field_simps)
  ultimately have "ctx ?x < of_int ?q + 1"
    using ctx_error [OF pos] hi by linarith
  moreover have "of_int ?q \<le> ctx ?x"
    by (rule dec.rnd_ge_exact [OF grid lo])
  ultimately show ?thesis
    by (simp add: floor_unique)
qed

section \<open>Quantization\<close>

lemma quantize_half_up_error:
  assumes "quantize_with round_half_up e x = Inr q"
  shows "\<bar>q - x\<bar> \<le> pow10 e / 2"
proof -
  let ?c = "of_int (round_half_up (x * pow10 (- e))) :: rat"
  have one: "pow10 (- e) * pow10 e = 1"
    by (simp flip: pow10_add)
  have q: "q = ?c * pow10 e"
    using assms by (simp add: quantize_with_def Let_def split: if_splits)
  have "q - x = (?c - x * pow10 (- e)) * pow10 e"
    using one by (simp add: q algebra_simps)
  then have "\<bar>q - x\<bar> = \<bar>?c - x * pow10 (- e)\<bar> * pow10 e"
    by (simp add: abs_mult)
  also have "\<dots> \<le> 1 / 2 * pow10 e"
    by (intro mult_right_mono round_half_up_error) simp
  finally show ?thesis
    by simp
qed

lemma quantize_half_up_nonneg: "quantize_with round_half_up e x = Inr q \<Longrightarrow> 0 \<le> x \<Longrightarrow> 0 \<le> q"
  by (auto simp: quantize_with_def Let_def round_half_up_nonneg split: if_splits)

lemma quantize_half_up_mono:
  assumes "quantize_with round_half_up e x = Inr p" "quantize_with round_half_up e y = Inr q" "x \<le> y"
  shows "p \<le> q"
proof -
  have "round_half_up (x * pow10 (- e)) \<le> round_half_up (y * pow10 (- e))"
    using assms(3) by (intro round_half_up_mono mult_right_mono) simp_all
  then show ?thesis
    using assms(1,2) by (auto simp: quantize_with_def Let_def split: if_splits)
qed

lemma quantize_on_grid:
  assumes "quantize_with round_half_up e x = Inr q"
  shows "on_grid e q"
  using assms by (auto simp: quantize_with_def Let_def intro!: on_gridI split: if_splits)

lemma quantize_grid_id:
  assumes "on_grid e x" "\<bar>x\<bar> < 10 ^ 28 * pow10 e"
  shows "quantize_with round_half_up e x = Inr x"
proof -
  obtain n where n: "x = of_int n * pow10 e"
    using assms(1) by (rule on_gridE)
  have "of_int \<bar>n\<bar> * pow10 e < of_int (10 ^ 28) * pow10 e"
    using assms(2) by (simp add: n abs_mult)
  then have "of_int \<bar>n\<bar> < (of_int (10 ^ 28) :: rat)"
    by (rule mult_right_less_imp_less) simp
  then have "\<bar>n\<bar> < 10 ^ 28"
    by (simp only: of_int_less_iff)
  moreover have y: "x * pow10 (- e) = of_int n"
    by (simp add: n mult.assoc flip: pow10_add)
  ultimately show ?thesis
    unfolding quantize_with_def y Let_def round_half_up_of_int by (simp add: n)
qed

lemma quantize_accepts:
  assumes "0 \<le> x" "x + 1 \<le> 10 ^ 28 * pow10 e" "pow10 e \<le> 1"
  shows "\<exists>q. quantize_with round_half_up e x = Inr q"
proof -
  let ?y = "x * pow10 (- e)"
  have one: "pow10 e * pow10 (- e) = 1"
    by (simp flip: pow10_add)
  have "0 \<le> ?y"
    using assms(1) by simp
  have "(x + pow10 e) * pow10 (- e) \<le> 10 ^ 28 * pow10 e * pow10 (- e)"
    using assms by (intro mult_right_mono) simp_all
  then have "?y + 1 \<le> 10 ^ 28"
    using one by (simp add: algebra_simps)
  then have "?y + 1 / 2 < 10 ^ 28"
    by simp
  then have "\<lfloor>?y + 1 / 2\<rfloor> < 10 ^ 28"
    by (simp add: floor_less_iff)
  then have "\<bar>round_half_up ?y\<bar> < 10 ^ 28"
    using \<open>0 \<le> ?y\<close> by (simp add: round_half_up_def)
  then show ?thesis
    by (simp add: quantize_with_def Let_def)
qed

end
