(* ===== verification/Market.thy ===== *)
theory Market
  imports Shared_Types Calendar Decimals
begin

text \<open>
  The market data model: src/src/domain/market/state.py (trading phases, daily price limits,
  the market-state snapshot), src/src/domain/events/bar.py (the final-bar event) and
  src/src/domain/market/bars.py (bar identities, normalised bars and the gate that lets every
  final bar through once).
\<close>

section \<open>Market state\<close>

datatype trading_phase = PRE_OPEN | CONTINUOUS_AUCTION | MIDDAY_BREAK | PHASE_CLOSED | PHASE_UNKNOWN

datatype suspension_status = ACTIVE | SUSPENDED | SUSPENSION_UNKNOWN

record market_state =
  ms_trade_date :: date
  ms_previous_close :: rat
  ms_upper_limit :: rat
  ms_lower_limit :: rat
  ms_phase :: trading_phase
  ms_suspension :: suspension_status

definition market_state_rules :: "market_state \<Rightarrow> (bool \<times> fault) list" where
  "market_state_rules m =
     [(\<not> 0 < ms_previous_close m, ValidationError ''previous_close''),
      (\<not> 0 < ms_upper_limit m, ValidationError ''upper_limit_price''),
      (\<not> 0 < ms_lower_limit m, ValidationError ''lower_limit_price''),
      (ms_upper_limit m \<le> ms_lower_limit m,
         ValidationError ''upper_limit_price must be greater than lower_limit_price''),
      (\<not> (ms_lower_limit m \<le> ms_previous_close m \<and> ms_previous_close m \<le> ms_upper_limit m),
         ValidationError ''previous_close must stay within the derived price limits'')]"

definition make_market_state :: "market_state \<Rightarrow> market_state res" where
  "make_market_state m = res_bind (checks (market_state_rules m)) (\<lambda>_. Inr m)"

definition market_state_ok :: "market_state \<Rightarrow> bool" where
  "market_state_ok m \<longleftrightarrow> checks (market_state_rules m) = Inr ()"

lemmas [valid_simps] = market_state_ok_def market_state_rules_def make_market_state_def

text \<open>The phase of the A-share session a Shanghai-local time falls in.\<close>

definition derive_a_share_trading_phase :: "datetime \<Rightarrow> trading_phase" where
  "derive_a_share_trading_phase instant =
     (let local_time = time_of instant
      in if clock_time 9 15 \<le> local_time \<and> local_time < clock_time 9 30 then PRE_OPEN
         else if clock_time 9 30 \<le> local_time \<and> local_time < clock_time 11 30 then CONTINUOUS_AUCTION
         else if clock_time 11 30 \<le> local_time \<and> local_time < clock_time 13 0 then MIDDAY_BREAK
         else if clock_time 13 0 \<le> local_time \<and> local_time < clock_time 15 0 then CONTINUOUS_AUCTION
         else PHASE_CLOSED)"

text \<open>The tick enters through its exponent only, as in Decimal.quantize.\<close>

definition compute_price_limits :: "rat \<Rightarrow> rat \<Rightarrow> int \<Rightarrow> (rat \<times> rat) res" where
  "compute_price_limits previous_close price_limit_pct tick_exp =
     res_bind (quantize_with round_half_up tick_exp (dec_mul previous_close (dec_add 1 price_limit_pct)))
       (\<lambda>upper_limit.
     res_bind (quantize_with round_half_up tick_exp (dec_mul previous_close (dec_sub 1 price_limit_pct)))
       (\<lambda>lower_limit. Inr (upper_limit, lower_limit)))"

definition build_market_state_snapshot ::
  "datetime \<Rightarrow> rat \<Rightarrow> rat \<Rightarrow> int \<Rightarrow> suspension_status \<Rightarrow> market_state res" where
  "build_market_state_snapshot event_time previous_close price_limit_pct tick_exp suspension =
     res_bind (compute_price_limits previous_close price_limit_pct tick_exp)
       (\<lambda>(upper_limit, lower_limit).
          make_market_state
            \<lparr>ms_trade_date = date_of event_time,
             ms_previous_close = previous_close,
             ms_upper_limit = upper_limit,
             ms_lower_limit = lower_limit,
             ms_phase = derive_a_share_trading_phase event_time,
             ms_suspension = suspension\<rparr>)"

lemma make_market_state_ok: "make_market_state m = Inr m' \<Longrightarrow> m' = m \<and> market_state_ok m"
  by (auto simp: make_market_state_def market_state_ok_def)

section \<open>Bar identities\<close>

definition us_per_hour :: int where "us_per_hour = 60 * us_per_minute"

definition timeframe_to_timedelta :: "string \<Rightarrow> int res" where
  "timeframe_to_timedelta timeframe =
     (let normalized = normalize_timeframe timeframe;
          unsupported = Inl (ValueError ''Unsupported timeframe'')
      in if length normalized < 2 then unsupported
         else let unit = last normalized
              in (case py_int (butlast normalized) of
                    None \<Rightarrow> unsupported
                  | Some quantity \<Rightarrow>
                      if quantity \<le> 0 then Inl (ValueError ''timeframe quantity must be positive'')
                      else if unit = CHR ''m'' then Inr (quantity * us_per_minute)
                      else if unit = CHR ''h'' then Inr (quantity * us_per_hour)
                      else if unit = CHR ''d'' then Inr (quantity * us_per_day)
                      else if unit = CHR ''w'' then Inr (quantity * (7 * us_per_day))
                      else unsupported))"

definition join_colon :: "string list \<Rightarrow> string" where
  "join_colon parts = concat (case parts of [] \<Rightarrow> [] | p # ps \<Rightarrow> p # map (\<lambda>s. '':'' @ s) ps)"

definition build_bar_stream_key :: "string \<Rightarrow> string \<Rightarrow> string \<Rightarrow> string" where
  "build_bar_stream_key exchange symbol timeframe =
     join_colon [normalize_exchange exchange, normalize_symbol symbol, normalize_timeframe timeframe]"

definition build_bar_key :: "string \<Rightarrow> string \<Rightarrow> string \<Rightarrow> datetime \<Rightarrow> string" where
  "build_bar_key exchange symbol timeframe bar_start_time =
     join_colon [normalize_exchange exchange, normalize_symbol symbol, normalize_timeframe timeframe,
                 isoformat bar_start_time]"

section \<open>Bars\<close>

datatype bar_source_kind = Historical | Realtime

record normalized_bar =
  nb_exchange :: string
  nb_symbol :: string
  nb_timeframe :: string
  nb_start :: datetime
  nb_end :: datetime
  nb_ingest :: datetime
  nb_open :: rat
  nb_high :: rat
  nb_low :: rat
  nb_close :: rat
  nb_volume :: rat
  nb_quote_volume :: "rat option"
  nb_trade_count :: "int option"
  nb_closed :: bool
  nb_final :: bool
  nb_source_kind :: bar_source_kind
  nb_market_state :: "market_state option"
  nb_payload :: json

record bar_event =
  be_id :: uuid
  be_exchange :: string
  be_symbol :: string
  be_timeframe :: string
  be_start :: datetime
  be_end :: datetime
  be_event_time :: datetime
  be_ingest :: datetime
  be_open :: rat
  be_high :: rat
  be_low :: rat
  be_close :: rat
  be_volume :: rat
  be_quote_volume :: "rat option"
  be_trade_count :: "int option"
  be_closed :: bool
  be_final :: bool
  be_source_kind :: "bar_source_kind option"
  be_market_state :: "market_state option"
  be_payload :: json

text \<open>The field normalisers of the shared model base, applied to a bar.\<close>

definition normalize_bar :: "normalized_bar \<Rightarrow> normalized_bar" where
  "normalize_bar b =
     b\<lparr>nb_exchange := normalize_exchange (nb_exchange b),
       nb_symbol := normalize_symbol (nb_symbol b),
       nb_timeframe := normalize_timeframe (nb_timeframe b)\<rparr>"

definition normalized_bar_rules :: "normalized_bar \<Rightarrow> (bool \<times> fault) list" where
  "normalized_bar_rules b =
     [(\<not> timeframe_ok (nb_timeframe b), ValidationError ''timeframe''),
      (\<not> 0 < nb_open b, ValidationError ''open''),
      (\<not> 0 < nb_high b, ValidationError ''high''),
      (\<not> 0 < nb_low b, ValidationError ''low''),
      (\<not> 0 < nb_close b, ValidationError ''close''),
      (\<not> 0 \<le> nb_volume b, ValidationError ''volume''),
      (case nb_quote_volume b of None \<Rightarrow> False | Some v \<Rightarrow> \<not> 0 \<le> v, ValidationError ''quote_volume''),
      (case nb_trade_count b of None \<Rightarrow> False | Some n \<Rightarrow> \<not> 0 \<le> n, ValidationError ''trade_count'')]"

definition make_normalized_bar :: "normalized_bar \<Rightarrow> normalized_bar res" where
  "make_normalized_bar b =
     (let b = normalize_bar b in res_bind (checks (normalized_bar_rules b)) (\<lambda>_. Inr b))"

definition normalize_bar_event :: "bar_event \<Rightarrow> bar_event" where
  "normalize_bar_event e =
     e\<lparr>be_exchange := normalize_exchange (be_exchange e),
       be_symbol := normalize_symbol (be_symbol e),
       be_timeframe := normalize_timeframe (be_timeframe e)\<rparr>"

definition bar_event_rules :: "bar_event \<Rightarrow> (bool \<times> fault) list" where
  "bar_event_rules e =
     [(\<not> timeframe_ok (be_timeframe e), ValidationError ''timeframe''),
      (\<not> 0 < be_open e, ValidationError ''open''),
      (\<not> 0 < be_high e, ValidationError ''high''),
      (\<not> 0 < be_low e, ValidationError ''low''),
      (\<not> 0 < be_close e, ValidationError ''close''),
      (\<not> 0 \<le> be_volume e, ValidationError ''volume''),
      (case be_quote_volume e of None \<Rightarrow> False | Some v \<Rightarrow> \<not> 0 \<le> v, ValidationError ''quote_volume''),
      (case be_trade_count e of None \<Rightarrow> False | Some n \<Rightarrow> \<not> 0 \<le> n, ValidationError ''trade_count''),
      (be_end e \<le> be_start e, ValidationError ''bar_end_time must be later than bar_start_time''),
      (be_event_time e \<noteq> be_end e,
         ValidationError ''event_time must equal bar_end_time for BarEvent''),
      (be_ingest e < be_start e,
         ValidationError ''ingest_time cannot be earlier than bar_start_time''),
      (be_high e < max (be_open e) (be_close e),
         ValidationError ''high must be greater than or equal to open and close''),
      (be_low e > min (be_open e) (be_close e),
         ValidationError ''low must be less than or equal to open and close''),
      (be_high e < be_low e, ValidationError ''high must be greater than or equal to low''),
      (be_final e \<and> \<not> be_closed e, ValidationError ''final bars must also be closed''),
      (case be_market_state e of None \<Rightarrow> False | Some m \<Rightarrow> ms_trade_date m \<noteq> date_of (be_end e),
         ValidationError ''market_state.trade_date must match the bar_end_time trade date'')]"

definition make_bar_event :: "bar_event \<Rightarrow> bar_event res" where
  "make_bar_event e =
     (let e = normalize_bar_event e in res_bind (checks (bar_event_rules e)) (\<lambda>_. Inr e))"

definition be_bar_key :: "bar_event \<Rightarrow> string" where
  "be_bar_key e = join_colon [be_exchange e, be_symbol e, be_timeframe e, isoformat (be_start e)]"

definition be_actionable :: "bar_event \<Rightarrow> bool" where
  "be_actionable e = (be_closed e \<and> be_final e)"

definition be_decision_price :: "bar_event \<Rightarrow> rat" where
  "be_decision_price e = be_close e"

definition nb_bar_key :: "normalized_bar \<Rightarrow> string" where
  "nb_bar_key b = build_bar_key (nb_exchange b) (nb_symbol b) (nb_timeframe b) (nb_start b)"

definition nb_stream_key :: "normalized_bar \<Rightarrow> string" where
  "nb_stream_key b = build_bar_stream_key (nb_exchange b) (nb_symbol b) (nb_timeframe b)"

definition nb_actionable :: "normalized_bar \<Rightarrow> bool" where
  "nb_actionable b = (nb_closed b \<and> nb_final b)"

text \<open>The identifier of the event is the default uuid4 of the entity, an argument here.\<close>

definition to_bar_event :: "uuid \<Rightarrow> normalized_bar \<Rightarrow> bar_event res" where
  "to_bar_event fresh b =
     make_bar_event
       \<lparr>be_id = fresh, be_exchange = nb_exchange b, be_symbol = nb_symbol b,
        be_timeframe = nb_timeframe b, be_start = nb_start b, be_end = nb_end b,
        be_event_time = nb_end b, be_ingest = nb_ingest b, be_open = nb_open b,
        be_high = nb_high b, be_low = nb_low b, be_close = nb_close b, be_volume = nb_volume b,
        be_quote_volume = nb_quote_volume b, be_trade_count = nb_trade_count b,
        be_closed = nb_closed b, be_final = nb_final b,
        be_source_kind = Some (nb_source_kind b), be_market_state = nb_market_state b,
        be_payload = nb_payload b\<rparr>"

section \<open>Bar keys tell bars apart\<close>

lemma colon_split:
  assumes "xs @ CHR '':'' # ys = us @ CHR '':'' # vs" "CHR '':'' \<notin> set xs" "CHR '':'' \<notin> set us"
  shows "xs = us \<and> ys = vs"
proof -
  have "takeWhile (\<lambda>c. c \<noteq> CHR '':'') (zs @ CHR '':'' # ws) = zs" if "CHR '':'' \<notin> set zs" for zs ws
    using that by (induction zs) auto
  from this [OF assms(2), of ys] this [OF assms(3), of vs] assms(1) show ?thesis
    by auto
qed

definition colon_free :: "bar_event \<Rightarrow> bool" where
  "colon_free e \<longleftrightarrow> CHR '':'' \<notin> set (be_exchange e) \<and> CHR '':'' \<notin> set (be_symbol e)
     \<and> CHR '':'' \<notin> set (be_timeframe e) \<and> datetime_ok (be_start e)"

lemma be_bar_key_inj:
  assumes "colon_free e" "colon_free f"
  shows "be_bar_key e = be_bar_key f \<longleftrightarrow> be_exchange e = be_exchange f \<and> be_symbol e = be_symbol f
    \<and> be_timeframe e = be_timeframe f \<and> be_start e = be_start f"
proof
  assume "be_bar_key e = be_bar_key f"
  then have "be_exchange e @ CHR '':'' # (be_symbol e @ CHR '':'' # (be_timeframe e @ CHR '':'' # isoformat (be_start e)))
    = be_exchange f @ CHR '':'' # (be_symbol f @ CHR '':'' # (be_timeframe f @ CHR '':'' # isoformat (be_start f)))"
    by (simp add: be_bar_key_def join_colon_def)
  then show "be_exchange e = be_exchange f \<and> be_symbol e = be_symbol f
    \<and> be_timeframe e = be_timeframe f \<and> be_start e = be_start f"
    using assms colon_split isoformat_inj [of "be_start e" "be_start f"] unfolding colon_free_def by metis
qed (simp add: be_bar_key_def)

section \<open>The price band\<close>

lemma price_limits_bracket:
  assumes "compute_price_limits close pct tick = Inr (hi, lw)"
    and "0 < close" "0 < pct" "pct < 1" "on_grid tick close" "\<bar>close\<bar> < 10 ^ 28 * pow10 tick"
    and "exact (1 + pct)" "exact (1 - pct)" "exact (close * (1 + pct))" "exact (close * (1 - pct))"
  shows "lw \<le> close" "close \<le> hi" "on_grid tick lw" "on_grid tick hi"
    "\<bar>hi - close * (1 + pct)\<bar> \<le> pow10 tick / 2" "\<bar>lw - close * (1 - pct)\<bar> \<le> pow10 tick / 2"
proof -
  have q: "quantize_with round_half_up tick (close * (1 + pct)) = Inr hi"
    "quantize_with round_half_up tick (close * (1 - pct)) = Inr lw"
    using assms(1,7-10)
    by (auto simp: compute_price_limits_def dec_add_def dec_sub_def dec_mul_def exact_def)
  note c = quantize_grid_id [OF assms(5,6)]
  have "close * (1 - pct) \<le> close" "close \<le> close * (1 + pct)"
    using assms(2,3) by (simp_all add: algebra_simps)
  then show "lw \<le> close" "close \<le> hi"
    using quantize_half_up_mono [OF q(2) c] quantize_half_up_mono [OF c q(1)] by simp_all
  show "on_grid tick lw" "on_grid tick hi"
    using q by (auto intro: quantize_on_grid)
  show "\<bar>hi - close * (1 + pct)\<bar> \<le> pow10 tick / 2" "\<bar>lw - close * (1 - pct)\<bar> \<le> pow10 tick / 2"
    by (rule quantize_half_up_error [OF q(1)], rule quantize_half_up_error [OF q(2)])
qed

lemma on_grid_gap:
  assumes "on_grid e x" "on_grid e y" "x \<le> y" "y < x + pow10 e"
  shows "x = y"
proof -
  obtain a b where ab: "x = of_int a * pow10 e" "y = of_int b * pow10 e"
    using assms(1,2) by (metis on_gridE)
  have "of_int a * pow10 e \<le> of_int b * pow10 e" "of_int b * pow10 e < of_int (a + 1) * pow10 e"
    using assms(3,4) ab by (simp_all add: algebra_simps)
  then have "a \<le> b" "b < a + 1"
    by simp_all
  then show ?thesis
    using ab by simp
qed

text \<open>
  C28.  The daily price band.  For a previous close on the tick grid whose products with the limit percentage
  are exact, the limits are computed on the grid, within half a tick of the band and around the
  close.  The snapshot is built from them unless the lower limit is rounded down to zero or both
  limits are the same; then it raises.  A band of at least one tick gives two different positive
  limits, a band of less than half a tick gives equal ones: a close of 0.04 with 10 percent has
  no snapshot.
\<close>

theorem snapshot_price_band:
  assumes "0 < close" "0 < pct" "pct < 1" "on_grid tick close" "tick \<le> 0"
    and "close * (1 + pct) + 1 \<le> 10 ^ 28 * pow10 tick"
    and "exact (1 + pct)" "exact (1 - pct)" "exact (close * (1 + pct))" "exact (close * (1 - pct))"
  shows "\<exists>hi lw. compute_price_limits close pct tick = Inr (hi, lw)
    \<and> lw \<le> close \<and> close \<le> hi \<and> on_grid tick lw \<and> on_grid tick hi
    \<and> \<bar>hi - close * (1 + pct)\<bar> \<le> pow10 tick / 2 \<and> \<bar>lw - close * (1 - pct)\<bar> \<le> pow10 tick / 2
    \<and> build_market_state_snapshot t close pct tick suspension =
        (if lw \<le> 0 then Inl (ValidationError ''lower_limit_price'')
         else if hi = lw then Inl (ValidationError ''upper_limit_price must be greater than lower_limit_price'')
         else Inr \<lparr>ms_trade_date = date_of t, ms_previous_close = close, ms_upper_limit = hi,
           ms_lower_limit = lw, ms_phase = derive_a_share_trading_phase t, ms_suspension = suspension\<rparr>)
    \<and> (pow10 tick \<le> close * pct \<and> pow10 tick \<le> close * (1 - pct) \<longrightarrow> 0 < lw \<and> lw < hi)
    \<and> (close * pct < pow10 tick / 2 \<longrightarrow> hi = lw)"
proof -
  have t: "pow10 tick \<le> 1"
    using pow10_mono [OF assms(5)] by simp
  have lo: "close * (1 - pct) \<le> close * (1 + pct)" "close \<le> close * (1 + pct)" "0 \<le> close * (1 - pct)"
    using assms(1-3) by (simp_all add: algebra_simps)
  have "0 \<le> close * (1 + pct)" "close * (1 - pct) + 1 \<le> 10 ^ 28 * pow10 tick"
    using lo assms(6) by linarith+
  then obtain hi lw where q: "quantize_with round_half_up tick (close * (1 + pct)) = Inr hi"
    "quantize_with round_half_up tick (close * (1 - pct)) = Inr lw"
    using quantize_accepts [OF _ assms(6) t] quantize_accepts [OF lo(3) _ t] by blast
  then have limits: "compute_price_limits close pct tick = Inr (hi, lw)"
    using assms(7-10) by (simp add: compute_price_limits_def dec_add_def dec_sub_def dec_mul_def exact_def)
  have "\<bar>close\<bar> < 10 ^ 28 * pow10 tick"
    using assms(1,6) lo(2) by linarith
  note b = price_limits_bracket [OF limits assms(1-4) this assms(7-10)]
  have e: "close * (1 + pct) = close + close * pct" "close * (1 - pct) = close - close * pct"
    by (simp_all add: algebra_simps)
  have p: "0 < pow10 tick"
    by simp
  then have wide: "pow10 tick \<le> close * pct \<and> pow10 tick \<le> close * (1 - pct) \<Longrightarrow> 0 < lw \<and> lw < hi"
    using b(5,6) unfolding e by linarith
  have narrow: "hi = lw" if "close * pct < pow10 tick / 2"
  proof -
    have "hi < close + pow10 tick" "close < lw + pow10 tick"
      using that b(5,6) p unfolding e by linarith+
    then show ?thesis
      using on_grid_gap [OF assms(4) b(4) b(2)] on_grid_gap [OF b(3) assms(4) b(1)] by simp
  qed
  have "build_market_state_snapshot t close pct tick suspension =
        (if lw \<le> 0 then Inl (ValidationError ''lower_limit_price'')
         else if hi = lw then Inl (ValidationError ''upper_limit_price must be greater than lower_limit_price'')
         else Inr \<lparr>ms_trade_date = date_of t, ms_previous_close = close, ms_upper_limit = hi,
           ms_lower_limit = lw, ms_phase = derive_a_share_trading_phase t, ms_suspension = suspension\<rparr>)"
    using assms(1) b(1,2)
    by (simp add: build_market_state_snapshot_def limits make_market_state_def market_state_rules_def checks.simps)
  then show ?thesis
    using limits b wide narrow by blast
qed

theorem snapshot_price_band_witness:
  "(\<exists>m. build_market_state_snapshot 0 (3947 / 100) (1 / 10) (- 2) ACTIVE = Inr m
      \<and> ms_lower_limit m \<le> 3947 / 100 \<and> 3947 / 100 \<le> ms_upper_limit m)
   \<and> build_market_state_snapshot 0 (4 / 100) (1 / 10) (- 2) ACTIVE
       = Inl (ValidationError ''upper_limit_price must be greater than lower_limit_price'')"
proof -
  have p: "pow10 (- 2) = 1 / 100" by code_simp
  have a: "on_grid (- 2) (3947 / 100)" "exact (1 + 1 / 10)" "exact (1 - 1 / 10)"
    "exact (3947 / 100 * (1 + 1 / 10))" "exact (3947 / 100 * (1 - 1 / 10))"
    "on_grid (- 2) (4 / 100)" "exact (4 / 100 * (1 + 1 / 10))" "exact (4 / 100 * (1 - 1 / 10))"
    by code_simp+
  obtain hi lw where x: "compute_price_limits (4 / 100) (1 / 10) (- 2) = Inr (hi, lw)" "lw \<le> 4 / 100" "4 / 100 \<le> hi"
    "hi = lw" "build_market_state_snapshot 0 (4 / 100) (1 / 10) (- 2) ACTIVE =
        (if lw \<le> 0 then Inl (ValidationError ''lower_limit_price'')
         else if hi = lw then Inl (ValidationError ''upper_limit_price must be greater than lower_limit_price'')
         else Inr \<lparr>ms_trade_date = date_of 0, ms_previous_close = 4 / 100, ms_upper_limit = hi,
           ms_lower_limit = lw, ms_phase = derive_a_share_trading_phase 0, ms_suspension = ACTIVE\<rparr>)"
    using snapshot_price_band [OF _ _ _ a(6) _ _ a(2,3,7,8), of 0 ACTIVE] by (auto simp: p)
  have "\<exists>m. build_market_state_snapshot 0 (3947 / 100) (1 / 10) (- 2) ACTIVE = Inr m
      \<and> ms_lower_limit m \<le> 3947 / 100 \<and> 3947 / 100 \<le> ms_upper_limit m"
    using snapshot_price_band [OF _ _ _ a(1) _ _ a(2-5), of 0 ACTIVE] by (auto simp: p)
  then show ?thesis
    using x by auto
qed

end
