(* ===== verification/Bar_Gate.thy ===== *)
theory Bar_Gate
  imports Market
begin

text \<open>
  The two deduplication gates of the bar chain: FinalBarGate of src/src/domain/market/bars.py,
  through which the collector emits bars, and BarTriggerGate of src/apps/trader/service.py, in
  front of the strategy.  Both remember the keys of the last accepted bars in a bounded deque
  and a lookup set.  The locale dedup_gate states that contract and what follows from it for
  every sequence of bars; it is interpreted on both gates.
\<close>

section \<open>The contract\<close>

lemma drop_snoc_append:
  "k \<le> Suc (length xs) \<Longrightarrow> drop k (xs @ [x]) @ ys = drop k (xs @ x # ys)"
  by (cases "k = Suc (length xs)") auto

locale dedup_gate =
  fixes offer :: "'g \<Rightarrow> 'e \<Rightarrow> bool \<times> 'g"
    and key_of :: "'e \<Rightarrow> 'k"
    and eligible :: "'e \<Rightarrow> bool"
    and window :: "'g \<Rightarrow> 'k list"
    and capacity :: "'g \<Rightarrow> nat"
    and gate_inv :: "'g \<Rightarrow> bool"
  assumes offer_passes:
      "gate_inv g \<Longrightarrow> fst (offer g e) \<longleftrightarrow> eligible e \<and> key_of e \<notin> set (window g)"
    and offer_window:
      "gate_inv g \<Longrightarrow> window (snd (offer g e)) =
         (if fst (offer g e)
          then drop (Suc (length (window g)) - capacity g) (window g @ [key_of e]) else window g)"
    and offer_capacity: "gate_inv g \<Longrightarrow> capacity (snd (offer g e)) = capacity g"
    and offer_inv: "gate_inv g \<Longrightarrow> gate_inv (snd (offer g e))"
    and inv_window: "gate_inv g \<Longrightarrow> length (window g) \<le> capacity g \<and> 0 < capacity g"
begin

text \<open>The bars a gate lets through, and the gate after a sequence of offers.\<close>

fun passed :: "'g \<Rightarrow> 'e list \<Rightarrow> 'e list" where
  "passed g [] = []"
| "passed g (e # es) =
     (if fst (offer g e) then e # passed (snd (offer g e)) es else passed (snd (offer g e)) es)"

fun after :: "'g \<Rightarrow> 'e list \<Rightarrow> 'g" where
  "after g [] = g"
| "after g (e # es) = after (snd (offer g e)) es"

lemma after_inv: "gate_inv g \<Longrightarrow> gate_inv (after g es) \<and> capacity (after g es) = capacity g"
  by (induction es arbitrary: g) (auto simp: offer_inv offer_capacity)

lemma passed_eligible: "gate_inv g \<Longrightarrow> e \<in> set (passed g es) \<Longrightarrow> e \<in> set es \<and> eligible e"
proof (induction es arbitrary: g)
  case (Cons a es)
  then show ?case
    using Cons.IH [of "snd (offer g a)"] offer_inv [of g a] offer_passes [of g a]
    by (auto split: if_splits)
qed simp

text \<open>The window is the last keys that passed.\<close>

lemma window_after:
  assumes "gate_inv g"
  shows "window (after g es) =
           drop (length (window g) + length (passed g es) - capacity g)
             (window g @ map key_of (passed g es))"
  using assms
proof (induction es arbitrary: g)
  case Nil
  then show ?case
    using inv_window [of g] by simp
next
  case (Cons e es)
  let ?g = "snd (offer g e)"
  have inv: "gate_inv ?g" "capacity ?g = capacity g"
    using Cons.prems by (simp_all add: offer_inv offer_capacity)
  show ?case
  proof (cases "fst (offer g e)")
    case False
    then show ?thesis
      using Cons.IH [OF inv(1)] inv offer_window [OF Cons.prems, of e] by simp
  next
    case True
    define k where "k = Suc (length (window g)) - capacity g"
    define n where "n = length (passed ?g es)"
    have w: "window ?g = drop k (window g @ [key_of e])"
      using offer_window [OF Cons.prems, of e] True by (simp add: k_def)
    have k: "k \<le> Suc (length (window g))"
      by (simp add: k_def)
    have "window (after g (e # es)) =
            drop (length (window ?g) + n - capacity g)
              (drop k (window g @ [key_of e]) @ map key_of (passed ?g es))"
      using Cons.IH [OF inv(1)] inv w by (simp add: n_def)
    also have "drop k (window g @ [key_of e]) @ map key_of (passed ?g es)
                 = drop k (window g @ key_of e # map key_of (passed ?g es))"
      by (rule drop_snoc_append [OF k])
    also have "drop (length (window ?g) + n - capacity g) \<dots> =
                 drop (length (window g) + Suc n - capacity g)
                   (window g @ key_of e # map key_of (passed ?g es))"
    proof -
      have "length (window ?g) + n - capacity g + k = length (window g) + Suc n - capacity g"
        using inv_window [OF Cons.prems] k
        by (cases "length (window g) < capacity g") (auto simp: w k_def)
      then show ?thesis
        by (simp only: drop_drop)
    qed
    finally show ?thesis
      using True by (simp add: n_def)
  qed
qed

lemma passed_append: "passed g (es @ fs) = passed g es @ passed (after g es) fs"
  by (induction es arbitrary: g) auto

lemma after_append: "after g (es @ fs) = after (after g es) fs"
  by (induction es arbitrary: g) auto

lemma passed_snoc:
  "gate_inv g \<Longrightarrow> passed g (es @ [f]) =
     passed g es @ (if eligible f \<and> key_of f \<notin> set (window (after g es)) then [f] else [])"
  using offer_passes [of "after g es" f] after_inv [of g es] by (auto simp: passed_append)

text \<open>A key passes at most once among any capacity + 1 consecutive bars that pass.\<close>

lemma passed_apart:
  assumes "gate_inv g" "i < j" "j < length (passed g es)" "j - i \<le> capacity g"
  shows "key_of (passed g es ! i) \<noteq> key_of (passed g es ! j)"
  using assms
proof (induction es arbitrary: i j rule: rev_induct)
  case (snoc f es)
  let ?ps = "passed g es" and ?w = "window g"
  show ?case
  proof (cases "j < length ?ps")
    case True
    then show ?thesis
      using snoc by (simp add: passed_snoc nth_append)
  next
    case False
    then have f: "eligible f" "key_of f \<notin> set (window (after g es))" and j: "j = length ?ps"
      using snoc.prems by (auto simp: passed_snoc split: if_splits)
    let ?n = "length ?w + length ?ps - capacity g"
    have "map key_of ?ps ! i = drop ?n (?w @ map key_of ?ps) ! (length ?w + i - ?n)"
      using snoc.prems j by (subst nth_drop) (auto simp: nth_append)
    also have "\<dots> \<in> set (drop ?n (?w @ map key_of ?ps))"
      using snoc.prems j by (intro nth_mem) simp
    finally have "key_of (?ps ! i) \<in> set (window (after g es))"
      using snoc.prems j window_after [OF \<open>gate_inv g\<close>] by simp
    then show ?thesis
      using f j snoc.prems by (auto simp: passed_snoc nth_append)
  qed
qed simp

text \<open>Nothing is lost: an eligible bar that does not pass is the repeat of a remembered key.\<close>

lemma blocked_is_remembered:
  assumes "gate_inv g" "e \<in> set es" "eligible e"
  shows "key_of e \<in> set (window g) \<union> key_of ` set (passed g es)"
  using assms
proof (induction es rule: rev_induct)
  case (snoc f es)
  show ?case
  proof (cases "e \<in> set es")
    case True
    then show ?thesis
      using snoc by (auto simp: passed_snoc)
  next
    case False
    then have "e = f"
      using snoc by simp
    moreover have "set (window (after g es)) \<subseteq> set (window g) \<union> key_of ` set (passed g es)"
      unfolding window_after [OF \<open>gate_inv g\<close>, of es] by (auto dest: in_set_dropD)
    ultimately show ?thesis
      using snoc.prems by (auto simp: passed_snoc)
  qed
qed simp

text \<open>A fresh gate passes every key exactly once when at most capacity keys occur.\<close>

lemma exactly_once:
  assumes "gate_inv g" "window g = []" "card (key_of ` set (filter eligible es)) \<le> capacity g"
  shows "distinct (map key_of (passed g es)) \<and>
         set (map key_of (passed g es)) = key_of ` set (filter eligible es)"
proof -
  have sub: "set (map key_of (passed g fs)) \<subseteq> key_of ` set (filter eligible fs)" for fs
    using passed_eligible [OF assms(1)] by fastforce
  have "distinct (map key_of (passed g es))"
    using assms(3)
  proof (induction es rule: rev_induct)
    case (snoc f es)
    have "card (key_of ` set (filter eligible es)) \<le> card (key_of ` set (filter eligible (es @ [f])))"
      by (intro card_mono) auto
    then have d: "distinct (map key_of (passed g es))"
      and c: "card (key_of ` set (filter eligible es)) \<le> capacity g"
      using snoc by simp_all
    have "length (passed g es) = card (set (map key_of (passed g es)))"
      using distinct_card [OF d] by simp
    also have "\<dots> \<le> card (key_of ` set (filter eligible es))"
      by (intro card_mono sub) simp
    finally have "window (after g es) = map key_of (passed g es)"
      using c window_after [OF assms(1)] assms(2) by simp
    then show ?case
      using d assms(1) by (auto simp: passed_snoc)
  qed simp
  moreover have "key_of ` set (filter eligible es) \<subseteq> set (map key_of (passed g es))"
    using blocked_is_remembered [OF assms(1)] assms(2) by auto
  ultimately show ?thesis
    using sub by blast
qed

end

section \<open>FinalBarGate\<close>

text \<open>
  The deque and the lookup set of the gate, and the loop that expels the oldest keys beyond
  the capacity; the last final bar of each stream.
\<close>

fun evict :: "nat \<Rightarrow> string list \<Rightarrow> string set \<Rightarrow> string list \<times> string set" where
  "evict cap [] lookup = ([], lookup)"
| "evict cap (k # ks) lookup =
     (if cap < length (k # ks) then evict cap ks (lookup - {k}) else (k # ks, lookup))"

record final_bar_gate =
  fg_capacity :: nat
  fg_keys :: "string list"
  fg_lookup :: "string set"
  fg_last :: "string \<rightharpoonup> bar_event"

definition new_final_bar_gate :: "int \<Rightarrow> final_bar_gate res" where
  "new_final_bar_gate recent_final_capacity =
     (if recent_final_capacity < 1
      then Inl (ValueError ''recent_final_capacity must be at least 1'')
      else Inr \<lparr>fg_capacity = nat recent_final_capacity, fg_keys = [], fg_lookup = {},
                fg_last = Map.empty\<rparr>)"

definition be_stream_key :: "bar_event \<Rightarrow> string" where
  "be_stream_key e = build_bar_stream_key (be_exchange e) (be_symbol e) (be_timeframe e)"

definition remember :: "final_bar_gate \<Rightarrow> bar_event \<Rightarrow> final_bar_gate" where
  "remember g e =
     (let (keys, lookup) = evict (fg_capacity g) (fg_keys g @ [be_bar_key e])
                             (insert (be_bar_key e) (fg_lookup g))
      in g\<lparr>fg_keys := keys, fg_lookup := lookup, fg_last := (fg_last g)(be_stream_key e \<mapsto> e)\<rparr>)"

datatype emission = Emit | Duplicate | NonActionable

record bar_decision =
  bd_status :: emission
  bd_event :: bar_event
  bd_reason :: string

definition process_event :: "final_bar_gate \<Rightarrow> bar_event \<Rightarrow> bar_decision \<times> final_bar_gate" where
  "process_event g event =
     (if \<not> be_actionable event
      then (\<lparr>bd_status = NonActionable, bd_event = event, bd_reason = ''bar_is_not_closed_and_final''\<rparr>, g)
      else if be_bar_key event \<in> fg_lookup g
      then (\<lparr>bd_status = Duplicate, bd_event = event, bd_reason = ''bar_key_already_emitted''\<rparr>, g)
      else (\<lparr>bd_status = Emit, bd_event = event, bd_reason = ''new_final_bar''\<rparr>, remember g event))"

definition gate_process ::
  "final_bar_gate \<Rightarrow> uuid \<Rightarrow> normalized_bar \<Rightarrow> (bar_decision \<times> final_bar_gate) res" where
  "gate_process g fresh b = res_map (process_event g) (to_bar_event fresh b)"

definition last_final_bar ::
  "final_bar_gate \<Rightarrow> string \<Rightarrow> string \<Rightarrow> string \<Rightarrow> bar_event option" where
  "last_final_bar g exchange symbol timeframe =
     fg_last g (build_bar_stream_key exchange symbol timeframe)"

definition next_expected_bar_start ::
  "final_bar_gate \<Rightarrow> string \<Rightarrow> string \<Rightarrow> string \<Rightarrow> datetime option res" where
  "next_expected_bar_start g exchange symbol timeframe =
     (case last_final_bar g exchange symbol timeframe of
        None \<Rightarrow> Inr None
      | Some last_bar \<Rightarrow>
          res_map (\<lambda>delta. Some (be_start last_bar + delta)) (timeframe_to_timedelta timeframe))"

lemma evict_eq:
  assumes "lookup = set keys" "distinct keys"
  shows "evict cap keys lookup =
           (drop (length keys - cap) keys, set (drop (length keys - cap) keys))"
  using assms by (induction cap keys lookup rule: evict.induct) (auto simp: Suc_diff_le)

lemma evict_snoc:
  assumes "lookup = set keys" "distinct keys" "k \<notin> set keys"
  shows "evict cap (keys @ [k]) (insert k lookup) =
           (drop (Suc (length keys) - cap) (keys @ [k]), set (drop (Suc (length keys) - cap) (keys @ [k])))"
    and "distinct (drop (Suc (length keys) - cap) (keys @ [k]))"
proof -
  show "evict cap (keys @ [k]) (insert k lookup) =
           (drop (Suc (length keys) - cap) (keys @ [k]), set (drop (Suc (length keys) - cap) (keys @ [k])))"
    using assms by (subst evict_eq) simp_all
  show "distinct (drop (Suc (length keys) - cap) (keys @ [k]))"
    by (rule distinct_drop) (use assms in simp)
qed

definition gate_ok :: "final_bar_gate \<Rightarrow> bool" where
  "gate_ok g \<longleftrightarrow> fg_lookup g = set (fg_keys g) \<and> distinct (fg_keys g)
     \<and> length (fg_keys g) \<le> fg_capacity g \<and> 0 < fg_capacity g"

definition final_gate_offer :: "final_bar_gate \<Rightarrow> bar_event \<Rightarrow> bool \<times> final_bar_gate" where
  "final_gate_offer g e = (let (d, g') = process_event g e in (bd_status d = Emit, g'))"

lemma final_gate_offer_simps:
  assumes "gate_ok g"
  shows "fst (final_gate_offer g e) \<longleftrightarrow> be_actionable e \<and> be_bar_key e \<notin> set (fg_keys g)"
    and "fg_keys (snd (final_gate_offer g e)) =
           (if fst (final_gate_offer g e)
            then drop (Suc (length (fg_keys g)) - fg_capacity g) (fg_keys g @ [be_bar_key e])
            else fg_keys g)"
    and "fg_capacity (snd (final_gate_offer g e)) = fg_capacity g"
    and "gate_ok (snd (final_gate_offer g e))"
proof -
  have "fg_lookup g = set (fg_keys g)" "distinct (fg_keys g)"
    using assms by (simp_all add: gate_ok_def)
  note ev = evict_snoc [OF this, of "be_bar_key e" "fg_capacity g"]
  note defs = final_gate_offer_def process_event_def remember_def gate_ok_def Let_def
  show "fst (final_gate_offer g e) \<longleftrightarrow> be_actionable e \<and> be_bar_key e \<notin> set (fg_keys g)"
    using assms by (simp add: defs)
  show "fg_keys (snd (final_gate_offer g e)) =
          (if fst (final_gate_offer g e)
           then drop (Suc (length (fg_keys g)) - fg_capacity g) (fg_keys g @ [be_bar_key e])
           else fg_keys g)"
    using assms ev by (simp add: defs)
  show "fg_capacity (snd (final_gate_offer g e)) = fg_capacity g"
    by (simp add: defs split: prod.split)
  show "gate_ok (snd (final_gate_offer g e))"
    using assms ev by (simp add: defs) arith
qed

interpretation final_gate: dedup_gate final_gate_offer be_bar_key be_actionable fg_keys fg_capacity gate_ok
  by unfold_locales (fact final_gate_offer_simps | simp add: gate_ok_def)+

section \<open>BarTriggerGate\<close>

record trigger_gate =
  tg_capacity :: nat
  tg_keys :: "string list"
  tg_lookup :: "string set"

definition new_trigger_gate :: "int \<Rightarrow> trigger_gate res" where
  "new_trigger_gate recent_capacity =
     (if recent_capacity < 1 then Inl (ValueError ''recent_capacity must be at least 1'')
      else Inr \<lparr>tg_capacity = nat recent_capacity, tg_keys = [], tg_lookup = {}\<rparr>)"

definition trigger_allow :: "trigger_gate \<Rightarrow> bar_event \<Rightarrow> (bool \<times> string) \<times> trigger_gate" where
  "trigger_allow g event =
     (if \<not> be_actionable event then ((False, ''bar_is_not_closed_and_final''), g)
      else if be_bar_key event \<in> tg_lookup g then ((False, ''bar_key_already_triggered''), g)
      else let (keys, lookup) = evict (tg_capacity g) (tg_keys g @ [be_bar_key event])
                                  (insert (be_bar_key event) (tg_lookup g))
           in ((True, ''new_final_bar''), g\<lparr>tg_keys := keys, tg_lookup := lookup\<rparr>))"

definition trigger_ok :: "trigger_gate \<Rightarrow> bool" where
  "trigger_ok g \<longleftrightarrow> tg_lookup g = set (tg_keys g) \<and> distinct (tg_keys g)
     \<and> length (tg_keys g) \<le> tg_capacity g \<and> 0 < tg_capacity g"

definition trigger_offer :: "trigger_gate \<Rightarrow> bar_event \<Rightarrow> bool \<times> trigger_gate" where
  "trigger_offer g e = (let (d, g') = trigger_allow g e in (fst d, g'))"

lemma trigger_offer_simps:
  assumes "trigger_ok g"
  shows "fst (trigger_offer g e) \<longleftrightarrow> be_actionable e \<and> be_bar_key e \<notin> set (tg_keys g)"
    and "tg_keys (snd (trigger_offer g e)) =
           (if fst (trigger_offer g e)
            then drop (Suc (length (tg_keys g)) - tg_capacity g) (tg_keys g @ [be_bar_key e])
            else tg_keys g)"
    and "tg_capacity (snd (trigger_offer g e)) = tg_capacity g"
    and "trigger_ok (snd (trigger_offer g e))"
proof -
  have "tg_lookup g = set (tg_keys g)" "distinct (tg_keys g)"
    using assms by (simp_all add: trigger_ok_def)
  note ev = evict_snoc [OF this, of "be_bar_key e" "tg_capacity g"]
  note defs = trigger_offer_def trigger_allow_def trigger_ok_def Let_def
  show "fst (trigger_offer g e) \<longleftrightarrow> be_actionable e \<and> be_bar_key e \<notin> set (tg_keys g)"
    using assms by (simp add: defs split: prod.split)
  show "tg_keys (snd (trigger_offer g e)) =
          (if fst (trigger_offer g e)
           then drop (Suc (length (tg_keys g)) - tg_capacity g) (tg_keys g @ [be_bar_key e])
           else tg_keys g)"
    using assms ev by (simp add: defs)
  show "tg_capacity (snd (trigger_offer g e)) = tg_capacity g"
    by (simp add: defs split: prod.split)
  show "trigger_ok (snd (trigger_offer g e))"
    using assms ev by (simp add: defs) arith
qed

interpretation trigger_gate: dedup_gate trigger_offer be_bar_key be_actionable tg_keys tg_capacity trigger_ok
  by unfold_locales (fact trigger_offer_simps | simp add: trigger_ok_def)+

section \<open>The two gates in series\<close>

text \<open>The events a gate emits, and the events that trigger the strategy, for a sequence of arrivals.\<close>

fun emitted :: "final_bar_gate \<Rightarrow> bar_event list \<Rightarrow> bar_event list" where
  "emitted g [] = []"
| "emitted g (e # es) =
     (let (d, g') = process_event g e
      in if bd_status d = Emit then bd_event d # emitted g' es else emitted g' es)"

fun triggered :: "trigger_gate \<Rightarrow> bar_event list \<Rightarrow> bar_event list" where
  "triggered t [] = []"
| "triggered t (e # es) =
     (let (d, t') = trigger_allow t e in if fst d then e # triggered t' es else triggered t' es)"

lemma offers:
  "fst (final_gate_offer g e) = (bd_status (fst (process_event g e)) = Emit)"
  "snd (final_gate_offer g e) = snd (process_event g e)" "bd_event (fst (process_event g e)) = e"
  "fst (trigger_offer t e) = fst (fst (trigger_allow t e))" "snd (trigger_offer t e) = snd (trigger_allow t e)"
  by (simp_all add: final_gate_offer_def trigger_offer_def process_event_def split: prod.split)

lemma emitted_passed: "emitted g es = final_gate.passed g es"
  by (induction es arbitrary: g) (simp_all add: offers case_prod_beta Let_def)

lemma triggered_passed: "triggered t es = trigger_gate.passed t es"
  by (induction es arbitrary: t) (simp_all add: offers case_prod_beta Let_def)

definition bar_identity :: "bar_event \<Rightarrow> string \<times> string \<times> string \<times> datetime" where
  "bar_identity e = (be_exchange e, be_symbol e, be_timeframe e, be_start e)"

lemma bar_identity_key:
  "colon_free e \<Longrightarrow> colon_free f \<Longrightarrow> be_bar_key e = be_bar_key f \<longleftrightarrow> bar_identity e = bar_identity f"
  by (simp add: be_bar_key_inj bar_identity_def)

definition identity_key :: "string \<times> string \<times> string \<times> datetime \<Rightarrow> string" where
  "identity_key = (\<lambda>(x, y, z, t). join_colon [x, y, z, isoformat t])"

lemma key_of_identity: "be_bar_key ` A = identity_key ` (bar_identity ` A)"
  by (auto simp: identity_key_def bar_identity_def be_bar_key_def image_iff)

lemma identity_key_inj: "\<forall>e \<in> A. colon_free e \<Longrightarrow> inj_on identity_key (bar_identity ` A)"
  using be_bar_key_inj by (fastforce intro!: inj_onI simp: identity_key_def bar_identity_def be_bar_key_def)

lemma card_keys: "\<forall>e \<in> A. colon_free e \<Longrightarrow> card (be_bar_key ` A) = card (bar_identity ` A)"
  by (simp only: key_of_identity card_image identity_key_inj)

lemma identity_images:
  assumes "\<forall>e \<in> A \<union> B. colon_free e"
  shows "be_bar_key ` A = be_bar_key ` B \<longleftrightarrow> bar_identity ` A = bar_identity ` B"
  unfolding key_of_identity
  by (rule inj_on_image_eq_iff [OF identity_key_inj [OF assms]]) auto

lemma distinct_keys:
  assumes "\<forall>e \<in> set es. colon_free e"
  shows "distinct (map be_bar_key es) \<longleftrightarrow> distinct (map bar_identity es)"
  using assms bar_identity_key by (induction es) (auto simp: image_iff)

lemma new_gates:
  "new_final_bar_gate cap = Inr g \<Longrightarrow> gate_ok g \<and> fg_keys g = [] \<and> fg_capacity g = nat cap"
  "new_trigger_gate cap = Inr t \<Longrightarrow> trigger_ok t \<and> tg_keys t = [] \<and> tg_capacity t = nat cap"
  by (auto simp: new_final_bar_gate_def new_trigger_gate_def gate_ok_def trigger_ok_def split: if_splits)

text \<open>
  C1.  Once and only once.  Through the collector gate and the trigger gate in series, every final
  closed bar of a run triggers the strategy exactly once, however often and in whatever order the
  sources repeat it, as long as the run holds no more distinct bars than the smaller gate remembers.
\<close>

theorem bars_trigger_once:
  assumes "new_final_bar_gate cap = Inr g" "new_trigger_gate cap' = Inr t"
    and "\<forall>e \<in> set es. colon_free e"
    and "int (card (bar_identity ` set (filter be_actionable es))) \<le> min cap cap'"
  shows "distinct (map bar_identity (triggered t (emitted g es)))
    \<and> set (map bar_identity (triggered t (emitted g es))) = bar_identity ` set (filter be_actionable es)"
proof -
  note g = new_gates(1) [OF assms(1)] and t = new_gates(2) [OF assms(2)]
  let ?K = "be_bar_key ` set (filter be_actionable es)"
  have sub: "set (emitted g es) \<subseteq> set (filter be_actionable es)"
    using final_gate.passed_eligible g by (fastforce simp: emitted_passed)
  have sub': "set (triggered t (emitted g es)) \<subseteq> set (emitted g es)"
    using trigger_gate.passed_eligible t by (auto simp: triggered_passed)
  have "card ?K = card (bar_identity ` set (filter be_actionable es))"
    using assms(3) by (intro card_keys) auto
  then have c: "card ?K \<le> nat cap" "card ?K \<le> nat cap'"
    using assms(4) by (simp_all add: le_nat_iff)
  have e: "distinct (map be_bar_key (emitted g es))" "set (map be_bar_key (emitted g es)) = ?K"
    using final_gate.exactly_once [of g es] g c by (simp_all add: emitted_passed)
  have "set (filter be_actionable (emitted g es)) = set (emitted g es)"
    using sub by auto
  then have k: "be_bar_key ` set (filter be_actionable (emitted g es)) = ?K"
    using e(2) by simp
  have d: "distinct (map be_bar_key (triggered t (emitted g es)))"
    "set (map be_bar_key (triggered t (emitted g es))) = ?K"
    using trigger_gate.exactly_once [of t "emitted g es", unfolded k] t c by (simp_all add: triggered_passed)
  have free: "\<forall>e \<in> set (triggered t (emitted g es)) \<union> set (filter be_actionable es). colon_free e"
    using sub sub' assms(3) by auto
  then show ?thesis
    using d identity_images [OF free] distinct_keys [of "triggered t (emitted g es)"] by simp
qed

text \<open>
  Bounded memory.  Whatever the gate has seen before, two bars it emits with the same key are
  more than its capacity of emissions apart, and a final closed bar it swallows repeats a key it
  remembers or has just emitted: the gate loses nothing.
\<close>

lemma repeats_only_beyond_memory:
  assumes "gate_ok g"
  shows "(\<forall>i j. i < j \<and> j < length (emitted g es) \<and> j - i \<le> fg_capacity g \<longrightarrow>
      be_bar_key (emitted g es ! i) \<noteq> be_bar_key (emitted g es ! j))
    \<and> (\<forall>e \<in> set es. be_actionable e \<longrightarrow> be_bar_key e \<in> set (fg_keys g) \<union> be_bar_key ` set (emitted g es))"
  using final_gate.passed_apart [OF assms] final_gate.blocked_is_remembered [OF assms]
  by (simp add: emitted_passed)

definition sample_bar :: "int \<Rightarrow> bool \<Rightarrow> bar_event" where
  "sample_bar n fin =
     \<lparr>be_id = 1, be_exchange = ''cn_equity'', be_symbol = ''600036.SH'', be_timeframe = ''15m'',
      be_start = n * 15 * us_per_minute, be_end = (n + 1) * 15 * us_per_minute,
      be_event_time = (n + 1) * 15 * us_per_minute, be_ingest = (n + 1) * 15 * us_per_minute,
      be_open = 39, be_high = 40, be_low = 38, be_close = 3950 / 100, be_volume = 1000,
      be_quote_volume = None, be_trade_count = None, be_closed = fin, be_final = fin,
      be_source_kind = Some Realtime, be_market_state = None, be_payload = JNull\<rparr>"

definition sample_arrivals :: "bar_event list" where
  "sample_arrivals = [sample_bar 0 False, sample_bar 0 True, sample_bar 0 True, sample_bar 1 True, sample_bar 0 True]"

lemma sample_free: "\<forall>e \<in> set sample_arrivals. colon_free e"
  by code_simp

theorem bars_trigger_once_witness:
  "distinct (map bar_identity (triggered \<lparr>tg_capacity = 2, tg_keys = [], tg_lookup = {}\<rparr>
     (emitted \<lparr>fg_capacity = 2, fg_keys = [], fg_lookup = {}, fg_last = Map.empty\<rparr> sample_arrivals)))"
proof -
  have "be_actionable (sample_bar n fin) = fin" for n fin
    by (simp add: sample_bar_def be_actionable_def)
  then have id: "bar_identity ` set (filter be_actionable sample_arrivals)
      = {bar_identity (sample_bar 0 True), bar_identity (sample_bar 1 True)}"
    by (auto simp: sample_arrivals_def)
  have "card {a, b} \<le> 2" for a b :: "string \<times> string \<times> string \<times> datetime"
    by (simp add: card_insert_if)
  then show ?thesis
    using bars_trigger_once [of 2 _ 2, OF _ _ sample_free] unfolding id
    by (simp add: new_final_bar_gate_def new_trigger_gate_def)
qed

lemma repeats_only_beyond_memory_witness:
  "be_bar_key (sample_bar 1 True) \<in> be_bar_key ` set (emitted
     \<lparr>fg_capacity = 1, fg_keys = [], fg_lookup = {}, fg_last = Map.empty\<rparr> sample_arrivals)"
proof -
  have "gate_ok \<lparr>fg_capacity = 1, fg_keys = [], fg_lookup = {}, fg_last = Map.empty\<rparr>"
    by (simp add: gate_ok_def)
  moreover have "sample_bar 1 True \<in> set sample_arrivals" "be_actionable (sample_bar 1 True)"
    by (simp_all add: sample_arrivals_def sample_bar_def be_actionable_def)
  ultimately show ?thesis
    using repeats_only_beyond_memory by fastforce
qed

end
