(* ===== verification/Orders.thy ===== *)
theory Orders
  imports Market
begin

text \<open>
  The execution domain of src/src/domain/execution/models.py: order intents, orders with their
  status machine, fills, cost breakdowns, the order updates and fill events an execution
  gateway reports, and the contract every constructor enforces.

  A constructor normalises its texts (make_... applies normalize_...), then tests its field
  constraints and its model validator in order (..._rules) and raises the first that fails.
  The predicate ..._ok holds of exactly the values a constructor returns.  The JSON dictionary
  a market context is stored as is represented by the snapshot it parses to, the empty
  dictionary by None: the constructor accepts no other dictionary.
\<close>

section \<open>Enumerations and the status machine\<close>

datatype order_side = BUY | SELL
datatype order_type = MARKET | LIMIT
datatype time_in_force = DAY
datatype order_status = NEW | ACK | PARTIALLY_FILLED | FILLED | CANCELED | REJECTED
datatype liquidity_type = MAKER | TAKER | LIQUIDITY_UNKNOWN
datatype order_intent_status = INTENT_NEW | INTENT_SUBMITTED | INTENT_REJECTED | INTENT_EXPIRED
datatype risk_decision = ALLOW | RISK_REJECT

fun order_status_transitions :: "order_status \<Rightarrow> order_status set" where
  "order_status_transitions NEW = {ACK, REJECTED, CANCELED}"
| "order_status_transitions ACK = {PARTIALLY_FILLED, FILLED, CANCELED, REJECTED}"
| "order_status_transitions PARTIALLY_FILLED = {PARTIALLY_FILLED, FILLED, CANCELED}"
| "order_status_transitions FILLED = {}"
| "order_status_transitions CANCELED = {}"
| "order_status_transitions REJECTED = {}"

definition can_transition_order_status :: "order_status \<Rightarrow> order_status \<Rightarrow> bool" where
  "can_transition_order_status current new =
     (if current = new then True else new \<in> order_status_transitions current)"

definition validate_order_status_transition :: "order_status \<Rightarrow> order_status \<Rightarrow> unit res" where
  "validate_order_status_transition current new =
     (if can_transition_order_status current new then Inr () else Inl OrderStateTransitionError)"

definition validate_order_pricing ::
  "order_type \<Rightarrow> rat option \<Rightarrow> rat option \<Rightarrow> bool \<Rightarrow> rat option res" where
  "validate_order_pricing otype price decision_price require_decision_price =
     (if otype = MARKET then
        if price \<noteq> None
        then Inl (ValidationError ''MARKET orders must not carry a resting order price'')
        else if require_decision_price \<and> decision_price = None
        then Inl (ValidationError ''MARKET orders require decision_price for sizing and risk'')
        else Inr decision_price
      else if price = None then Inl (ValidationError ''LIMIT orders must provide price'')
      else Inr (if decision_price \<noteq> None then decision_price else price))"

definition opt_pos :: "rat option \<Rightarrow> bool" where
  "opt_pos x = (case x of None \<Rightarrow> True | Some v \<Rightarrow> 0 < v)"

lemma opt_pos_simps [simp]: "opt_pos None" "opt_pos (Some v) = (0 < v)"
  by (simp_all add: opt_pos_def)

section \<open>Order intents\<close>

record order_intent =
  int_id :: uuid
  int_signal_id :: uuid
  int_strategy :: string
  int_run_id :: uuid
  int_account :: string
  int_exchange :: string
  int_symbol :: string
  int_side :: order_side
  int_type :: order_type
  int_tif :: time_in_force
  int_qty :: rat
  int_price :: "rat option"
  int_decision_price :: "rat option"
  int_reduce_only :: bool
  int_market_context :: "market_state option"
  int_idempotency_key :: string
  int_status :: order_intent_status
  int_risk_decision :: risk_decision
  int_risk_reason :: "string option"
  int_created_at :: datetime

definition normalize_intent :: "order_intent \<Rightarrow> order_intent" where
  "normalize_intent i =
     i\<lparr>int_strategy := trim (int_strategy i), int_account := trim (int_account i),
       int_exchange := normalize_exchange (int_exchange i), int_symbol := normalize_symbol (int_symbol i),
       int_idempotency_key := trim (int_idempotency_key i),
       int_risk_reason := map_option trim (int_risk_reason i)\<rparr>"

definition intent_rules :: "order_intent \<Rightarrow> (bool \<times> fault) list" where
  "intent_rules i =
     [(int_strategy i = [], ValidationError ''strategy_id''),
      (int_account i = [], ValidationError ''account_id''),
      (int_exchange i = [], ValidationError ''exchange''),
      (int_symbol i = [], ValidationError ''symbol''),
      (\<not> 0 < int_qty i, ValidationError ''qty''),
      (\<not> opt_pos (int_price i), ValidationError ''price''),
      (\<not> opt_pos (int_decision_price i), ValidationError ''decision_price''),
      (int_idempotency_key i = [], ValidationError ''idempotency_key''),
      (int_reduce_only i \<and> int_side i \<noteq> SELL,
         ValidationError ''reduce_only intents can only use SELL side in V1 long-only mode''),
      (int_type i = LIMIT \<and> int_market_context i = None,
         ValidationError ''LIMIT orders require market_context_json in A-share V1''),
      (case int_market_context i of None \<Rightarrow> False | Some m \<Rightarrow> \<not> market_state_ok m,
         ValidationError ''market_context_json'')]"

definition make_order_intent :: "order_intent \<Rightarrow> order_intent res" where
  "make_order_intent i =
     res_bind (validate_order_pricing (int_type i) (int_price i) (int_decision_price i) True)
       (\<lambda>decision_price.
          let i = normalize_intent (i\<lparr>int_decision_price := decision_price\<rparr>)
          in res_bind (checks (intent_rules i)) (\<lambda>_. Inr i))"

definition intent_notional :: "order_intent \<Rightarrow> rat res" where
  "intent_notional i =
     (case int_decision_price i of None \<Rightarrow> Inl AssertionError | Some p \<Rightarrow> Inr (dec_mul (int_qty i) p))"

definition intent_ok :: "order_intent \<Rightarrow> bool" where
  "intent_ok i \<longleftrightarrow> checks (intent_rules i) = Inr () \<and> normalize_intent i = i
     \<and> validate_order_pricing (int_type i) (int_price i) (int_decision_price i) True
         = Inr (int_decision_price i)"

section \<open>Orders\<close>

record order =
  ord_id :: uuid
  ord_intent_id :: uuid
  ord_run_id :: uuid
  ord_exchange_order_id :: "string option"
  ord_account :: string
  ord_exchange :: string
  ord_symbol :: string
  ord_side :: order_side
  ord_type :: order_type
  ord_tif :: time_in_force
  ord_qty :: rat
  ord_price :: "rat option"
  ord_filled_qty :: rat
  ord_avg_fill_price :: "rat option"
  ord_status :: order_status
  ord_submitted_at :: datetime
  ord_updated_at :: datetime
  ord_error_code :: "string option"
  ord_error_message :: "string option"

definition normalize_order :: "order \<Rightarrow> order" where
  "normalize_order r =
     r\<lparr>ord_exchange_order_id := map_option trim (ord_exchange_order_id r),
       ord_account := trim (ord_account r), ord_exchange := normalize_exchange (ord_exchange r),
       ord_symbol := normalize_symbol (ord_symbol r),
       ord_error_code := map_option trim (ord_error_code r),
       ord_error_message := map_option trim (ord_error_message r)\<rparr>"

definition order_field_rules :: "order \<Rightarrow> (bool \<times> fault) list" where
  "order_field_rules r =
     [(ord_account r = [], ValidationError ''account_id''),
      (ord_exchange r = [], ValidationError ''exchange''),
      (ord_symbol r = [], ValidationError ''symbol''),
      (\<not> 0 < ord_qty r, ValidationError ''qty''),
      (\<not> opt_pos (ord_price r), ValidationError ''price''),
      (\<not> 0 \<le> ord_filled_qty r, ValidationError ''filled_qty''),
      (\<not> opt_pos (ord_avg_fill_price r), ValidationError ''avg_fill_price'')]"

definition order_contract_rules :: "order \<Rightarrow> (bool \<times> fault) list" where
  "order_contract_rules r =
     [(ord_filled_qty r > ord_qty r, ValidationError ''filled_qty cannot exceed qty''),
      (ord_submitted_at r > ord_updated_at r,
         ValidationError ''updated_at cannot be earlier than submitted_at''),
      (ord_avg_fill_price r \<noteq> None \<and> ord_filled_qty r = 0,
         ValidationError ''avg_fill_price requires filled_qty greater than zero''),
      (ord_status r \<in> {NEW, ACK, REJECTED} \<and> ord_filled_qty r \<noteq> 0,
         ValidationError ''orders cannot have any filled_qty''),
      (ord_status r = REJECTED \<and> ord_avg_fill_price r \<noteq> None,
         ValidationError ''REJECTED orders cannot have avg_fill_price''),
      (ord_status r = PARTIALLY_FILLED \<and> \<not> (0 < ord_filled_qty r \<and> ord_filled_qty r < ord_qty r),
         ValidationError ''PARTIALLY_FILLED orders must have 0 < filled_qty < qty''),
      (ord_status r = PARTIALLY_FILLED \<and> ord_avg_fill_price r = None,
         ValidationError ''PARTIALLY_FILLED orders require avg_fill_price''),
      (ord_status r = FILLED \<and> ord_filled_qty r \<noteq> ord_qty r,
         ValidationError ''FILLED orders must have filled_qty equal to qty''),
      (ord_status r = FILLED \<and> ord_avg_fill_price r = None,
         ValidationError ''FILLED orders require avg_fill_price''),
      (ord_status r = CANCELED \<and> ord_filled_qty r > 0 \<and> ord_avg_fill_price r = None,
         ValidationError ''Partially filled canceled orders require avg_fill_price'')]"

definition validate_order_contract :: "order \<Rightarrow> order res" where
  "validate_order_contract r =
     res_bind (validate_order_pricing (ord_type r) (ord_price r) None False) (\<lambda>_.
     res_bind (checks (order_contract_rules r)) (\<lambda>_. Inr r))"

definition make_order :: "order \<Rightarrow> order res" where
  "make_order r =
     (let r = normalize_order r
      in res_bind (checks (order_field_rules r)) (\<lambda>_. validate_order_contract r))"

definition remaining_qty :: "order \<Rightarrow> rat" where
  "remaining_qty r = dec_sub (ord_qty r) (ord_filled_qty r)"

text \<open>
  The copy carries the updates over the dumped fields; updated_at is always among the dumped
  fields, so its default (the current time) is never used.
\<close>

definition transition_to :: "order \<Rightarrow> order_status \<Rightarrow> (order \<Rightarrow> order) \<Rightarrow> order res" where
  "transition_to r new_status updates =
     res_bind (validate_order_status_transition (ord_status r) new_status) (\<lambda>_.
       make_order ((updates r)\<lparr>ord_status := new_status\<rparr>))"

definition order_ok :: "order \<Rightarrow> bool" where
  "order_ok r \<longleftrightarrow> checks (order_field_rules r @ order_contract_rules r) = Inr ()
     \<and> (ord_type r = MARKET \<longleftrightarrow> ord_price r = None) \<and> normalize_order r = r"

section \<open>Fills and costs\<close>

record fill =
  fill_id :: uuid
  fill_order_id :: uuid
  fill_run_id :: uuid
  fill_exchange_fill_id :: "string option"
  fill_account :: string
  fill_exchange :: string
  fill_symbol :: string
  fill_side :: order_side
  fill_qty :: rat
  fill_price :: rat
  fill_fee :: rat
  fill_fee_asset :: "string option"
  fill_liquidity :: liquidity_type
  fill_time :: datetime
  fill_created_at :: datetime

definition normalize_fill :: "fill \<Rightarrow> fill" where
  "normalize_fill f =
     f\<lparr>fill_exchange_fill_id := map_option trim (fill_exchange_fill_id f),
       fill_account := trim (fill_account f), fill_exchange := normalize_exchange (fill_exchange f),
       fill_symbol := normalize_symbol (fill_symbol f),
       fill_fee_asset := map_option trim (fill_fee_asset f)\<rparr>"

definition fill_rules :: "fill \<Rightarrow> (bool \<times> fault) list" where
  "fill_rules f =
     [(fill_account f = [], ValidationError ''account_id''),
      (fill_exchange f = [], ValidationError ''exchange''),
      (fill_symbol f = [], ValidationError ''symbol''),
      (\<not> 0 < fill_qty f, ValidationError ''qty''),
      (\<not> 0 < fill_price f, ValidationError ''price''),
      (\<not> 0 \<le> fill_fee f, ValidationError ''fee''),
      (fill_fee f > 0 \<and> fill_fee_asset f \<in> {None, Some []},
         ValidationError ''fee_asset is required when fee is greater than zero''),
      (fill_created_at f < fill_time f,
         ValidationError ''created_at cannot be earlier than fill_time'')]"

definition make_fill :: "fill \<Rightarrow> fill res" where
  "make_fill f = (let f = normalize_fill f in res_bind (checks (fill_rules f)) (\<lambda>_. Inr f))"

definition fill_notional :: "fill \<Rightarrow> rat" where
  "fill_notional f = dec_mul (fill_qty f) (fill_price f)"

record cost_breakdown =
  cb_currency :: string
  cb_gross_notional :: rat
  cb_commission :: rat
  cb_transfer_fee :: rat
  cb_stamp_duty :: rat
  cb_total_fee :: rat
  cb_net_cash_flow :: rat

definition cost_breakdown_rules :: "cost_breakdown \<Rightarrow> (bool \<times> fault) list" where
  "cost_breakdown_rules c =
     [(cb_currency c = [], ValidationError ''currency''),
      (\<not> 0 \<le> cb_gross_notional c, ValidationError ''gross_notional''),
      (\<not> 0 \<le> cb_commission c, ValidationError ''commission''),
      (\<not> 0 \<le> cb_transfer_fee c, ValidationError ''transfer_fee''),
      (\<not> 0 \<le> cb_stamp_duty c, ValidationError ''stamp_duty''),
      (\<not> 0 \<le> cb_total_fee c, ValidationError ''total_fee''),
      (cb_total_fee c \<noteq> dec_add (dec_add (cb_commission c) (cb_transfer_fee c)) (cb_stamp_duty c),
         ValidationError ''total_fee must equal commission + transfer_fee + stamp_duty'')]"

definition make_cost_breakdown :: "cost_breakdown \<Rightarrow> cost_breakdown res" where
  "make_cost_breakdown c =
     (let c = c\<lparr>cb_currency := trim (cb_currency c)\<rparr>
      in res_bind (checks (cost_breakdown_rules c)) (\<lambda>_. Inr c))"

section \<open>Execution reports\<close>

record order_update =
  upd_id :: uuid
  upd_order_id :: uuid
  upd_intent_id :: uuid
  upd_run_id :: uuid
  upd_account :: string
  upd_exchange :: string
  upd_symbol :: string
  upd_status :: order_status
  upd_exchange_order_id :: "string option"
  upd_filled_qty :: rat
  upd_avg_fill_price :: "rat option"
  upd_error_code :: "string option"
  upd_error_message :: "string option"
  upd_event_time :: datetime
  upd_created_at :: datetime

definition normalize_update :: "order_update \<Rightarrow> order_update" where
  "normalize_update u =
     u\<lparr>upd_account := trim (upd_account u), upd_exchange := normalize_exchange (upd_exchange u),
       upd_symbol := normalize_symbol (upd_symbol u),
       upd_exchange_order_id := map_option trim (upd_exchange_order_id u),
       upd_error_code := map_option trim (upd_error_code u),
       upd_error_message := map_option trim (upd_error_message u)\<rparr>"

definition order_update_rules :: "order_update \<Rightarrow> (bool \<times> fault) list" where
  "order_update_rules u =
     [(upd_account u = [], ValidationError ''account_id''),
      (upd_exchange u = [], ValidationError ''exchange''),
      (upd_symbol u = [], ValidationError ''symbol''),
      (\<not> 0 \<le> upd_filled_qty u, ValidationError ''filled_qty''),
      (\<not> opt_pos (upd_avg_fill_price u), ValidationError ''avg_fill_price''),
      (upd_avg_fill_price u \<noteq> None \<and> upd_filled_qty u = 0,
         ValidationError ''avg_fill_price requires filled_qty greater than zero''),
      (upd_status u \<in> {NEW, ACK, REJECTED} \<and> upd_filled_qty u \<noteq> 0,
         ValidationError ''updates cannot carry filled_qty''),
      (upd_status u = REJECTED \<and> upd_avg_fill_price u \<noteq> None,
         ValidationError ''REJECTED updates cannot carry avg_fill_price''),
      (upd_status u = PARTIALLY_FILLED \<and> upd_filled_qty u \<le> 0,
         ValidationError ''PARTIALLY_FILLED updates require filled_qty greater than zero''),
      (upd_status u = PARTIALLY_FILLED \<and> upd_avg_fill_price u = None,
         ValidationError ''PARTIALLY_FILLED updates require avg_fill_price''),
      (upd_status u = FILLED \<and> upd_filled_qty u \<le> 0,
         ValidationError ''FILLED updates require filled_qty greater than zero''),
      (upd_status u = FILLED \<and> upd_avg_fill_price u = None,
         ValidationError ''FILLED updates require avg_fill_price''),
      (upd_status u = CANCELED \<and> upd_filled_qty u > 0 \<and> upd_avg_fill_price u = None,
         ValidationError ''Partially filled canceled updates require avg_fill_price''),
      (upd_created_at u < upd_event_time u,
         ValidationError ''created_at cannot be earlier than event_time'')]"

definition make_order_update :: "order_update \<Rightarrow> order_update res" where
  "make_order_update u =
     (let u = normalize_update u in res_bind (checks (order_update_rules u)) (\<lambda>_. Inr u))"

record fill_event =
  fe_id :: uuid
  fe_order_id :: uuid
  fe_intent_id :: uuid
  fe_run_id :: uuid
  fe_account :: string
  fe_exchange :: string
  fe_symbol :: string
  fe_fill :: fill
  fe_cost :: cost_breakdown
  fe_event_time :: datetime
  fe_created_at :: datetime

definition normalize_fill_event :: "fill_event \<Rightarrow> fill_event" where
  "normalize_fill_event e =
     e\<lparr>fe_account := trim (fe_account e), fe_exchange := normalize_exchange (fe_exchange e),
       fe_symbol := normalize_symbol (fe_symbol e)\<rparr>"

definition fill_event_rules :: "fill_event \<Rightarrow> (bool \<times> fault) list" where
  "fill_event_rules e =
     [(fe_account e = [], ValidationError ''account_id''),
      (fe_exchange e = [], ValidationError ''exchange''),
      (fe_symbol e = [], ValidationError ''symbol''),
      (fe_order_id e \<noteq> fill_order_id (fe_fill e), ValidationError ''order_id must match fill.order_id''),
      (fe_run_id e \<noteq> fill_run_id (fe_fill e),
         ValidationError ''trader_run_id must match fill.trader_run_id''),
      (fe_account e \<noteq> fill_account (fe_fill e),
         ValidationError ''account_id must match fill.account_id''),
      (fe_exchange e \<noteq> fill_exchange (fe_fill e), ValidationError ''exchange must match fill.exchange''),
      (fe_symbol e \<noteq> fill_symbol (fe_fill e), ValidationError ''symbol must match fill.symbol''),
      (cb_gross_notional (fe_cost e) \<noteq> fill_notional (fe_fill e),
         ValidationError ''cost_breakdown.gross_notional must match fill.notional''),
      (cb_total_fee (fe_cost e) \<noteq> fill_fee (fe_fill e),
         ValidationError ''cost_breakdown.total_fee must match fill.fee''),
      (fe_event_time e < fill_time (fe_fill e),
         ValidationError ''event_time cannot be earlier than fill.fill_time''),
      (fe_created_at e < fe_event_time e,
         ValidationError ''created_at cannot be earlier than event_time'')]"

definition make_fill_event :: "fill_event \<Rightarrow> fill_event res" where
  "make_fill_event e =
     (let e = normalize_fill_event e in res_bind (checks (fill_event_rules e)) (\<lambda>_. Inr e))"

record execution_report =
  rep_source :: string
  rep_order_updates :: "order_update list"
  rep_fill_events :: "fill_event list"

section \<open>What constructed values satisfy\<close>

definition fill_ok :: "fill \<Rightarrow> bool" where
  "fill_ok f \<longleftrightarrow> checks (fill_rules f) = Inr () \<and> normalize_fill f = f"

definition cost_breakdown_ok :: "cost_breakdown \<Rightarrow> bool" where
  "cost_breakdown_ok c \<longleftrightarrow> checks (cost_breakdown_rules c) = Inr () \<and> trim (cb_currency c) = cb_currency c"

definition order_update_ok :: "order_update \<Rightarrow> bool" where
  "order_update_ok u \<longleftrightarrow> checks (order_update_rules u) = Inr () \<and> normalize_update u = u"

definition fill_event_ok :: "fill_event \<Rightarrow> bool" where
  "fill_event_ok e \<longleftrightarrow> checks (fill_event_rules e) = Inr () \<and> normalize_fill_event e = e
     \<and> fill_ok (fe_fill e) \<and> cost_breakdown_ok (fe_cost e)"

lemma map_option_trim_idem [simp]: "map_option trim (map_option trim x) = map_option trim x"
  by (cases x) auto

lemma normalize_order_idem [simp]: "normalize_order (normalize_order r) = normalize_order r"
  by (cases r) (simp add: normalize_order_def)

lemma normalize_fill_idem [simp]: "normalize_fill (normalize_fill f) = normalize_fill f"
  by (cases f) (simp add: normalize_fill_def)

lemma normalize_update_idem [simp]: "normalize_update (normalize_update u) = normalize_update u"
  by (cases u) (simp add: normalize_update_def)

lemma normalize_fill_event_idem [simp]:
  "normalize_fill_event (normalize_fill_event e) = normalize_fill_event e"
  by (cases e) (simp add: normalize_fill_event_def)

lemma normalize_intent_idem [simp]: "normalize_intent (normalize_intent i) = normalize_intent i"
  by (cases i) (simp add: normalize_intent_def)

lemma make_fill_iff: "make_fill f = Inr f' \<longleftrightarrow> f' = normalize_fill f \<and> fill_ok f'"
  by (auto simp: make_fill_def fill_ok_def Let_def)

lemma make_order_update_iff:
  "make_order_update u = Inr u' \<longleftrightarrow> u' = normalize_update u \<and> order_update_ok u'"
  by (auto simp: make_order_update_def order_update_ok_def Let_def)

lemma make_cost_breakdown_iff:
  "make_cost_breakdown c = Inr c' \<longleftrightarrow> c' = c\<lparr>cb_currency := trim (cb_currency c)\<rparr> \<and> cost_breakdown_ok c'"
  by (auto simp: make_cost_breakdown_def cost_breakdown_ok_def Let_def)

lemma make_fill_event_iff:
  "make_fill_event e = Inr e' \<longleftrightarrow>
     e' = normalize_fill_event e \<and> checks (fill_event_rules e') = Inr ()"
  by (auto simp: make_fill_event_def Let_def)

lemma validate_order_pricing_order:
  "validate_order_pricing t p None False = Inr q \<longleftrightarrow> (t = MARKET \<longleftrightarrow> p = None) \<and> q = p"
  by (cases t) (auto simp: validate_order_pricing_def)

lemma make_order_iff: "make_order r = Inr r' \<longleftrightarrow> r' = normalize_order r \<and> order_ok r'"
  by (auto simp: make_order_def validate_order_contract_def order_ok_def Let_def
      validate_order_pricing_order)

lemma order_ok_make: "order_ok r \<longleftrightarrow> make_order r = Inr r"
  by (auto simp: make_order_iff order_ok_def)

lemma transition_to_iff:
  "transition_to r s f = Inr r' \<longleftrightarrow>
     can_transition_order_status (ord_status r) s
     \<and> r' = normalize_order ((f r)\<lparr>ord_status := s\<rparr>) \<and> order_ok r'"
  by (auto simp: transition_to_def validate_order_status_transition_def make_order_iff)

section \<open>The status machine as a step relation\<close>

inductive status_reach :: "order_status \<Rightarrow> order_status \<Rightarrow> bool" where
  here: "status_reach s s"
| step: "status_reach s t \<Longrightarrow> can_transition_order_status t u \<Longrightarrow> status_reach s u"

definition terminal :: "order_status \<Rightarrow> bool" where
  "terminal s \<longleftrightarrow> order_status_transitions s = {}"

text \<open>How far in its life an order of a status is.\<close>

fun status_rank :: "order_status \<Rightarrow> nat" where
  "status_rank NEW = 0"
| "status_rank ACK = 1"
| "status_rank PARTIALLY_FILLED = 2"
| "status_rank FILLED = 3"
| "status_rank CANCELED = 3"
| "status_rank REJECTED = 3"

lemma terminal_iff: "terminal s \<longleftrightarrow> s \<in> {FILLED, CANCELED, REJECTED}"
  by (cases s) (auto simp: terminal_def)

lemma can_transition_rank:
  "can_transition_order_status s t \<Longrightarrow> s = t \<or> status_rank s < status_rank t"
  by (cases s; cases t) (auto simp: can_transition_order_status_def split: if_splits)

lemma status_reach_rank: "status_reach s t \<Longrightarrow> s = t \<or> status_rank s < status_rank t"
  by (induction rule: status_reach.induct) (auto dest!: can_transition_rank)

lemma status_reach_terminal: "status_reach s t \<Longrightarrow> terminal s \<Longrightarrow> t = s"
  by (induction rule: status_reach.induct)
     (auto simp: can_transition_order_status_def terminal_def split: if_splits)

lemma status_reach_filled_not_rejected:
  "status_reach s t \<Longrightarrow> s = PARTIALLY_FILLED \<Longrightarrow> t \<in> {PARTIALLY_FILLED, FILLED, CANCELED}"
  by (induction rule: status_reach.induct)
     (auto simp: can_transition_order_status_def split: if_splits)

lemma status_reach_one: "can_transition_order_status s t \<Longrightarrow> status_reach s t"
  by (rule step [OF here])

lemma status_reach_trans: "status_reach t u \<Longrightarrow> status_reach s t \<Longrightarrow> status_reach s u"
  by (induction rule: status_reach.induct) (auto intro: status_reach.step)

text \<open>The full reachability table.\<close>

fun status_table :: "order_status \<Rightarrow> order_status list" where
  "status_table NEW = [NEW, ACK, PARTIALLY_FILLED, FILLED, CANCELED, REJECTED]"
| "status_table ACK = [ACK, PARTIALLY_FILLED, FILLED, CANCELED, REJECTED]"
| "status_table PARTIALLY_FILLED = [PARTIALLY_FILLED, FILLED, CANCELED]"
| "status_table s = [s]"

lemma status_table_closed:
  "t \<in> set (status_table s) \<Longrightarrow> can_transition_order_status t u \<Longrightarrow> u \<in> set (status_table s)"
  by (cases s; cases t; cases u) (simp_all add: can_transition_order_status_def)

lemma status_reach_table: "status_reach s t \<longleftrightarrow> t \<in> set (status_table s)"
proof
  show "status_reach s t \<Longrightarrow> t \<in> set (status_table s)"
  proof (induction rule: status_reach.induct)
    case (here a)
    show ?case by (cases a) auto
  next
    case (step a b c)
    then show ?case
      using status_table_closed by blast
  qed
next
  have one: "status_reach NEW ACK" "status_reach ACK PARTIALLY_FILLED" "status_reach ACK FILLED"
    "status_reach PARTIALLY_FILLED FILLED" "status_reach ACK CANCELED" "status_reach NEW CANCELED"
    "status_reach PARTIALLY_FILLED CANCELED" "status_reach NEW REJECTED" "status_reach ACK REJECTED"
    by (rule status_reach_one, simp add: can_transition_order_status_def)+
  show "t \<in> set (status_table s) \<Longrightarrow> status_reach s t"
    using one by (cases s) (auto intro: here status_reach_trans)
qed

inductive_cases status_reach_filled: "status_reach FILLED t"
inductive_simps can_reach_simps: "status_reach s t"

section \<open>The order invariant read field by field\<close>

lemma order_okD:
  assumes "order_ok r"
  shows "0 < ord_qty r" "0 \<le> ord_filled_qty r" "ord_filled_qty r \<le> ord_qty r"
    "ord_submitted_at r \<le> ord_updated_at r"
    "ord_status r \<in> {NEW, ACK, REJECTED} \<Longrightarrow> ord_filled_qty r = 0 \<and> ord_avg_fill_price r = None"
    "ord_status r = PARTIALLY_FILLED \<Longrightarrow> 0 < ord_filled_qty r \<and> ord_filled_qty r < ord_qty r"
    "ord_status r = FILLED \<Longrightarrow> ord_filled_qty r = ord_qty r"
    "ord_status r \<in> {PARTIALLY_FILLED, FILLED} \<Longrightarrow> ord_avg_fill_price r \<noteq> None"
    "opt_pos (ord_avg_fill_price r)" "ord_type r = MARKET \<longleftrightarrow> ord_price r = None"
  using assms
  unfolding order_ok_def order_field_rules_def order_contract_rules_def
  by (simp_all, fastforce+)

lemma order_update_okD:
  assumes "order_update_ok u"
  shows "0 \<le> upd_filled_qty u" "opt_pos (upd_avg_fill_price u)" "upd_event_time u \<le> upd_created_at u"
    "upd_status u \<in> {NEW, ACK, REJECTED} \<Longrightarrow> upd_filled_qty u = 0 \<and> upd_avg_fill_price u = None"
    "upd_status u \<in> {PARTIALLY_FILLED, FILLED} \<Longrightarrow> 0 < upd_filled_qty u \<and> upd_avg_fill_price u \<noteq> None"
    "upd_filled_qty u > 0 \<Longrightarrow> upd_status u = CANCELED \<Longrightarrow> upd_avg_fill_price u \<noteq> None"
    "upd_avg_fill_price u \<noteq> None \<Longrightarrow> 0 < upd_filled_qty u"
  using assms by (auto simp: order_update_ok_def order_update_rules_def)

lemma fill_okD:
  assumes "fill_ok f"
  shows "0 < fill_qty f" "0 < fill_price f" "0 \<le> fill_fee f" "fill_time f \<le> fill_created_at f"
  using assms by (auto simp: fill_ok_def fill_rules_def)

lemma cost_breakdown_okD:
  assumes "cost_breakdown_ok c"
  shows "0 \<le> cb_gross_notional c" "0 \<le> cb_total_fee c"
    "cb_total_fee c = dec_add (dec_add (cb_commission c) (cb_transfer_fee c)) (cb_stamp_duty c)"
    "cb_currency c \<noteq> []"
  using assms by (auto simp: cost_breakdown_ok_def cost_breakdown_rules_def)

lemma fill_event_okD:
  assumes "fill_event_ok e"
  shows "fill_ok (fe_fill e)" "cost_breakdown_ok (fe_cost e)"
    "fe_account e = fill_account (fe_fill e)" "fe_exchange e = fill_exchange (fe_fill e)"
    "fe_symbol e = fill_symbol (fe_fill e)" "fe_order_id e = fill_order_id (fe_fill e)"
    "cb_gross_notional (fe_cost e) = fill_notional (fe_fill e)"
    "cb_total_fee (fe_cost e) = fill_fee (fe_fill e)"
    "fill_time (fe_fill e) \<le> fe_event_time e" "fe_event_time e \<le> fe_created_at e"
  using assms by (auto simp: fill_event_ok_def fill_event_rules_def)

section \<open>Properties\<close>

text \<open>
  The status machine.  Exactly the statuses of the table can be reached from a status, and
  FILLED, CANCELED and REJECTED are the statuses an order never leaves.
\<close>

lemma order_status_machine:
  "status_reach s t = (t \<in> set (status_table s))
   \<and> (terminal s = (s \<in> {FILLED, CANCELED, REJECTED})) \<and> (terminal s = (status_table s = [s]))"
  using status_reach_table terminal_iff by (cases s) auto

end
