(* ===== verification/Portfolio.thy ===== *)
theory Portfolio
  imports Shared_Types Decimals
begin

text \<open>
  Positions and balances: src/src/domain/portfolio/models.py.
\<close>

datatype position_side = LONG
datatype position_status = POS_OPEN | POS_CLOSED

record position =
  pos_id :: uuid
  pos_account :: string
  pos_exchange :: string
  pos_symbol :: string
  pos_side :: position_side
  pos_qty :: rat
  pos_sellable_qty :: rat
  pos_avg_entry_price :: "rat option"
  pos_mark_price :: "rat option"
  pos_unrealized_pnl :: rat
  pos_realized_pnl :: rat
  pos_status :: position_status
  pos_updated_at :: datetime

definition normalize_position :: "position \<Rightarrow> position" where
  "normalize_position p =
     p\<lparr>pos_account := trim (pos_account p), pos_exchange := normalize_exchange (pos_exchange p),
       pos_symbol := normalize_symbol (pos_symbol p)\<rparr>"

definition pos_opt :: "rat option \<Rightarrow> bool" where
  "pos_opt x = (case x of None \<Rightarrow> True | Some v \<Rightarrow> 0 < v)"

lemma pos_opt_simps [simp]: "pos_opt None" "pos_opt (Some v) = (0 < v)"
  by (simp_all add: pos_opt_def)

definition position_rules :: "position \<Rightarrow> (bool \<times> fault) list" where
  "position_rules p =
     [(pos_account p = [], ValidationError ''account_id''),
      (pos_exchange p = [], ValidationError ''exchange''),
      (pos_symbol p = [], ValidationError ''symbol''),
      (\<not> 0 \<le> pos_qty p, ValidationError ''qty''),
      (\<not> 0 \<le> pos_sellable_qty p, ValidationError ''sellable_qty''),
      (\<not> pos_opt (pos_avg_entry_price p), ValidationError ''avg_entry_price''),
      (\<not> pos_opt (pos_mark_price p), ValidationError ''mark_price''),
      (pos_sellable_qty p > pos_qty p, ValidationError ''sellable_qty cannot exceed qty''),
      (pos_qty p = 0 \<and> pos_status p \<noteq> POS_CLOSED,
         ValidationError ''Zero-qty positions must be CLOSED''),
      (pos_qty p = 0 \<and> pos_sellable_qty p \<noteq> 0,
         ValidationError ''Zero-qty positions must also have zero sellable_qty''),
      (pos_qty p = 0 \<and> pos_avg_entry_price p \<noteq> None,
         ValidationError ''Zero-qty positions cannot keep avg_entry_price''),
      (pos_qty p = 0 \<and> pos_unrealized_pnl p \<noteq> 0,
         ValidationError ''Closed positions must have zero unrealized_pnl''),
      (pos_qty p \<noteq> 0 \<and> pos_status p \<noteq> POS_OPEN, ValidationError ''Non-zero positions must be OPEN''),
      (pos_qty p \<noteq> 0 \<and> pos_avg_entry_price p = None,
         ValidationError ''Open positions require avg_entry_price'')]"

definition make_position :: "position \<Rightarrow> position res" where
  "make_position p =
     (let p = normalize_position p in res_bind (checks (position_rules p)) (\<lambda>_. Inr p))"

record balance_snapshot =
  bal_id :: uuid
  bal_account :: string
  bal_exchange :: string
  bal_asset :: string
  bal_total :: rat
  bal_available :: rat
  bal_locked :: rat
  bal_snapshot_time :: datetime
  bal_created_at :: datetime

definition normalize_balance :: "balance_snapshot \<Rightarrow> balance_snapshot" where
  "normalize_balance b =
     b\<lparr>bal_account := trim (bal_account b), bal_exchange := normalize_exchange (bal_exchange b),
       bal_asset := normalize_asset (bal_asset b)\<rparr>"

definition balance_rules :: "balance_snapshot \<Rightarrow> (bool \<times> fault) list" where
  "balance_rules b =
     [(bal_account b = [], ValidationError ''account_id''),
      (bal_exchange b = [], ValidationError ''exchange''),
      (bal_asset b = [], ValidationError ''asset''),
      (\<not> 0 \<le> bal_total b, ValidationError ''total''),
      (\<not> 0 \<le> bal_available b, ValidationError ''available''),
      (\<not> 0 \<le> bal_locked b, ValidationError ''locked''),
      (dec_add (bal_available b) (bal_locked b) \<noteq> bal_total b,
         ValidationError ''BalanceSnapshot requires total == available + locked''),
      (bal_created_at b < bal_snapshot_time b,
         ValidationError ''created_at cannot be earlier than snapshot_time'')]"

definition make_balance :: "balance_snapshot \<Rightarrow> balance_snapshot res" where
  "make_balance b = (let b = normalize_balance b in res_bind (checks (balance_rules b)) (\<lambda>_. Inr b))"

definition position_ok :: "position \<Rightarrow> bool" where
  "position_ok p \<longleftrightarrow> checks (position_rules p) = Inr () \<and> normalize_position p = p"

definition balance_ok :: "balance_snapshot \<Rightarrow> bool" where
  "balance_ok b \<longleftrightarrow> checks (balance_rules b) = Inr () \<and> normalize_balance b = b"

lemma normalize_position_idem [simp]: "normalize_position (normalize_position p) = normalize_position p"
  by (cases p) (simp add: normalize_position_def)

lemma normalize_balance_idem [simp]: "normalize_balance (normalize_balance b) = normalize_balance b"
  by (cases b) (simp add: normalize_balance_def)

lemma normalize_position_iff:
  "normalize_position p = p \<longleftrightarrow> trim (pos_account p) = pos_account p
     \<and> normalize_exchange (pos_exchange p) = pos_exchange p
     \<and> normalize_symbol (pos_symbol p) = pos_symbol p"
  by (cases p) (auto simp: normalize_position_def)

lemma normalize_balance_iff:
  "normalize_balance b = b \<longleftrightarrow> trim (bal_account b) = bal_account b
     \<and> normalize_exchange (bal_exchange b) = bal_exchange b
     \<and> normalize_asset (bal_asset b) = bal_asset b"
  by (cases b) (auto simp: normalize_balance_def)

lemma make_position_iff: "make_position p = Inr p' \<longleftrightarrow> p' = normalize_position p \<and> position_ok p'"
  by (auto simp: make_position_def position_ok_def Let_def)

lemma make_balance_iff: "make_balance b = Inr b' \<longleftrightarrow> b' = normalize_balance b \<and> balance_ok b'"
  by (auto simp: make_balance_def balance_ok_def Let_def)

lemma position_okD:
  assumes "position_ok p"
  shows "0 \<le> pos_qty p" "0 \<le> pos_sellable_qty p" "pos_sellable_qty p \<le> pos_qty p"
    "pos_opt (pos_avg_entry_price p)" "pos_opt (pos_mark_price p)"
    "pos_avg_entry_price p = None \<longleftrightarrow> pos_qty p = 0"
    "pos_qty p \<noteq> 0 \<Longrightarrow> pos_status p = POS_OPEN"
    "pos_account p \<noteq> []" "pos_exchange p \<noteq> []" "pos_symbol p \<noteq> []"
    "normalize_position p = p"
  using assms unfolding position_ok_def position_rules_def by (simp_all, auto)

lemma balance_okD:
  assumes "balance_ok b"
  shows "0 \<le> bal_total b" "0 \<le> bal_available b" "0 \<le> bal_locked b"
    "dec_add (bal_available b) (bal_locked b) = bal_total b"
    "bal_account b \<noteq> []" "bal_exchange b \<noteq> []" "bal_asset b \<noteq> []"
    "normalize_balance b = b" "bal_snapshot_time b \<le> bal_created_at b"
  using assms unfolding balance_ok_def balance_rules_def by (simp_all)

end
