(* ===== verification/Signals.thy ===== *)
theory Signals
  imports Shared_Types Decimals
begin

text \<open>
  The strategy signal of src/src/domain/strategy/signal.py: the post-trade position a strategy
  asks for, with the contract its constructor enforces.
\<close>

datatype signal_type = ENTRY | EXIT | REDUCE | REBALANCE

datatype signal_status = SIG_NEW | SIG_CONSUMED | SIG_EXPIRED | SIG_REJECTED

record signal =
  sig_id :: uuid
  sig_strategy :: string
  sig_run_id :: uuid
  sig_account :: string
  sig_exchange :: string
  sig_symbol :: string
  sig_timeframe :: string
  sig_type :: signal_type
  sig_target :: rat
  sig_confidence :: "rat option"
  sig_reason :: "string option"
  sig_status :: signal_status
  sig_event_time :: datetime
  sig_created_at :: datetime

definition normalize_signal :: "signal \<Rightarrow> signal" where
  "normalize_signal s =
     s\<lparr>sig_strategy := trim (sig_strategy s), sig_account := trim (sig_account s),
       sig_exchange := normalize_exchange (sig_exchange s), sig_symbol := normalize_symbol (sig_symbol s),
       sig_timeframe := normalize_timeframe (sig_timeframe s),
       sig_reason := map_option trim (sig_reason s)\<rparr>"

definition signal_rules :: "signal \<Rightarrow> (bool \<times> fault) list" where
  "signal_rules s =
     [(sig_strategy s = [], ValidationError ''strategy_id''),
      (sig_account s = [], ValidationError ''account_id''),
      (sig_exchange s = [], ValidationError ''exchange''),
      (sig_symbol s = [], ValidationError ''symbol''),
      (\<not> timeframe_ok (sig_timeframe s), ValidationError ''timeframe''),
      (\<not> 0 \<le> sig_target s, ValidationError ''target_position''),
      (case sig_confidence s of None \<Rightarrow> False | Some c \<Rightarrow> \<not> (0 \<le> c \<and> c \<le> 1),
         ValidationError ''confidence''),
      (sig_type s = ENTRY \<and> sig_target s = 0,
         ValidationError ''ENTRY signals must target a positive post-trade position''),
      (sig_type s = EXIT \<and> sig_target s \<noteq> 0,
         ValidationError ''EXIT signals must target a flat post-trade position''),
      (sig_created_at s < sig_event_time s,
         ValidationError ''created_at cannot be earlier than event_time'')]"

definition make_signal :: "signal \<Rightarrow> signal res" where
  "make_signal s = (let s = normalize_signal s in res_bind (checks (signal_rules s)) (\<lambda>_. Inr s))"

definition is_flatten_signal :: "signal \<Rightarrow> bool" where
  "is_flatten_signal s = (sig_target s = 0)"

text \<open>What every constructed signal satisfies.\<close>

definition signal_ok :: "signal \<Rightarrow> bool" where
  "signal_ok s \<longleftrightarrow> checks (signal_rules s) = Inr () \<and> normalize_signal s = s"

lemma normalize_signal_idem [simp]: "normalize_signal (normalize_signal s) = normalize_signal s"
  by (cases s) (simp add: normalize_signal_def option.map_comp comp_def)

lemma make_signal_iff: "make_signal s = Inr s' \<longleftrightarrow> s' = normalize_signal s \<and> signal_ok s'"
  by (auto simp: make_signal_def signal_ok_def Let_def)

lemma signal_ok_target: "signal_ok s \<Longrightarrow> 0 \<le> sig_target s"
  by (simp add: signal_ok_def signal_rules_def)

end
