(* ===== verification/Symbol_Rules.thy ===== *)
theory Symbol_Rules
  imports Decimals
begin

text \<open>
  The A-share trading rules of one symbol and the paper cost model, as src/src/config/settings.py
  validates them (AshareSymbolRule, PaperCostModel).  The exponent of the price tick is a field
  of its own because price limits are quantized to it.
\<close>

record symbol_rule =
  rule_lot_size :: rat
  rule_qty_step :: rat
  rule_price_tick :: rat
  rule_tick_exp :: int
  rule_min_qty :: rat
  rule_allow_odd_lot_sell :: bool
  rule_t_plus_one_sell :: bool
  rule_price_limit_pct :: rat

definition mod_nonzero :: "rat res \<Rightarrow> bool" where
  "mod_nonzero r = (case r of Inl _ \<Rightarrow> False | Inr v \<Rightarrow> v \<noteq> 0)"

definition make_symbol_rule :: "symbol_rule \<Rightarrow> symbol_rule res" where
  "make_symbol_rule r =
     res_bind (checks
       [(\<not> 0 < rule_lot_size r, ValidationError ''lot_size''),
        (\<not> 0 < rule_qty_step r, ValidationError ''qty_step''),
        (\<not> 0 < rule_price_tick r, ValidationError ''price_tick''),
        (\<not> 0 < rule_min_qty r, ValidationError ''min_qty''),
        (\<not> (0 < rule_price_limit_pct r \<and> rule_price_limit_pct r < 1), ValidationError ''price_limit_pct''),
        (rule_min_qty r < rule_lot_size r,
           ValidationError ''min_qty must be greater than or equal to lot_size.'')]) (\<lambda>_.
     res_bind (dec_mod (rule_min_qty r) (rule_qty_step r)) (\<lambda>m.
     res_bind (checks [(m \<noteq> 0, ValidationError ''min_qty must be an integer multiple of qty_step.'')]) (\<lambda>_.
     res_bind (dec_mod (rule_lot_size r) (rule_qty_step r)) (\<lambda>l.
     res_bind (checks
       [(l \<noteq> 0, ValidationError ''lot_size must be an integer multiple of qty_step.''),
        (\<not> rule_t_plus_one_sell r,
           ValidationError ''V1 A-share symbol rules must enforce t_plus_one_sell.'')]) (\<lambda>_.
     Inr r)))))"

text \<open>What a validated rule guarantees.\<close>

definition symbol_rule_ok :: "symbol_rule \<Rightarrow> bool" where
  "symbol_rule_ok r \<longleftrightarrow> 0 < rule_lot_size r \<and> 0 < rule_qty_step r \<and> 0 < rule_price_tick r
     \<and> 0 < rule_min_qty r \<and> rule_lot_size r \<le> rule_min_qty r
     \<and> is_multiple (rule_min_qty r) (rule_qty_step r) \<and> is_multiple (rule_lot_size r) (rule_qty_step r)
     \<and> rule_t_plus_one_sell r \<and> 0 < rule_price_limit_pct r \<and> rule_price_limit_pct r < 1"

lemma dec_mod_zeroD:
  assumes "dec_mod x y = Inr 0" "0 < y" "0 \<le> x"
  shows "is_multiple x y"
proof -
  have "0 \<le> x / y"
    using assms by simp
  then have "\<lfloor>x / y\<rfloor> < 10 ^ 28"
    using assms(1) by (auto simp: dec_mod_def Let_def round_down_def split: if_splits)
  then have "x / y < 10 ^ 28"
    by (simp add: floor_less_iff)
  then show ?thesis
    using assms dec_mod_zero_iff by blast
qed

lemma make_symbol_rule_ok: "make_symbol_rule r = Inr r' \<Longrightarrow> r' = r \<and> symbol_rule_ok r"
  unfolding make_symbol_rule_def symbol_rule_ok_def
  by (auto intro: dec_mod_zeroD)

record cost_model =
  cm_commission :: rat
  cm_transfer_fee :: rat
  cm_stamp_duty_sell :: rat

definition make_cost_model :: "cost_model \<Rightarrow> cost_model res" where
  "make_cost_model c =
     res_bind (checks
       [(\<not> 0 \<le> cm_commission c, ValidationError ''commission''),
        (\<not> 0 \<le> cm_transfer_fee c, ValidationError ''transfer_fee''),
        (\<not> 0 \<le> cm_stamp_duty_sell c, ValidationError ''stamp_duty_sell'')]) (\<lambda>_. Inr c)"

definition cost_model_ok :: "cost_model \<Rightarrow> bool" where
  "cost_model_ok c \<longleftrightarrow> 0 \<le> cm_commission c \<and> 0 \<le> cm_transfer_fee c \<and> 0 \<le> cm_stamp_duty_sell c"

lemma make_cost_model_ok: "make_cost_model c = Inr c' \<Longrightarrow> c' = c \<and> cost_model_ok c"
  by (auto simp: make_cost_model_def cost_model_ok_def)

end
