(* ===== verification/Samples.thy ===== *)
theory Samples
  imports Signals Orders Symbol_Rules Portfolio
begin

text \<open>
  The concrete values the witnesses of the properties are evaluated on: the symbol, rule, market
  state and identities of the unit tests in src/tests/unit, with round prices and rates.
\<close>

definition sample_time :: datetime where
  "sample_time = days_from_civil 2026 4 1 * us_per_day + 10 * us_per_hour"

definition sample_signal :: "rat \<Rightarrow> signal" where
  "sample_signal target =
     \<lparr>sig_id = 11, sig_strategy = ''baseline_momentum_v1'', sig_run_id = 7,
      sig_account = ''paper_account_001'', sig_exchange = ''cn_equity'', sig_symbol = ''600036.SH'',
      sig_timeframe = ''15m'', sig_type = REBALANCE, sig_target = target, sig_confidence = None,
      sig_reason = None, sig_status = SIG_NEW, sig_event_time = sample_time,
      sig_created_at = sample_time + us_per_second\<rparr>"

definition sample_rule :: symbol_rule where
  "sample_rule =
     \<lparr>rule_lot_size = 100, rule_qty_step = 100, rule_price_tick = 1 / 100, rule_tick_exp = - 2,
      rule_min_qty = 100, rule_allow_odd_lot_sell = True, rule_t_plus_one_sell = True,
      rule_price_limit_pct = 1 / 10\<rparr>"

definition sample_market :: market_state where
  "sample_market =
     \<lparr>ms_trade_date = date_of sample_time, ms_previous_close = 3947 / 100,
      ms_upper_limit = 4342 / 100, ms_lower_limit = 3552 / 100,
      ms_phase = CONTINUOUS_AUCTION, ms_suspension = ACTIVE\<rparr>"

definition sample_position :: "rat \<Rightarrow> rat \<Rightarrow> position" where
  "sample_position qty sellable =
     \<lparr>pos_id = 21, pos_account = ''paper_account_001'', pos_exchange = ''cn_equity'',
      pos_symbol = ''600036.SH'', pos_side = LONG, pos_qty = qty, pos_sellable_qty = sellable,
      pos_avg_entry_price = Some 39, pos_mark_price = Some 40, pos_unrealized_pnl = 0,
      pos_realized_pnl = 0, pos_status = POS_OPEN, pos_updated_at = sample_time\<rparr>"

definition sample_balance :: "rat \<Rightarrow> balance_snapshot" where
  "sample_balance cash =
     \<lparr>bal_id = 31, bal_account = ''paper_account_001'', bal_exchange = ''cn_equity'', bal_asset = ''CNY'',
      bal_total = cash, bal_available = cash, bal_locked = 0, bal_snapshot_time = sample_time,
      bal_created_at = sample_time\<rparr>"

definition sample_cost_model :: cost_model where
  "sample_cost_model =
     \<lparr>cm_commission = 1 / 1000, cm_transfer_fee = 0, cm_stamp_duty_sell = 1 / 1000\<rparr>"

definition sample_order :: "rat \<Rightarrow> order_side \<Rightarrow> order" where
  "sample_order qty side =
     \<lparr>ord_id = 9, ord_intent_id = 5, ord_run_id = 7, ord_exchange_order_id = None,
      ord_account = ''paper_account_001'', ord_exchange = ''cn_equity'', ord_symbol = ''600036.SH'',
      ord_side = side, ord_type = MARKET, ord_tif = DAY, ord_qty = qty, ord_price = None,
      ord_filled_qty = 0, ord_avg_fill_price = None, ord_status = NEW,
      ord_submitted_at = sample_time, ord_updated_at = sample_time,
      ord_error_code = None, ord_error_message = None\<rparr>"

definition sample_update :: "order_status \<Rightarrow> rat \<Rightarrow> order_update" where
  "sample_update status filled =
     \<lparr>upd_id = 40, upd_order_id = 9, upd_intent_id = 5, upd_run_id = 7,
      upd_account = ''paper_account_001'', upd_exchange = ''cn_equity'', upd_symbol = ''600036.SH'',
      upd_status = status, upd_exchange_order_id = Some ''paper-9'', upd_filled_qty = filled,
      upd_avg_fill_price = (if filled = 0 then None else Some 40),
      upd_error_code = None, upd_error_message = None,
      upd_event_time = sample_time + us_per_second, upd_created_at = sample_time + us_per_second\<rparr>"

definition sample_intent :: "rat \<Rightarrow> order_side \<Rightarrow> order_intent" where
  "sample_intent qty side =
     \<lparr>int_id = 5, int_signal_id = 11, int_strategy = ''baseline_momentum_v1'', int_run_id = 7,
      int_account = ''paper_account_001'', int_exchange = ''cn_equity'', int_symbol = ''600036.SH'',
      int_side = side, int_type = MARKET, int_tif = DAY, int_qty = qty, int_price = None,
      int_decision_price = Some 40, int_reduce_only = (side = SELL),
      int_market_context = Some sample_market, int_idempotency_key = ''signal-11'',
      int_status = INTENT_NEW, int_risk_decision = ALLOW, int_risk_reason = None,
      int_created_at = sample_time\<rparr>"

definition sample_fill :: "rat \<Rightarrow> order_side \<Rightarrow> fill" where
  "sample_fill qty side =
     \<lparr>fill_id = 60, fill_order_id = 9, fill_run_id = 7, fill_exchange_fill_id = Some ''paper-9-fill-1'',
      fill_account = ''paper_account_001'', fill_exchange = ''cn_equity'', fill_symbol = ''600036.SH'',
      fill_side = side, fill_qty = qty, fill_price = 40, fill_fee = 1, fill_fee_asset = Some ''CNY'',
      fill_liquidity = LIQUIDITY_UNKNOWN, fill_time = sample_time + us_per_second,
      fill_created_at = sample_time + us_per_second\<rparr>"

definition sample_fill_event :: "rat \<Rightarrow> order_side \<Rightarrow> fill_event" where
  "sample_fill_event qty side =
     \<lparr>fe_id = 61, fe_order_id = 9, fe_intent_id = 5, fe_run_id = 7, fe_account = ''paper_account_001'',
      fe_exchange = ''cn_equity'', fe_symbol = ''600036.SH'', fe_fill = sample_fill qty side,
      fe_cost = \<lparr>cb_currency = ''CNY'', cb_gross_notional = qty * 40, cb_commission = 1,
        cb_transfer_fee = 0, cb_stamp_duty = 0, cb_total_fee = 1,
        cb_net_cash_flow = (if side = BUY then - (qty * 40 + 1) else qty * 40 - 1)\<rparr>,
      fe_event_time = sample_time + us_per_second, fe_created_at = sample_time + us_per_second\<rparr>"

end
