(* ===== verification/Ledger.thy ===== *)
theory Ledger
  imports Orders Portfolio Samples
begin

text \<open>
  The portfolio ledger of src/src/domain/portfolio/ledger.py: how one fill event changes a
  position and a cash balance, with the A-share T+1 rule that a bought quantity becomes
  sellable only once the trade date has advanced.  Default identifiers of new rows are
  arguments.
\<close>

record sellable_release =
  rel_position :: position
  rel_released_qty :: rat

definition release_applied :: "sellable_release \<Rightarrow> bool" where
  "release_applied r \<longleftrightarrow> 0 < rel_released_qty r"

record portfolio_update =
  pu_position :: position
  pu_balance :: balance_snapshot
  pu_released_qty :: rat
  pu_realized_delta :: rat
  pu_cash_delta :: rat

definition release_position_sellable_qty :: "position \<Rightarrow> date \<Rightarrow> datetime \<Rightarrow> sellable_release" where
  "release_position_sellable_qty p effective_trade_date released_at =
     (if pos_qty p = 0 \<or> pos_sellable_qty p = pos_qty p
         \<or> effective_trade_date \<le> date_of (pos_updated_at p)
      then \<lparr>rel_position = p, rel_released_qty = 0\<rparr>
      else \<lparr>rel_position = p\<lparr>pos_sellable_qty := pos_qty p, pos_updated_at := released_at\<rparr>,
            rel_released_qty = dec_sub (pos_qty p) (pos_sellable_qty p)\<rparr>)"

definition apply_buy_fill :: "uuid \<Rightarrow> fill_event \<Rightarrow> position option \<Rightarrow> (position \<times> rat) res" where
  "apply_buy_fill fresh fe current =
     (let f = fe_fill fe;
          total_fee = cb_total_fee (fe_cost fe);
          previous_qty = (case current of None \<Rightarrow> 0 | Some p \<Rightarrow> pos_qty p);
          previous_sellable_qty = (case current of None \<Rightarrow> 0 | Some p \<Rightarrow> pos_sellable_qty p);
          previous_realized_pnl = (case current of None \<Rightarrow> 0 | Some p \<Rightarrow> pos_realized_pnl p);
          previous_avg = (case current of None \<Rightarrow> 0
             | Some p \<Rightarrow> (case pos_avg_entry_price p of None \<Rightarrow> 0 | Some a \<Rightarrow> a));
          new_qty = dec_add previous_qty (fill_qty f);
          carried_cost = dec_add (dec_mul previous_qty previous_avg) (fill_notional f)
      in res_bind (dec_div carried_cost new_qty) (\<lambda>avg_entry_price.
         res_bind (make_position
           \<lparr>pos_id = (case current of None \<Rightarrow> fresh | Some p \<Rightarrow> pos_id p),
            pos_account = fill_account f, pos_exchange = fill_exchange f, pos_symbol = fill_symbol f,
            pos_side = (case current of None \<Rightarrow> LONG | Some p \<Rightarrow> pos_side p),
            pos_qty = new_qty, pos_sellable_qty = previous_sellable_qty,
            pos_avg_entry_price = Some avg_entry_price, pos_mark_price = Some (fill_price f),
            pos_unrealized_pnl = dec_mul (dec_sub (fill_price f) avg_entry_price) new_qty,
            pos_realized_pnl = dec_sub previous_realized_pnl total_fee,
            pos_status = POS_OPEN, pos_updated_at = fe_event_time fe\<rparr>)
         (\<lambda>p. Inr (p, dec_neg total_fee))))"

definition apply_sell_fill :: "fill_event \<Rightarrow> position option \<Rightarrow> (position \<times> rat) res" where
  "apply_sell_fill fe current =
     (case current of
        None \<Rightarrow> Inl (PortfolioStateError ''SELL fills require an existing open position'')
      | Some p \<Rightarrow>
          if pos_qty p = 0 then Inl (PortfolioStateError ''SELL fills require an existing open position'')
          else (case pos_avg_entry_price p of
              None \<Rightarrow> Inl (PortfolioStateError ''SELL fills require an existing open position'')
            | Some avg \<Rightarrow>
                let f = fe_fill fe
                in if pos_qty p < fill_qty f
                   then Inl (PortfolioStateError ''SELL fill qty cannot exceed the current position qty'')
                   else if pos_sellable_qty p < fill_qty f
                   then Inl (PortfolioStateError ''SELL fill qty cannot exceed the current sellable_qty'')
                   else
                     let total_fee = cb_total_fee (fe_cost fe);
                         delta = dec_sub (dec_mul (dec_sub (fill_price f) avg) (fill_qty f)) total_fee;
                         remaining_qty = dec_sub (pos_qty p) (fill_qty f);
                         remaining_sellable = dec_sub (pos_sellable_qty p) (fill_qty f);
                         realized = dec_add (pos_realized_pnl p) delta;
                         next = (if remaining_qty = 0
                           then p\<lparr>pos_qty := 0, pos_sellable_qty := 0, pos_avg_entry_price := None,
                                  pos_mark_price := None, pos_unrealized_pnl := 0,
                                  pos_realized_pnl := realized, pos_status := POS_CLOSED,
                                  pos_updated_at := fe_event_time fe\<rparr>
                           else p\<lparr>pos_qty := remaining_qty, pos_sellable_qty := remaining_sellable,
                                  pos_avg_entry_price := Some avg, pos_mark_price := Some (fill_price f),
                                  pos_unrealized_pnl := dec_mul (dec_sub (fill_price f) avg) remaining_qty,
                                  pos_realized_pnl := realized, pos_status := POS_OPEN,
                                  pos_updated_at := fe_event_time fe\<rparr>)
                     in res_map (\<lambda>p. (p, delta)) (make_position next)))"

definition validate_position_matches_fill :: "position \<Rightarrow> fill_event \<Rightarrow> unit res" where
  "validate_position_matches_fill p fe = checks
     [(pos_account p \<noteq> fe_account fe,
         PortfolioStateError ''position.account_id must match fill_event.account_id''),
      (pos_exchange p \<noteq> fe_exchange fe,
         PortfolioStateError ''position.exchange must match fill_event.exchange''),
      (pos_symbol p \<noteq> fe_symbol fe,
         PortfolioStateError ''position.symbol must match fill_event.symbol'')]"

definition validate_balance_matches_fill :: "balance_snapshot \<Rightarrow> fill_event \<Rightarrow> unit res" where
  "validate_balance_matches_fill b fe = checks
     [(bal_account b \<noteq> fe_account fe,
         PortfolioStateError ''balance.account_id must match fill_event.account_id''),
      (bal_exchange b \<noteq> fe_exchange fe,
         PortfolioStateError ''balance.exchange must match fill_event.exchange'')]"

definition apply_cash_flow :: "uuid \<Rightarrow> fill_event \<Rightarrow> balance_snapshot option \<Rightarrow> balance_snapshot res" where
  "apply_cash_flow fresh fe current =
     (let currency = cb_currency (fe_cost fe);
          cash_delta = cb_net_cash_flow (fe_cost fe)
      in res_bind
        (case current of
           Some b \<Rightarrow> res_bind (validate_balance_matches_fill b fe) (\<lambda>_.
             if bal_asset b \<noteq> currency
             then Inl (PortfolioStateError ''Balance asset must match the fill-event settlement currency'')
             else Inr (bal_total b, bal_available b, bal_locked b))
         | None \<Rightarrow>
             if cash_delta < 0
             then Inl (PortfolioStateError
               ''BUY fills require an existing balance snapshot before cash can be debited'')
             else Inr (0, 0, 0))
        (\<lambda>(total, available, locked).
           let next_total = dec_add total cash_delta; next_available = dec_add available cash_delta
           in if next_total < 0 \<or> next_available < 0
              then Inl (PortfolioStateError ''Balance update would produce a negative cash state'')
              else make_balance
                \<lparr>bal_id = fresh, bal_account = fe_account fe, bal_exchange = fe_exchange fe,
                 bal_asset = currency, bal_total = next_total, bal_available = next_available,
                 bal_locked = locked, bal_snapshot_time = fe_event_time fe,
                 bal_created_at = fe_event_time fe\<rparr>))"

definition apply_fill_event_to_portfolio ::
  "uuid \<Rightarrow> uuid \<Rightarrow> fill_event \<Rightarrow> position option \<Rightarrow> balance_snapshot option \<Rightarrow> portfolio_update res" where
  "apply_fill_event_to_portfolio fresh_pos fresh_bal fe current_position current_balance =
     res_bind
       (case current_position of
          None \<Rightarrow> Inr (None, 0)
        | Some p \<Rightarrow> res_map (\<lambda>_.
            let release = release_position_sellable_qty p (date_of (fe_event_time fe)) (fe_event_time fe)
            in (Some (rel_position release), rel_released_qty release))
            (validate_position_matches_fill p fe))
       (\<lambda>(position_before, released).
     res_bind (if fill_side (fe_fill fe) = BUY then apply_buy_fill fresh_pos fe position_before
               else apply_sell_fill fe position_before)
       (\<lambda>(next_position, realized_delta).
     res_bind (apply_cash_flow fresh_bal fe current_balance) (\<lambda>next_balance.
       Inr \<lparr>pu_position = next_position, pu_balance = next_balance, pu_released_qty = released,
            pu_realized_delta = realized_delta,
            pu_cash_delta = cb_net_cash_flow (fe_cost fe)\<rparr>)))"

section \<open>The T+1 release\<close>

lemma release_ok:
  assumes "position_ok p"
  shows "position_ok (rel_position (release_position_sellable_qty p d t))"
  using assms
  by (auto simp: release_position_sellable_qty_def position_ok_def position_rules_def
      normalize_position_iff)

lemma release_simps [simp]:
  "pos_qty (rel_position (release_position_sellable_qty p d t)) = pos_qty p"
  "pos_id (rel_position (release_position_sellable_qty p d t)) = pos_id p"
  "pos_side (rel_position (release_position_sellable_qty p d t)) = pos_side p"
  "pos_account (rel_position (release_position_sellable_qty p d t)) = pos_account p"
  "pos_exchange (rel_position (release_position_sellable_qty p d t)) = pos_exchange p"
  "pos_symbol (rel_position (release_position_sellable_qty p d t)) = pos_symbol p"
  "pos_avg_entry_price (rel_position (release_position_sellable_qty p d t)) = pos_avg_entry_price p"
  "pos_realized_pnl (rel_position (release_position_sellable_qty p d t)) = pos_realized_pnl p"
  by (simp_all add: release_position_sellable_qty_def)

text \<open>What a position may sell on a trade date: everything held when the date has advanced.\<close>

definition sellable_on :: "date \<Rightarrow> position option \<Rightarrow> rat" where
  "sellable_on d p = (case p of None \<Rightarrow> 0
     | Some p \<Rightarrow> if date_of (pos_updated_at p) < d then pos_qty p else pos_sellable_qty p)"

lemma release_sellable:
  assumes "position_ok p"
  shows "pos_sellable_qty (rel_position (release_position_sellable_qty p d t)) = sellable_on d (Some p)"
  using position_okD(1-3) [OF assms] by (auto simp: release_position_sellable_qty_def sellable_on_def)

section \<open>One fill\<close>

text \<open>The position a fill meets, with the release of its trade date already applied.\<close>

definition position_before :: "fill_event \<Rightarrow> position option \<Rightarrow> position option" where
  "position_before fe current = map_option (\<lambda>p.
     rel_position (release_position_sellable_qty p (date_of (fe_event_time fe)) (fe_event_time fe))) current"

definition side_fill :: "uuid \<Rightarrow> fill_event \<Rightarrow> position option \<Rightarrow> (position \<times> rat) res" where
  "side_fill fresh fe before =
     (if fill_side (fe_fill fe) = BUY then apply_buy_fill fresh fe before else apply_sell_fill fe before)"

definition position_matches :: "fill_event \<Rightarrow> position option \<Rightarrow> bool" where
  "position_matches fe current \<longleftrightarrow>
     (case current of None \<Rightarrow> True | Some p \<Rightarrow> validate_position_matches_fill p fe = Inr ())"

lemma apply_fill_iff:
  "apply_fill_event_to_portfolio fp fb fe current bal = Inr u \<longleftrightarrow>
     position_matches fe current
     \<and> side_fill fp fe (position_before fe current) = Inr (pu_position u, pu_realized_delta u)
     \<and> apply_cash_flow fb fe bal = Inr (pu_balance u)
     \<and> pu_cash_delta u = cb_net_cash_flow (fe_cost fe)
     \<and> pu_released_qty u = (case current of None \<Rightarrow> 0 | Some p \<Rightarrow>
         rel_released_qty (release_position_sellable_qty p (date_of (fe_event_time fe)) (fe_event_time fe)))"
  by (cases current; cases u)
     (auto simp: apply_fill_event_to_portfolio_def position_before_def side_fill_def position_matches_def Let_def)

lemma position_before_ok: "\<forall>p \<in> set_option current. position_ok p \<Longrightarrow> q \<in> set_option (position_before fe current) \<Longrightarrow> position_ok q"
  by (auto simp: position_before_def release_ok)

lemma apply_buy_fill_D:
  assumes "apply_buy_fill fresh fe current = Inr (q, d)"
  shows "position_ok q" "pos_qty q = dec_add (case current of None \<Rightarrow> 0 | Some p \<Rightarrow> pos_qty p) (fill_qty (fe_fill fe))"
    "pos_sellable_qty q = (case current of None \<Rightarrow> 0 | Some p \<Rightarrow> pos_sellable_qty p)"
    "pos_realized_pnl q = dec_sub (case current of None \<Rightarrow> 0 | Some p \<Rightarrow> pos_realized_pnl p) (cb_total_fee (fe_cost fe))"
    "d = dec_neg (cb_total_fee (fe_cost fe))" "pos_updated_at q = fe_event_time fe"
  using assms
  by (auto simp: apply_buy_fill_def Let_def make_position_iff normalize_position_def)

lemma apply_sell_fill_D:
  assumes "apply_sell_fill fe current = Inr (q, d)"
  obtains p avg where "current = Some p" "pos_avg_entry_price p = Some avg" "pos_qty p \<noteq> 0"
    "fill_qty (fe_fill fe) \<le> pos_sellable_qty p" "fill_qty (fe_fill fe) \<le> pos_qty p" "position_ok q"
    "d = dec_sub (dec_mul (dec_sub (fill_price (fe_fill fe)) avg) (fill_qty (fe_fill fe))) (cb_total_fee (fe_cost fe))"
    "pos_qty q = dec_sub (pos_qty p) (fill_qty (fe_fill fe))"
    "pos_sellable_qty q = (if pos_qty q = 0 then 0 else dec_sub (pos_sellable_qty p) (fill_qty (fe_fill fe)))"
    "pos_realized_pnl q = dec_add (pos_realized_pnl p) d" "pos_updated_at q = fe_event_time fe"
    "pos_avg_entry_price q = (if pos_qty q = 0 then None else Some avg)"
proof -
  from assms obtain p avg where p: "current = Some p" "pos_avg_entry_price p = Some avg" "pos_qty p \<noteq> 0"
    "fill_qty (fe_fill fe) \<le> pos_sellable_qty p" "fill_qty (fe_fill fe) \<le> pos_qty p"
    by (auto simp: apply_sell_fill_def Let_def split: option.splits if_splits)
  then show thesis
    using assms
    by (intro that [OF p])
       (auto simp: apply_sell_fill_def Let_def make_position_iff normalize_position_def split: if_splits)
qed

text \<open>Every position and balance the ledger produces is valid, whatever the rounding.\<close>

lemma side_fill_ok: "side_fill fresh fe before = Inr (q, d) \<Longrightarrow> position_ok q"
  by (auto simp: side_fill_def elim: apply_sell_fill_D dest: apply_buy_fill_D(1) split: if_splits)

lemma apply_cash_flow_D:
  assumes "apply_cash_flow fresh fe bal = Inr b"
  shows "balance_ok b"
    "bal_total b = dec_add (case bal of None \<Rightarrow> 0 | Some b0 \<Rightarrow> bal_total b0) (cb_net_cash_flow (fe_cost fe))"
    "bal_available b = dec_add (case bal of None \<Rightarrow> 0 | Some b0 \<Rightarrow> bal_available b0) (cb_net_cash_flow (fe_cost fe))"
    "bal_locked b = (case bal of None \<Rightarrow> 0 | Some b0 \<Rightarrow> bal_locked b0)"
    "bal_snapshot_time b = fe_event_time fe"
    "bal \<noteq> None \<or> 0 \<le> cb_net_cash_flow (fe_cost fe)"
  using assms
  by (cases bal; auto simp: apply_cash_flow_def Let_def make_balance_iff normalize_balance_def
      split: if_splits)+

text \<open>A valid position is never sold below what is sellable, so the sell branch cannot go short.\<close>

lemma sell_fill_accepts:
  assumes p: "position_ok p" and fe: "fill_event_ok fe"
    and q: "fill_qty (fe_fill fe) \<le> pos_sellable_qty p"
  shows "\<exists>q d. apply_sell_fill fe (Some p) = Inr (q, d)"
proof -
  note pd = position_okD [OF p] and fd = fill_okD [OF fill_event_okD(1) [OF fe]]
  have nz: "pos_qty p \<noteq> 0" and le: "fill_qty (fe_fill fe) \<le> pos_qty p"
    using pd fd q by auto
  then obtain avg where avg: "pos_avg_entry_price p = Some avg" "0 < avg"
    using pd by (cases "pos_avg_entry_price p") auto
  have s: "0 \<le> dec_sub (pos_sellable_qty p) (fill_qty (fe_fill fe))"
    "dec_sub (pos_sellable_qty p) (fill_qty (fe_fill fe)) \<le> dec_sub (pos_qty p) (fill_qty (fe_fill fe))"
    unfolding dec_sub_def
    by (rule dec.rnd_sub_nonneg [OF q], rule dec.rnd_sub_mono) (use pd in simp)
  let ?f = "fe_fill fe"
  have norm: "trim (pos_account p) = pos_account p" "normalize_exchange (pos_exchange p) = pos_exchange p"
    "normalize_symbol (pos_symbol p) = pos_symbol p"
    using pd(11) by (simp_all add: normalize_position_iff)
  show ?thesis
    using nz le q s avg norm pd(8-10) fd
    by (auto simp: apply_sell_fill_def Let_def make_position_def normalize_position_def position_rules_def)
qed

section \<open>Runs of fills\<close>

text \<open>The ledger state of one symbol and account; a step carries the identifiers of new rows.\<close>

type_synonym ledger_state = "position option \<times> balance_snapshot option"
type_synonym ledger_input = "uuid \<times> uuid \<times> fill_event"

fun ledger_step :: "ledger_state \<Rightarrow> ledger_input \<Rightarrow> ledger_state res" where
  "ledger_step (current, bal) (fp, fb, fe) =
     res_map (\<lambda>u. (Some (pu_position u), Some (pu_balance u)))
       (apply_fill_event_to_portfolio fp fb fe current bal)"

definition bought_qty :: "fill_event \<Rightarrow> rat" where
  "bought_qty fe = (if fill_side (fe_fill fe) = BUY then fill_qty (fe_fill fe) else 0)"

definition sold_qty :: "fill_event \<Rightarrow> rat" where
  "sold_qty fe = (if fill_side (fe_fill fe) = BUY then 0 else fill_qty (fe_fill fe))"

definition ledger_ok :: "ledger_state \<Rightarrow> bool" where
  "ledger_ok st \<longleftrightarrow> (case fst st of None \<Rightarrow> True | Some p \<Rightarrow> position_ok p)
     \<and> (case snd st of None \<Rightarrow> True | Some b \<Rightarrow> balance_ok b)"

lemma ledger_stepD:
  assumes "ledger_step (current, bal) (fp, fb, fe) = Inr st"
  obtains q d b where "st = (Some q, Some b)"
    "side_fill fp fe (position_before fe current) = Inr (q, d)" "apply_cash_flow fb fe bal = Inr b"
    "position_ok q" "balance_ok b" "pos_updated_at q = fe_event_time fe"
proof -
  obtain u where u: "apply_fill_event_to_portfolio fp fb fe current bal = Inr u"
    "st = (Some (pu_position u), Some (pu_balance u))"
    using assms by auto
  then have s: "side_fill fp fe (position_before fe current) = Inr (pu_position u, pu_realized_delta u)"
    and c: "apply_cash_flow fb fe bal = Inr (pu_balance u)"
    by (simp_all add: apply_fill_iff)
  moreover have "pos_updated_at (pu_position u) = fe_event_time fe"
    using s by (auto simp: side_fill_def elim: apply_sell_fill_D dest: apply_buy_fill_D(6) split: if_splits)
  ultimately show thesis
    using that u side_fill_ok apply_cash_flow_D(1) by blast
qed

declare ledger_step.simps [simp del]

lemma ledger_step_ok: "ledger_step st x = Inr st' \<Longrightarrow> ledger_ok st'"
  by (cases st; cases x) (auto simp: ledger_ok_def elim!: ledger_stepD)

lemma before_sellable:
  assumes "ledger_ok (current, bal)"
  shows "(case position_before fe current of None \<Rightarrow> 0 | Some p \<Rightarrow> pos_sellable_qty p)
           = sellable_on (date_of (fe_event_time fe)) current"
    and "(case position_before fe current of None \<Rightarrow> 0 | Some p \<Rightarrow> pos_qty p)
           = (case current of None \<Rightarrow> 0 | Some p \<Rightarrow> pos_qty p)"
  using assms
  by (cases current; simp add: position_before_def release_sellable ledger_ok_def; simp add: sellable_on_def)+

text \<open>On one trade date a fill changes the sellable quantity by what it sells, and only by that.\<close>

lemma ledger_step_sellable:
  assumes step: "ledger_step (current, bal) (fp, fb, fe) = Inr st"
    and ok: "ledger_ok (current, bal)" "fill_event_ok fe"
    and D: "date_of (fe_event_time fe) = D"
    and grid: "on_grid e (sellable_on D current)" "on_grid e (fill_qty (fe_fill fe))"
  shows "sellable_on D (fst st) = sellable_on D current - sold_qty fe" "sold_qty fe \<le> sellable_on D current"
    and "on_grid e (sellable_on D (fst st))"
proof -
  obtain q d b where st: "st = (Some q, Some b)" and sf: "side_fill fp fe (position_before fe current) = Inr (q, d)"
    and q: "position_ok q" "pos_updated_at q = fe_event_time fe"
    using step by (rule ledger_stepD)
  have new: "sellable_on D (fst st) = pos_sellable_qty q"
    using st q D by (simp add: sellable_on_def)
  have fq: "0 < fill_qty (fe_fill fe)"
    using ok(2) fill_event_okD fill_okD by blast
  have cur: "0 \<le> sellable_on D current"
    using ok(1) position_okD(1,2) by (auto simp: sellable_on_def ledger_ok_def split: option.split)
  have "sellable_on D (fst st) = sellable_on D current - sold_qty fe \<and> sold_qty fe \<le> sellable_on D current"
  proof (cases "fill_side (fe_fill fe) = BUY")
    case True
    then have "apply_buy_fill fp fe (position_before fe current) = Inr (q, d)"
      using sf by (simp add: side_fill_def)
    from apply_buy_fill_D(3) [OF this] show ?thesis
      using new True cur before_sellable(1) [OF ok(1)] D by (simp add: sold_qty_def)
  next
    case False
    then have "apply_sell_fill fe (position_before fe current) = Inr (q, d)"
      using sf by (simp add: side_fill_def)
    then obtain p where p: "position_before fe current = Some p"
      "fill_qty (fe_fill fe) \<le> pos_sellable_qty p" "fill_qty (fe_fill fe) \<le> pos_qty p"
      "pos_qty q = dec_sub (pos_qty p) (fill_qty (fe_fill fe))"
      "pos_sellable_qty q = (if pos_qty q = 0 then 0 else dec_sub (pos_sellable_qty p) (fill_qty (fe_fill fe)))"
      by (rule apply_sell_fill_D)
    have ps: "pos_sellable_qty p = sellable_on D current"
      using before_sellable(1) [OF ok(1), of fe] p(1) D by simp
    have "position_ok p"
      using p(1) ok(1) release_ok by (auto simp: position_before_def ledger_ok_def split: option.splits)
    then have le: "pos_sellable_qty p \<le> pos_qty p"
      by (rule position_okD)
    have g: "on_grid e (pos_sellable_qty p - fill_qty (fe_fill fe))"
      using grid fq p(2) ps by (intro on_grid_diff_le) simp_all
    then have "dec_sub (pos_sellable_qty p) (fill_qty (fe_fill fe)) = pos_sellable_qty p - fill_qty (fe_fill fe)"
      by (simp add: dec_sub_def ctx_exact)
    moreover have "pos_qty q = 0 \<Longrightarrow> pos_sellable_qty p = fill_qty (fe_fill fe)"
      using p le by (simp add: dec_sub_def)
    ultimately show ?thesis
      using new p(2,5) ps False by (auto simp: sold_qty_def)
  qed
  then show *: "sellable_on D (fst st) = sellable_on D current - sold_qty fe" "sold_qty fe \<le> sellable_on D current"
    by blast+
  show "on_grid e (sellable_on D (fst st))"
    unfolding *(1) using grid fq * by (intro on_grid_diff_le) (auto simp: sold_qty_def)
qed

text \<open>
  T+1: whatever is bought and sold within one trade date, what is sold was sellable when the
  date began, so nothing bought on the date is sold on it.
\<close>

lemma trade_date_sales:
  assumes "res_fold ledger_step st xs = Inr st'" "ledger_ok st"
    and "\<forall>(fp, fb, fe) \<in> set xs. fill_event_ok fe \<and> date_of (fe_event_time fe) = D
           \<and> on_grid e (fill_qty (fe_fill fe))"
    and "on_grid e (sellable_on D (fst st))"
  shows "sellable_on D (fst st') = sellable_on D (fst st) - (\<Sum>(fp, fb, fe) \<leftarrow> xs. sold_qty fe)
         \<and> (\<Sum>(fp, fb, fe) \<leftarrow> xs. sold_qty fe) \<le> sellable_on D (fst st)"
  using assms
proof (induction xs arbitrary: st)
  case Nil
  have "0 \<le> sellable_on D (fst st)"
    using Nil(2) position_okD(1,2) by (auto simp: sellable_on_def ledger_ok_def split: option.split)
  then show ?case
    using Nil by simp
next
  case (Cons x xs)
  obtain current bal fp fb fe where st: "st = (current, bal)" and x: "x = (fp, fb, fe)"
    by (metis prod_cases3 surj_pair)
  obtain st1 where s1: "ledger_step (current, bal) (fp, fb, fe) = Inr st1"
    and rest: "res_fold ledger_step st1 xs = Inr st'"
    using Cons.prems(1) st x by auto
  have h: "fill_event_ok fe" "date_of (fe_event_time fe) = D" "on_grid e (fill_qty (fe_fill fe))"
    and hs: "\<forall>(fp, fb, fe) \<in> set xs. fill_event_ok fe \<and> date_of (fe_event_time fe) = D
           \<and> on_grid e (fill_qty (fe_fill fe))"
    using Cons.prems(3) x by simp_all
  note one = ledger_step_sellable [OF s1 Cons.prems(2) [unfolded st] h(1,2) _ h(3)]
  have "on_grid e (sellable_on D current)"
    using Cons.prems(4) st by simp
  from one [OF this] Cons.IH [OF rest ledger_step_ok [OF s1] hs] show ?case
    using st x by simp
qed

section \<open>Acceptance of buys and cash flows\<close>

lemma buy_fill_accepts:
  assumes cur: "\<And>p. current = Some p \<Longrightarrow> position_ok p \<and> ctx (pos_sellable_qty p) = pos_sellable_qty p"
    and fe: "fill_event_ok fe"
  shows "\<exists>q d. apply_buy_fill fresh fe current = Inr (q, d)"
proof -
  let ?f = "fe_fill fe"
  let ?q = "case current of None \<Rightarrow> 0 | Some p \<Rightarrow> pos_qty p"
  let ?s = "case current of None \<Rightarrow> 0 | Some p \<Rightarrow> pos_sellable_qty p"
  let ?a = "case current of None \<Rightarrow> 0 | Some p \<Rightarrow> (case pos_avg_entry_price p of None \<Rightarrow> 0 | Some a \<Rightarrow> a)"
  note fd = fill_okD [OF fill_event_okD(1) [OF fe]]
  have q: "0 \<le> ?q" "0 \<le> ?s" "?s \<le> ?q" "ctx ?s = ?s" "0 \<le> ?a"
    using cur position_okD(1-4)
    by (cases current; cases "pos_avg_entry_price (the current)"; force)+
  have new: "0 < dec_add ?q (fill_qty ?f)"
    using q fd by (simp add: dec_add_def add_nonneg_pos)
  have sell: "?s \<le> dec_add ?q (fill_qty ?f)"
    unfolding dec_add_def by (rule dec.rnd_ge_exact) (use q fd in simp_all)
  define c where "c = dec_add (dec_mul ?q ?a) (fill_notional ?f)"
  define n where "n = dec_add ?q (fill_qty ?f)"
  have "0 < c"
    unfolding c_def using q fd by (simp add: dec_add_def dec_mul_def fill_notional_def add_nonneg_pos)
  then have avg: "0 < ctx (c / n)" "dec_div c n = Inr (ctx (c / n))"
    using new by (simp_all add: dec_div_def n_def)
  have fo: "trim (fill_account ?f) = fill_account ?f" "normalize_exchange (fill_exchange ?f) = fill_exchange ?f"
    "normalize_symbol (fill_symbol ?f) = fill_symbol ?f" "fill_account ?f \<noteq> []" "fill_exchange ?f \<noteq> []"
    "fill_symbol ?f \<noteq> []"
    using fill_event_okD(1) [OF fe]
    by (cases ?f; simp add: fill_ok_def fill_rules_def normalize_fill_def)+
  show ?thesis
    using avg new sell q(2) fd fo
    unfolding apply_buy_fill_def Let_def n_def [symmetric] c_def [symmetric] avg(2)
    by (simp add: make_position_def normalize_position_def position_rules_def)
qed

text \<open>A cash flow is booked exactly when it leaves no negative balance, up to the arithmetic contract.\<close>

lemma cash_flow_accepts:
  assumes b: "balance_ok b" and fe: "fill_event_ok fe"
    and m: "validate_balance_matches_fill b fe = Inr ()" "bal_asset b = cb_currency (fe_cost fe)"
    and grid: "on_grid e (bal_total b)" "on_grid e (bal_available b)" "on_grid e (bal_locked b)"
      "on_grid e (cb_net_cash_flow (fe_cost fe))"
    and room: "bal_available b + bal_locked b \<le> 10 ^ 28 * pow10 e"
      "bal_total b + cb_net_cash_flow (fe_cost fe) \<le> 10 ^ 28 * pow10 e"
    and enough: "0 \<le> bal_available b + cb_net_cash_flow (fe_cost fe)"
  shows "\<exists>b'. apply_cash_flow fresh fe (Some b) = Inr b'
           \<and> bal_total b' = bal_total b + cb_net_cash_flow (fe_cost fe)
           \<and> bal_available b' = bal_available b + cb_net_cash_flow (fe_cost fe)
           \<and> bal_locked b' = bal_locked b"
proof -
  let ?c = "cb_net_cash_flow (fe_cost fe)"
  note d = balance_okD [OF b]
  have "on_grid e (bal_available b + bal_locked b)"
    using grid room d by (intro on_grid_add) simp_all
  then have tot: "bal_total b = bal_available b + bal_locked b"
    using d(4) by (simp add: dec_add_def ctx_exact)
  have g: "on_grid e (bal_total b + ?c)" "on_grid e (bal_available b + ?c)"
    using grid room enough d tot by (auto intro!: on_grid_add)
  then have ex: "dec_add (bal_total b) ?c = bal_total b + ?c" "dec_add (bal_available b) ?c = bal_available b + ?c"
    by (simp_all add: dec_add_def ctx_exact)
  have sum: "dec_add (bal_available b + ?c) (bal_locked b) = bal_total b + ?c"
    using g(1) tot by (simp add: dec_add_def ctx_exact algebra_simps)
  have norm: "trim (fe_account fe) = bal_account b" "normalize_exchange (fe_exchange fe) = bal_exchange b"
    "normalize_asset (cb_currency (fe_cost fe)) = bal_asset b"
    using d(8) m by (simp_all add: normalize_balance_iff validate_balance_matches_fill_def)
  have "0 \<le> bal_total b + ?c"
    using tot enough d(3) by simp
  then show ?thesis
    using m ex sum norm enough d
    by (simp add: apply_cash_flow_def Let_def make_balance_def normalize_balance_def balance_rules_def)
qed

section \<open>The accounting identity\<close>

text \<open>What the open quantity cost, fees apart: fees go to the realized result at once.\<close>

definition cost_basis :: "position option \<Rightarrow> rat" where
  "cost_basis current = (case current of None \<Rightarrow> 0
     | Some p \<Rightarrow> pos_qty p * (case pos_avg_entry_price p of None \<Rightarrow> 0 | Some a \<Rightarrow> a))"

definition realized_total :: "position option \<Rightarrow> rat" where
  "realized_total current = (case current of None \<Rightarrow> 0 | Some p \<Rightarrow> pos_realized_pnl p)"

definition cash_total :: "balance_snapshot option \<Rightarrow> rat" where
  "cash_total bal = (case bal of None \<Rightarrow> 0 | Some b \<Rightarrow> bal_total b)"

definition held :: "position option \<Rightarrow> rat" where
  "held current = (case current of None \<Rightarrow> 0 | Some p \<Rightarrow> pos_qty p)"

text \<open>The cash flow of a fill is its notional and fee, as the paper adapter books it.\<close>

definition cash_matches :: "fill_event \<Rightarrow> bool" where
  "cash_matches fe \<longleftrightarrow> cb_net_cash_flow (fe_cost fe) =
     (if fill_side (fe_fill fe) = BUY
      then - (fill_qty (fe_fill fe) * fill_price (fe_fill fe) + cb_total_fee (fe_cost fe))
      else fill_qty (fe_fill fe) * fill_price (fe_fill fe) - cb_total_fee (fe_cost fe))"

text \<open>No intermediate result of the fill needs more than 28 digits.\<close>

definition exact_fill :: "ledger_state \<Rightarrow> fill_event \<Rightarrow> bool" where
  "exact_fill st fe =
     (let f = fe_fill fe; q = held (fst st); fee = cb_total_fee (fe_cost fe); r = realized_total (fst st);
          cost = cost_basis (fst st); n = fill_qty f * fill_price f
      in exact (cash_total (snd st) + cb_net_cash_flow (fe_cost fe))
         \<and> (if fill_side f = BUY
            then exact (q + fill_qty f) \<and> exact cost \<and> exact n \<and> exact (cost + n)
                 \<and> exact ((cost + n) / (q + fill_qty f)) \<and> exact (r - fee)
            else (let a = cost / q in
              exact (q - fill_qty f) \<and> exact (fill_price f - a)
              \<and> exact ((fill_price f - a) * fill_qty f) \<and> exact ((fill_price f - a) * fill_qty f - fee)
              \<and> exact (r + ((fill_price f - a) * fill_qty f - fee)))))"

fun exact_run :: "ledger_state \<Rightarrow> ledger_input list \<Rightarrow> bool" where
  "exact_run st [] = True"
| "exact_run st ((fp, fb, fe) # xs) =
     (exact_fill st fe \<and> cash_matches fe
      \<and> (case ledger_step st (fp, fb, fe) of Inl _ \<Rightarrow> True | Inr st' \<Rightarrow> exact_run st' xs))"

definition book_value :: "ledger_state \<Rightarrow> rat" where
  "book_value st = cash_total (snd st) - realized_total (fst st) + cost_basis (fst st)"

lemma before_simps:
  "held (position_before fe c) = held c" "realized_total (position_before fe c) = realized_total c"
  "cost_basis (position_before fe c) = cost_basis c"
  by (cases c; simp add: position_before_def held_def realized_total_def cost_basis_def)+

lemma ledger_step_book_value:
  assumes step: "ledger_step (current, bal) (fp, fb, fe) = Inr st"
    and x: "exact_fill (current, bal) fe" "cash_matches fe"
  shows "book_value st = book_value (current, bal)"
proof -
  obtain q d b where st: "st = (Some q, Some b)" and sf: "side_fill fp fe (position_before fe current) = Inr (q, d)"
    and cf: "apply_cash_flow fb fe bal = Inr b"
    using step by (rule ledger_stepD)
  let ?f = "fe_fill fe" and ?fee = "cb_total_fee (fe_cost fe)" and ?B = "position_before fe current"
  have cash: "bal_total b = cash_total bal + cb_net_cash_flow (fe_cost fe)"
    using apply_cash_flow_D(2) [OF cf] x(1)
    by (simp add: cash_total_def dec_add_def exact_fill_def Let_def exact_def)
  have "pos_realized_pnl q - cost_basis (Some q) =
          realized_total current - cost_basis current + cb_net_cash_flow (fe_cost fe)"
  proof (cases "fill_side ?f = BUY")
    case True
    then have buy: "apply_buy_fill fp fe ?B = Inr (q, d)"
      using sf by (simp add: side_fill_def)
    have e: "ctx (held ?B + fill_qty ?f) = held ?B + fill_qty ?f" "ctx (cost_basis ?B) = cost_basis ?B"
      "ctx (fill_qty ?f * fill_price ?f) = fill_qty ?f * fill_price ?f"
      "ctx (cost_basis ?B + fill_qty ?f * fill_price ?f) = cost_basis ?B + fill_qty ?f * fill_price ?f"
      "ctx ((cost_basis ?B + fill_qty ?f * fill_price ?f) / (held ?B + fill_qty ?f))
         = (cost_basis ?B + fill_qty ?f * fill_price ?f) / (held ?B + fill_qty ?f)"
      "ctx (realized_total ?B - ?fee) = realized_total ?B - ?fee"
      using x(1) True by (simp_all add: exact_fill_def exact_def Let_def before_simps)
    have h: "(case ?B of None \<Rightarrow> 0 | Some p \<Rightarrow> pos_qty p) = held ?B"
      "(case ?B of None \<Rightarrow> 0 | Some p \<Rightarrow> pos_realized_pnl p) = realized_total ?B"
      by (simp_all add: held_def realized_total_def)
    have cb: "held ?B * (case ?B of None \<Rightarrow> 0 | Some p \<Rightarrow> (case pos_avg_entry_price p of None \<Rightarrow> 0 | Some a \<Rightarrow> a))
        = cost_basis ?B"
      by (simp add: held_def cost_basis_def split: option.split)
    have nz: "held ?B + fill_qty ?f \<noteq> 0"
      and av: "pos_avg_entry_price q = Some ((cost_basis ?B + fill_qty ?f * fill_price ?f) / (held ?B + fill_qty ?f))"
      using buy e
      by (auto simp: apply_buy_fill_def Let_def h cb dec_defs dec_div_def fill_notional_def make_position_iff
          normalize_position_def split: if_splits)
    have "cost_basis (Some q) = cost_basis ?B + fill_qty ?f * fill_price ?f"
      using apply_buy_fill_D(2) [OF buy] e(1) h(1) av nz by (simp add: cost_basis_def dec_add_def)
    moreover have "pos_realized_pnl q = realized_total ?B - ?fee"
      using apply_buy_fill_D(4) [OF buy] e(6) h(2) by (simp add: dec_sub_def)
    ultimately show ?thesis
      using x(2) True by (simp add: before_simps cash_matches_def)
  next
    case False
    then have "apply_sell_fill fe ?B = Inr (q, d)"
      using sf by (simp add: side_fill_def)
    then obtain p avg where p: "?B = Some p" "pos_avg_entry_price p = Some avg" "pos_qty p \<noteq> 0"
      "d = dec_sub (dec_mul (dec_sub (fill_price ?f) avg) (fill_qty ?f)) ?fee"
      "pos_qty q = dec_sub (pos_qty p) (fill_qty ?f)" "pos_realized_pnl q = dec_add (pos_realized_pnl p) d"
      "pos_avg_entry_price q = (if pos_qty q = 0 then None else Some avg)"
      by (rule apply_sell_fill_D)
    have c: "cost_basis current = pos_qty p * avg" "held current = pos_qty p"
      "realized_total current = pos_realized_pnl p"
      using before_simps [of fe current] p(1,2) by (simp_all add: cost_basis_def held_def realized_total_def)
    then have a: "cost_basis current / held current = avg"
      using p(3) by simp
    have e: "pos_qty q = pos_qty p - fill_qty ?f" "d = (fill_price ?f - avg) * fill_qty ?f - ?fee"
      "pos_realized_pnl q = pos_realized_pnl p + d"
      using x(1) False p(4-6) a c by (simp_all add: exact_fill_def exact_def Let_def dec_defs)
    have "cost_basis (Some q) = (pos_qty p - fill_qty ?f) * avg"
      using p(7) e(1) by (simp add: cost_basis_def split: if_splits)
    then show ?thesis
      using x(2) False e c by (simp add: cash_matches_def algebra_simps)
  qed
  then show ?thesis
    using st cash by (simp add: book_value_def cash_total_def realized_total_def)
qed

lemma ledger_run_book_value:
  assumes "res_fold ledger_step st xs = Inr st'" "exact_run st xs"
  shows "book_value st' = book_value st"
  using assms
proof (induction xs arbitrary: st)
  case (Cons x xs)
  obtain current bal fp fb fe where st: "st = (current, bal)" and x: "x = (fp, fb, fe)"
    by (metis prod_cases3 surj_pair)
  obtain st1 where "ledger_step (current, bal) (fp, fb, fe) = Inr st1" "res_fold ledger_step st1 xs = Inr st'"
    using Cons.prems(1) st x by auto
  then show ?case
    using Cons st x ledger_step_book_value by (simp add: st x)
qed simp

section \<open>Identifiers carry no weight\<close>

text \<open>Positions, balances and fill events that differ in the identifiers of their rows only.\<close>

definition same_position :: "position option \<Rightarrow> position option \<Rightarrow> bool" where
  "same_position c d \<longleftrightarrow>
     (case (c, d) of (None, None) \<Rightarrow> True | (Some p, Some q) \<Rightarrow> \<exists>i. q = p\<lparr>pos_id := i\<rparr> | _ \<Rightarrow> False)"

definition same_balance :: "balance_snapshot option \<Rightarrow> balance_snapshot option \<Rightarrow> bool" where
  "same_balance c d \<longleftrightarrow>
     (case (c, d) of (None, None) \<Rightarrow> True | (Some b, Some a) \<Rightarrow> \<exists>i. a = b\<lparr>bal_id := i\<rparr> | _ \<Rightarrow> False)"

lemma same_position_simps [simp]:
  "same_position None None" "\<not> same_position None (Some q)" "\<not> same_position (Some p) None"
  "same_position (Some p) (Some q) \<longleftrightarrow> (\<exists>i. q = p\<lparr>pos_id := i\<rparr>)"
  by (simp_all add: same_position_def)

lemma same_balance_simps [simp]:
  "same_balance None None" "\<not> same_balance None (Some q)" "\<not> same_balance (Some p) None"
  "same_balance (Some b) (Some a) \<longleftrightarrow> (\<exists>i. a = b\<lparr>bal_id := i\<rparr>)"
  by (simp_all add: same_balance_def)

lemma same_refl [simp]: "same_position c c" "same_balance b b"
  by (cases c; auto intro: exI [of _ "pos_id (the c)"])
     (cases b; auto intro: exI [of _ "bal_id (the b)"])

lemma make_position_id:
  "make_position (p\<lparr>pos_id := i\<rparr>) = res_map (\<lambda>q. q\<lparr>pos_id := i\<rparr>) (make_position p)"
proof -
  have "normalize_position (p\<lparr>pos_id := i\<rparr>) = (normalize_position p)\<lparr>pos_id := i\<rparr>"
    by (simp add: normalize_position_def)
  moreover have "position_rules (q\<lparr>pos_id := i\<rparr>) = position_rules q" for q
    by (simp add: position_rules_def)
  ultimately show ?thesis
    by (cases "checks (position_rules (normalize_position p))") (simp_all add: make_position_def Let_def)
qed

lemma make_balance_id:
  "make_balance (b\<lparr>bal_id := i\<rparr>) = res_map (\<lambda>q. q\<lparr>bal_id := i\<rparr>) (make_balance b)"
proof -
  have "normalize_balance (b\<lparr>bal_id := i\<rparr>) = (normalize_balance b)\<lparr>bal_id := i\<rparr>"
    by (simp add: normalize_balance_def)
  moreover have "balance_rules (q\<lparr>bal_id := i\<rparr>) = balance_rules q" for q
    by (simp add: balance_rules_def)
  ultimately show ?thesis
    by (cases "checks (balance_rules (normalize_balance b))") (simp_all add: make_balance_def Let_def)
qed

lemma release_id:
  "rel_position (release_position_sellable_qty (p\<lparr>pos_id := i\<rparr>) d t) =
     (rel_position (release_position_sellable_qty p d t))\<lparr>pos_id := i\<rparr>"
  by (simp add: release_position_sellable_qty_def)

lemma apply_buy_fill_id:
  assumes "same_position c d" "apply_buy_fill fresh fe c = Inr (q, delta)"
  shows "\<exists>i. apply_buy_fill fresh' (fe\<lparr>fe_id := e\<rparr>) d = Inr (q\<lparr>pos_id := i\<rparr>, delta)"
proof -
  let ?i = "case d of None \<Rightarrow> fresh' | Some p \<Rightarrow> pos_id p"
  have "apply_buy_fill fresh' (fe\<lparr>fe_id := e\<rparr>) d = Inr (q\<lparr>pos_id := ?i\<rparr>, delta)"
    using assms
    by (cases c; cases d)
       (auto simp: apply_buy_fill_def Let_def dec_div_def make_position_iff position_ok_def
          position_rules_def normalize_position_def split: if_splits)
  then show ?thesis
    by blast
qed

lemma apply_sell_fill_id:
  assumes "same_position c d" "apply_sell_fill fe c = Inr (q, delta)"
  shows "\<exists>i. apply_sell_fill (fe\<lparr>fe_id := e\<rparr>) d = Inr (q\<lparr>pos_id := i\<rparr>, delta)"
proof -
  from assms(2) obtain p where c: "c = Some p"
    by (rule apply_sell_fill_D)
  then obtain i where d: "d = Some (p\<lparr>pos_id := i\<rparr>)"
    using assms(1) by (cases d) auto
  have swap: "(p\<lparr>pos_id := i, pos_qty := a, pos_sellable_qty := b, pos_avg_entry_price := v, pos_mark_price := m,
      pos_unrealized_pnl := w, pos_realized_pnl := z, pos_status := s, pos_updated_at := t\<rparr>)
    = (p\<lparr>pos_qty := a, pos_sellable_qty := b, pos_avg_entry_price := v, pos_mark_price := m,
      pos_unrealized_pnl := w, pos_realized_pnl := z, pos_status := s, pos_updated_at := t\<rparr>)\<lparr>pos_id := i\<rparr>"
    for a b v m w z s t
    by simp
  have "apply_sell_fill (fe\<lparr>fe_id := e\<rparr>) d = Inr (q\<lparr>pos_id := i\<rparr>, delta)"
    using assms(2)
    by (auto simp: apply_sell_fill_def c d Let_def swap make_position_id simp del: position.update_convs
        split: option.splits if_splits)
  then show ?thesis
    by blast
qed

lemma apply_cash_flow_id:
  assumes "same_balance b d" "apply_cash_flow fresh fe b = Inr r"
  shows "\<exists>i. apply_cash_flow fresh' (fe\<lparr>fe_id := e\<rparr>) d = Inr (r\<lparr>bal_id := i\<rparr>)"
proof -
  have "apply_cash_flow fresh' (fe\<lparr>fe_id := e\<rparr>) d = Inr (r\<lparr>bal_id := fresh'\<rparr>)"
    using assms
    by (cases b; cases d)
       (auto simp: apply_cash_flow_def Let_def make_balance_iff balance_ok_def balance_rules_def
          validate_balance_matches_fill_def normalize_balance_def split: if_splits)
  then show ?thesis
    by blast
qed

lemma same_position_before:
  assumes "same_position c d"
  shows "same_position (position_before fe c) (position_before (fe\<lparr>fe_id := e\<rparr>) d)"
  using assms by (cases c; cases d) (auto simp: position_before_def release_id)

lemma apply_fill_id:
  assumes "same_position c d" "same_balance b a"
    and "apply_fill_event_to_portfolio fp fb fe c b = Inr u"
  shows "\<exists>v. apply_fill_event_to_portfolio fp' fb' (fe\<lparr>fe_id := e\<rparr>) d a = Inr v
           \<and> same_position (Some (pu_position u)) (Some (pu_position v))
           \<and> same_balance (Some (pu_balance u)) (Some (pu_balance v))"
proof -
  have m: "position_matches fe c" and s: "side_fill fp fe (position_before fe c) = Inr (pu_position u, pu_realized_delta u)"
    and cf: "apply_cash_flow fb fe b = Inr (pu_balance u)"
    using assms(3) by (simp_all add: apply_fill_iff)
  have m': "position_matches (fe\<lparr>fe_id := e\<rparr>) d"
    using m assms(1) by (cases c; cases d) (auto simp: position_matches_def validate_position_matches_fill_def)
  obtain i where s': "side_fill fp' (fe\<lparr>fe_id := e\<rparr>) (position_before (fe\<lparr>fe_id := e\<rparr>) d)
      = Inr ((pu_position u)\<lparr>pos_id := i\<rparr>, pu_realized_delta u)"
    using s apply_buy_fill_id [OF same_position_before [OF assms(1)]]
      apply_sell_fill_id [OF same_position_before [OF assms(1)]]
    by (simp add: side_fill_def split: if_splits) blast+
  obtain j where c': "apply_cash_flow fb' (fe\<lparr>fe_id := e\<rparr>) a = Inr ((pu_balance u)\<lparr>bal_id := j\<rparr>)"
    using apply_cash_flow_id [OF assms(2) cf] by blast
  define v where "v = \<lparr>pu_position = (pu_position u)\<lparr>pos_id := i\<rparr>, pu_balance = (pu_balance u)\<lparr>bal_id := j\<rparr>,
    pu_released_qty = (case d of None \<Rightarrow> 0 | Some p \<Rightarrow>
         rel_released_qty (release_position_sellable_qty p (date_of (fe_event_time fe)) (fe_event_time fe))),
    pu_realized_delta = pu_realized_delta u, pu_cash_delta = cb_net_cash_flow (fe_cost fe)\<rparr>"
  have "apply_fill_event_to_portfolio fp' fb' (fe\<lparr>fe_id := e\<rparr>) d a = Inr v"
    using m' s' c' by (simp add: apply_fill_iff v_def split: option.split)
  then show ?thesis
    by (intro exI [of _ v]) (auto simp: v_def)
qed

section \<open>Properties\<close>

text \<open>Fill events, one at a time, with the identifiers of the rows they may create.\<close>

definition sample_input :: "rat \<Rightarrow> order_side \<Rightarrow> ledger_input" where
  "sample_input qty side = (21, 31, sample_fill_event qty side)"

definition sample_ledger :: "rat \<Rightarrow> rat \<Rightarrow> ledger_state" where
  "sample_ledger qty sellable = (Some (sample_position qty sellable), Some (sample_balance 100000))"

definition sample_run :: "ledger_input list" where
  "sample_run = [sample_input 100 SELL, sample_input 50 SELL]"

definition sample_after :: "rat \<Rightarrow> rat \<Rightarrow> rat \<Rightarrow> rat \<Rightarrow> ledger_state" where
  "sample_after qty sellable realized cash =
     (Some ((sample_position qty sellable)\<lparr>pos_mark_price := Some 40, pos_unrealized_pnl := qty,
        pos_realized_pnl := realized, pos_updated_at := sample_time + us_per_second\<rparr>),
      Some ((sample_balance cash)\<lparr>bal_snapshot_time := sample_time + us_per_second,
        bal_created_at := sample_time + us_per_second\<rparr>))"

lemma ledger_stepI:
  assumes "position_matches fe c" "side_fill fp fe (position_before fe c) = Inr (q, d)"
    and "apply_cash_flow fb fe bal = Inr b"
  shows "ledger_step (c, bal) (fp, fb, fe) = Inr (Some q, Some b)"
proof -
  let ?u = "\<lparr>pu_position = q, pu_balance = b, pu_released_qty = (case c of None \<Rightarrow> 0 | Some p \<Rightarrow>
       rel_released_qty (release_position_sellable_qty p (date_of (fe_event_time fe)) (fe_event_time fe))),
     pu_realized_delta = d, pu_cash_delta = cb_net_cash_flow (fe_cost fe)\<rparr>"
  have "apply_fill_event_to_portfolio fp fb fe c bal = Inr ?u"
    using assms by (simp add: apply_fill_iff split: option.split)
  then show ?thesis
    by (simp add: ledger_step.simps)
qed

lemma sample_first_step:
  "ledger_step (sample_ledger 300 200) (sample_input 100 SELL) = Inr (sample_after 200 100 99 103999)"
  unfolding sample_ledger_def sample_after_def sample_input_def
  by (rule ledger_stepI [where d = 99]; code_simp)

lemma sample_second_step:
  "ledger_step (sample_after 200 100 99 103999) (sample_input 50 SELL) = Inr (sample_after 150 50 148 105998)"
  unfolding sample_after_def sample_input_def by (rule ledger_stepI [where d = 49]; code_simp)

lemmas sample_steps = sample_first_step sample_second_step

lemma sample_exact:
  "exact_fill (sample_ledger 300 200) (sample_fill_event 100 SELL)" "cash_matches (sample_fill_event 100 SELL)"
  "exact_fill (sample_after 200 100 99 103999) (sample_fill_event 50 SELL)" "cash_matches (sample_fill_event 50 SELL)"
  by code_simp+

lemma sample_ledger_runs:
  "res_fold ledger_step (sample_ledger 300 200) sample_run = Inr (sample_after 150 50 148 105998)"
  "exact_run (sample_ledger 300 200) sample_run"
  using sample_steps sample_exact by (simp_all add: sample_run_def sample_input_def)

lemma sample_ledger_ok:
  "ledger_ok (sample_ledger 300 200)"
  "\<forall>(fp, fb, fe) \<in> set sample_run. fill_event_ok fe \<and> date_of (fe_event_time fe) = date_of sample_time
           \<and> on_grid (- 10) (fill_qty (fe_fill fe))"
  "on_grid (- 10) (sellable_on (date_of sample_time) (fst (sample_ledger 300 200)))"
  by code_simp+

definition covered :: "fill_event \<Rightarrow> position option \<Rightarrow> balance_snapshot \<Rightarrow> bool" where
  "covered fe current b \<longleftrightarrow>
     sold_qty fe \<le> sellable_on (date_of (fe_event_time fe)) current
   \<and> 0 \<le> bal_available b + cb_net_cash_flow (fe_cost fe)"

lemma before_known:
  assumes "\<forall>p. current = Some p \<longrightarrow> position_ok p"
  shows "\<forall>p. position_before fe current = Some p \<longrightarrow> position_ok p"
    and "(case position_before fe current of None \<Rightarrow> 0 | Some p \<Rightarrow> pos_sellable_qty p)
           = sellable_on (date_of (fe_event_time fe)) current"
  using assms before_sellable(1) [of current None fe]
  by (auto simp: position_before_def release_ok ledger_ok_def split: option.splits)

lemma sellable_on_bounds:
  "\<forall>p. current = Some p \<longrightarrow> position_ok p \<Longrightarrow> 0 \<le> sellable_on d current \<and> sellable_on d current \<le> held current"
  using position_okD(1-3) by (fastforce simp: sellable_on_def held_def split: option.splits)

lemma side_fill_accepts_iff:
  assumes cur: "\<forall>p. current = Some p \<longrightarrow> position_ok p" and fe: "fill_event_ok fe"
    and grid: "on_grid e (sellable_on (date_of (fe_event_time fe)) current)"
  shows "is_ok (side_fill fresh fe (position_before fe current))
     \<longleftrightarrow> sold_qty fe \<le> sellable_on (date_of (fe_event_time fe)) current"
proof (cases "fill_side (fe_fill fe) = BUY")
  case True
  have "\<And>p. position_before fe current = Some p \<Longrightarrow> position_ok p \<and> ctx (pos_sellable_qty p) = pos_sellable_qty p"
    using before_known [OF cur, of fe] grid by (auto simp: ctx_exact)
  from buy_fill_accepts [OF this fe] sellable_on_bounds [OF cur] True show ?thesis
    by (auto simp: side_fill_def is_ok_iff sold_qty_def)
next
  case False
  have pos: "0 < fill_qty (fe_fill fe)"
    using fill_okD(1) [OF fill_event_okD(1) [OF fe]] by simp
  show ?thesis
  proof (cases "position_before fe current")
    case None
    then show ?thesis
      using before_known(2) [OF cur, of fe] False pos
      by (simp add: side_fill_def apply_sell_fill_def is_ok_iff sold_qty_def)
  next
    case (Some p)
    then have "is_ok (apply_sell_fill fe (Some p)) \<longleftrightarrow> fill_qty (fe_fill fe) \<le> pos_sellable_qty p"
      using sell_fill_accepts [OF _ fe] before_known(1) [OF cur, of fe] apply_sell_fill_D [of fe "Some p"]
      by (auto simp: is_ok_iff)
    then show ?thesis
      using before_known(2) [OF cur, of fe] Some False by (simp add: side_fill_def sold_qty_def)
  qed
qed

lemma fill_books_iff:
  assumes "\<forall>p. current = Some p \<longrightarrow> position_ok p" "balance_ok b" "fill_event_ok fe"
    and "position_matches fe current" "validate_balance_matches_fill b fe = Inr ()"
      "bal_asset b = cb_currency (fe_cost fe)"
    and "on_grid e (held current)" "on_grid e (sellable_on (date_of (fe_event_time fe)) current)"
      "on_grid e (fill_qty (fe_fill fe))" "held current + fill_qty (fe_fill fe) \<le> 10 ^ 28 * pow10 e"
    and "on_grid e (bal_total b)" "on_grid e (bal_available b)" "on_grid e (bal_locked b)"
      "on_grid e (cb_net_cash_flow (fe_cost fe))"
      "bal_available b + bal_locked b \<le> 10 ^ 28 * pow10 e"
      "bal_total b + cb_net_cash_flow (fe_cost fe) \<le> 10 ^ 28 * pow10 e"
  shows "case apply_fill_event_to_portfolio fp fb fe current (Some b) of
       Inl _ \<Rightarrow> \<not> covered fe current b
     | Inr u \<Rightarrow> covered fe current b \<and> position_ok (pu_position u) \<and> balance_ok (pu_balance u)
         \<and> pos_qty (pu_position u) = held current + bought_qty fe - sold_qty fe
         \<and> pos_sellable_qty (pu_position u)
             = sellable_on (date_of (fe_event_time fe)) current - sold_qty fe
         \<and> bal_total (pu_balance u) = bal_total b + cb_net_cash_flow (fe_cost fe)
         \<and> bal_available (pu_balance u) = bal_available b + cb_net_cash_flow (fe_cost fe)
         \<and> bal_locked (pu_balance u) = bal_locked b"
proof -
  let ?D = "date_of (fe_event_time fe)" and ?net = "cb_net_cash_flow (fe_cost fe)"
  note side = side_fill_accepts_iff [OF assms(1,3,8), of fp]
  note cash = cash_flow_accepts [OF assms(2,3,5,6,11-16), of fb]
  show ?thesis
  proof (cases "apply_fill_event_to_portfolio fp fb fe current (Some b)")
    case (Inl err)
    have False if cov: "covered fe current b"
    proof -
      from cov side obtain q d where q: "side_fill fp fe (position_before fe current) = Inr (q, d)"
        by (auto simp: covered_def is_ok_iff)
      from cov cash obtain b' where b': "apply_cash_flow fb fe (Some b) = Inr b'"
        by (auto simp: covered_def)
      from ledger_stepI [OF assms(4) q b'] Inl show False
        by (simp add: ledger_step.simps)
    qed
    then show ?thesis
      using Inl by auto
  next
    case (Inr u)
    then have s: "side_fill fp fe (position_before fe current) = Inr (pu_position u, pu_realized_delta u)"
      and c: "apply_cash_flow fb fe (Some b) = Inr (pu_balance u)"
      by (simp_all add: apply_fill_iff)
    have sold: "sold_qty fe \<le> sellable_on ?D current"
      using side s by simp
    have step: "ledger_step (current, Some b) (fp, fb, fe) = Inr (Some (pu_position u), Some (pu_balance u))"
      using Inr by (simp add: ledger_step.simps)
    have ok: "ledger_ok (current, Some b)"
      using assms(1,2) by (cases current) (simp_all add: ledger_ok_def)
    have "pos_updated_at (pu_position u) = fe_event_time fe"
      using step by (rule ledger_stepD) simp
    then have sellable: "pos_sellable_qty (pu_position u) = sellable_on ?D current - sold_qty fe"
      using ledger_step_sellable(1) [OF step ok assms(3) refl assms(8,9)] by (simp add: sellable_on_def)
    have "0 \<le> dec_add (bal_available b) ?net"
      using apply_cash_flow_D(1,3) [OF c] balance_okD(2) by fastforce
    then have room: "0 \<le> bal_available b + ?net"
      by (simp add: dec_add_def)
    from cash [OF room] c have money: "bal_total (pu_balance u) = bal_total b + ?net"
      "bal_available (pu_balance u) = bal_available b + ?net" "bal_locked (pu_balance u) = bal_locked b"
      by auto
    have h: "held (position_before fe current) = held current"
      by (rule before_simps)
    have fq: "0 < fill_qty (fe_fill fe)"
      using fill_okD(1) [OF fill_event_okD(1) [OF assms(3)]] by simp
    have qty: "pos_qty (pu_position u) = held current + bought_qty fe - sold_qty fe"
    proof (cases "fill_side (fe_fill fe) = BUY")
      case True
      then have "apply_buy_fill fp fe (position_before fe current) = Inr (pu_position u, pu_realized_delta u)"
        using s by (simp add: side_fill_def)
      from apply_buy_fill_D(2) [OF this] have "pos_qty (pu_position u) = dec_add (held current) (fill_qty (fe_fill fe))"
        using h by (simp add: held_def)
      moreover have "on_grid e (held current + fill_qty (fe_fill fe))"
        using assms(7,9,10) fq sellable_on_bounds [OF assms(1), of ?D] by (intro on_grid_add) simp_all
      ultimately show ?thesis
        using True by (simp add: dec_add_def ctx_exact bought_qty_def sold_qty_def)
    next
      case False
      then have "apply_sell_fill fe (position_before fe current) = Inr (pu_position u, pu_realized_delta u)"
        using s by (simp add: side_fill_def)
      then obtain p where p: "position_before fe current = Some p" "fill_qty (fe_fill fe) \<le> pos_qty p"
        "pos_qty (pu_position u) = dec_sub (pos_qty p) (fill_qty (fe_fill fe))"
        by (rule apply_sell_fill_D)
      then have "pos_qty p = held current"
        using h by (simp add: held_def)
      moreover from this have "on_grid e (held current - fill_qty (fe_fill fe))"
        using assms(7,9) p(2) fq by (intro on_grid_diff_le) simp_all
      ultimately show ?thesis
        using False p(3) by (simp add: dec_sub_def ctx_exact bought_qty_def sold_qty_def)
    qed
    show ?thesis
      using Inr sold room sellable money qty step by (auto simp: covered_def elim!: ledger_stepD)
  qed
qed

text \<open>
  A fill event, position and balance that belong together, are valid, and whose amounts the decimal
  context adds exactly: multiples of 10^e with room for the sums.
\<close>

definition bookable :: "int \<Rightarrow> fill_event \<Rightarrow> position option \<Rightarrow> balance_snapshot \<Rightarrow> bool" where
  "bookable e fe current b \<longleftrightarrow>
     ledger_ok (current, Some b) \<and> fill_event_ok fe \<and> position_matches fe current
   \<and> validate_balance_matches_fill b fe = Inr () \<and> bal_asset b = cb_currency (fe_cost fe)
   \<and> on_grid e (held current) \<and> on_grid e (sellable_on (date_of (fe_event_time fe)) current)
   \<and> on_grid e (fill_qty (fe_fill fe)) \<and> held current + fill_qty (fe_fill fe) \<le> 10 ^ 28 * pow10 e
   \<and> on_grid e (bal_total b) \<and> on_grid e (bal_available b) \<and> on_grid e (bal_locked b)
   \<and> on_grid e (cb_net_cash_flow (fe_cost fe))
   \<and> bal_available b + bal_locked b \<le> 10 ^ 28 * pow10 e
   \<and> bal_total b + cb_net_cash_flow (fe_cost fe) \<le> 10 ^ 28 * pow10 e"

text \<open>
  C17.  What the ledger books.  A fill of valid books is booked exactly when it is covered: a sale by
  what is sellable on its trade date, a debit by the available cash; otherwise it raises.  Booked, it
  leaves valid books in which the position holds the quantity bought more or the quantity sold less,
  a sale reduces the sellable quantity of the date and a purchase adds nothing to it, and total and
  available cash move by the cash flow of the fill while locked cash stays.
\<close>

theorem fill_booked_iff_covered:
  assumes "bookable e fe current b"
  shows "case apply_fill_event_to_portfolio fp fb fe current (Some b) of
       Inl _ \<Rightarrow> \<not> covered fe current b
     | Inr u \<Rightarrow> covered fe current b \<and> position_ok (pu_position u) \<and> balance_ok (pu_balance u)
         \<and> pos_qty (pu_position u) = held current + bought_qty fe - sold_qty fe
         \<and> pos_sellable_qty (pu_position u)
             = sellable_on (date_of (fe_event_time fe)) current - sold_qty fe
         \<and> bal_total (pu_balance u) = bal_total b + cb_net_cash_flow (fe_cost fe)
         \<and> bal_available (pu_balance u) = bal_available b + cb_net_cash_flow (fe_cost fe)
         \<and> bal_locked (pu_balance u) = bal_locked b"
proof -
  have "\<forall>p. current = Some p \<longrightarrow> position_ok p" "balance_ok b"
    using assms by (cases current; simp add: bookable_def ledger_ok_def)+
  from fill_books_iff [OF this] assms show ?thesis
    unfolding bookable_def by blast
qed

theorem fill_booked_iff_covered_witness:
  "(\<exists>u. apply_fill_event_to_portfolio 21 31 (sample_fill_event 100 SELL) (Some (sample_position 300 200))
        (Some (sample_balance 100000)) = Inr u \<and> pos_qty (pu_position u) = 200)
   \<and> \<not> is_ok (apply_fill_event_to_portfolio 21 31 (sample_fill_event 300 SELL) (Some (sample_position 300 200))
        (Some (sample_balance 100000)))"
proof -
  let ?p = "Some (sample_position 300 200)" and ?b = "sample_balance 100000"
  have "bookable (- 10) (sample_fill_event 100 SELL) ?p ?b" "bookable (- 10) (sample_fill_event 300 SELL) ?p ?b"
    by code_simp+
  moreover have "covered (sample_fill_event 100 SELL) ?p ?b" "\<not> covered (sample_fill_event 300 SELL) ?p ?b"
    "held ?p + bought_qty (sample_fill_event 100 SELL) - sold_qty (sample_fill_event 100 SELL) = 200"
    by code_simp+
  ultimately show ?thesis
    using fill_booked_iff_covered [of "- 10" "sample_fill_event 100 SELL" ?p ?b 21 31]
      fill_booked_iff_covered [of "- 10" "sample_fill_event 300 SELL" ?p ?b 21 31]
    by (simp add: is_ok_def split: sum.splits)
qed

text \<open>
  C18.  T+1.  Whatever is bought and sold within one trade date, the quantity sold is at most what
  was sellable when the date began, and the sellable quantity falls by exactly what is sold: nothing
  bought on a date is sold on it.
\<close>

theorem t_plus_one:
  assumes "res_fold ledger_step st xs = Inr st'" "ledger_ok st"
    and "\<forall>(fp, fb, fe) \<in> set xs. fill_event_ok fe \<and> date_of (fe_event_time fe) = D
           \<and> on_grid e (fill_qty (fe_fill fe))"
    and "on_grid e (sellable_on D (fst st))"
  shows "sellable_on D (fst st') = sellable_on D (fst st) - (\<Sum>(fp, fb, fe) \<leftarrow> xs. sold_qty fe)
         \<and> (\<Sum>(fp, fb, fe) \<leftarrow> xs. sold_qty fe) \<le> sellable_on D (fst st)"
  by (rule trade_date_sales [OF assms])

theorem t_plus_one_witness:
  "sellable_on (date_of sample_time) (fst (sample_after 150 50 148 105998))
      = sellable_on (date_of sample_time) (fst (sample_ledger 300 200)) - (\<Sum>(fp, fb, fe) \<leftarrow> sample_run. sold_qty fe)"
  using t_plus_one [OF sample_ledger_runs(1) sample_ledger_ok] by blast

text \<open>
  C19.  The accounting identity.  Cash plus the cost of what is held minus the realized result never
  changes: fees, sales and purchases only move value between the three, as long as no intermediate
  result needs more than 28 digits.
\<close>

theorem book_value_preserved:
  assumes "res_fold ledger_step st xs = Inr st'" "exact_run st xs"
  shows "book_value st' = book_value st"
  by (rule ledger_run_book_value [OF assms])

theorem book_value_preserved_witness: "book_value (sample_after 150 50 148 105998) = book_value (sample_ledger 300 200)"
  by (rule book_value_preserved [OF sample_ledger_runs])

text \<open>
  Sales are accepted when covered: a valid sell fill of no more than the sellable quantity of
  a valid position is always booked, and one beyond it always refused.
\<close>

lemma sell_booked_iff_sellable:
  assumes "position_ok p" "fill_event_ok fe"
  shows "is_ok (apply_sell_fill fe (Some p)) = (fill_qty (fe_fill fe) \<le> pos_sellable_qty p)"
  using sell_fill_accepts [OF assms] apply_sell_fill_D [of fe "Some p"] by (auto simp: is_ok_iff)

end
