(* ===== verification/Order_Flow.thy ===== *)
theory Order_Flow
  imports Orders Signals Portfolio Symbol_Rules Samples
begin

text \<open>
  From signals to orders: src/src/domain/execution/oms.py.  The sizing plan that turns a target
  position into an executable quantity, the identities derived from signals and intents, the
  promotion of an intent to an order and the application of execution updates to it.

  SHA-1 based uuid5 is the argument u5 (the text in the URL namespace to the identifier); the
  default identifier (uuid4) and the current time are arguments.
\<close>

section \<open>Sizing plans\<close>

record order_plan =
  plan_signal :: signal
  plan_side :: "order_side option"
  plan_qty :: rat
  plan_target :: rat
  plan_current_qty :: rat
  plan_current_sellable :: rat
  plan_raw_delta :: rat
  plan_decision_price :: rat
  plan_market_context :: market_state
  plan_reduce_only :: bool
  plan_odd_lot_sell :: bool
  plan_skip_reason :: "string option"
  plan_order_type :: order_type
  plan_tif :: time_in_force
  plan_price :: "rat option"

definition plan_actionable :: "order_plan \<Rightarrow> bool" where
  "plan_actionable p \<longleftrightarrow> plan_side p \<noteq> None \<and> 0 < plan_qty p \<and> plan_skip_reason p = None"

text \<open>value or default, for texts: None and the empty text are false.\<close>

definition or_text :: "string option \<Rightarrow> string \<Rightarrow> string" where
  "or_text x d = (case x of None \<Rightarrow> d | Some s \<Rightarrow> if s = [] then d else s)"

definition or_text_option :: "string option \<Rightarrow> string option \<Rightarrow> string option" where
  "or_text_option x d = (case x of None \<Rightarrow> d | Some s \<Rightarrow> if s = [] then d else Some s)"

definition build_order_intent_idempotency_key :: "signal \<Rightarrow> string" where
  "build_order_intent_idempotency_key s =
     ''signalark:signal:'' @ uuid_str (sig_id s) @ '':order_intent''"

definition build_order_id_for_intent :: "(string \<Rightarrow> uuid) \<Rightarrow> uuid \<Rightarrow> uuid" where
  "build_order_id_for_intent u5 intent_id = u5 (''signalark:order:'' @ uuid_str intent_id)"

definition to_order_intent ::
  "uuid \<Rightarrow> datetime \<Rightarrow> order_plan \<Rightarrow> string option \<Rightarrow> datetime option \<Rightarrow> order_intent res" where
  "to_order_intent fresh now p idempotency_key created_at =
     (case plan_side p of
        None \<Rightarrow> Inl (SignalOrderIntentError ''Cannot build OrderIntent from a non-actionable plan'')
      | Some side \<Rightarrow>
          if \<not> plan_actionable p
          then Inl (SignalOrderIntentError ''Cannot build OrderIntent from a non-actionable plan'')
          else make_order_intent
            \<lparr>int_id = fresh, int_signal_id = sig_id (plan_signal p),
             int_strategy = sig_strategy (plan_signal p), int_run_id = sig_run_id (plan_signal p),
             int_account = sig_account (plan_signal p), int_exchange = sig_exchange (plan_signal p),
             int_symbol = sig_symbol (plan_signal p), int_side = side,
             int_type = plan_order_type p, int_tif = plan_tif p, int_qty = plan_qty p,
             int_price = plan_price p, int_decision_price = Some (plan_decision_price p),
             int_reduce_only = plan_reduce_only p,
             int_market_context = Some (plan_market_context p),
             int_idempotency_key =
               or_text idempotency_key (build_order_intent_idempotency_key (plan_signal p)),
             int_status = INTENT_NEW, int_risk_decision = ALLOW, int_risk_reason = None,
             int_created_at = (case created_at of None \<Rightarrow> now | Some t \<Rightarrow> t)\<rparr>)"

definition validate_position_matches_signal :: "signal \<Rightarrow> position option \<Rightarrow> unit res" where
  "validate_position_matches_signal s current =
     (case current of
        None \<Rightarrow> Inr ()
      | Some p \<Rightarrow> checks
          [(pos_account p \<noteq> sig_account s,
              SignalOrderIntentError ''current_position.account_id must match signal.account_id''),
           (pos_exchange p \<noteq> sig_exchange s,
              SignalOrderIntentError ''current_position.exchange must match signal.exchange''),
           (pos_symbol p \<noteq> sig_symbol s,
              SignalOrderIntentError ''current_position.symbol must match signal.symbol'')])"

definition floor_to_step :: "rat \<Rightarrow> rat \<Rightarrow> rat res" where
  "floor_to_step amount step =
     (if amount \<le> 0 then Inr 0
      else res_map (\<lambda>q. dec_mul (of_int (round_down q)) step) (dec_div amount step))"

definition build_signal_order_intent_plan ::
  "signal \<Rightarrow> symbol_rule \<Rightarrow> position option \<Rightarrow> rat \<Rightarrow> market_state \<Rightarrow> order_type \<Rightarrow> rat option
     \<Rightarrow> order_plan res" where
  "build_signal_order_intent_plan s rule current decision_price context otype price =
     (if decision_price \<le> 0
      then Inl (SignalOrderIntentError ''decision_price must be positive'')
      else res_bind (validate_position_matches_signal s current) (\<lambda>_.
        let current_qty = (case current of None \<Rightarrow> 0 | Some p \<Rightarrow> pos_qty p);
            current_sellable = (case current of None \<Rightarrow> 0 | Some p \<Rightarrow> pos_sellable_qty p);
            raw_delta = dec_sub (sig_target s) current_qty;
            plan = (\<lambda>side qty reduce_only odd_lot skip.
              \<lparr>plan_signal = s, plan_side = side, plan_qty = qty, plan_target = sig_target s,
               plan_current_qty = current_qty, plan_current_sellable = current_sellable,
               plan_raw_delta = raw_delta, plan_decision_price = decision_price,
               plan_market_context = context, plan_reduce_only = reduce_only,
               plan_odd_lot_sell = odd_lot, plan_skip_reason = skip, plan_order_type = otype,
               plan_tif = DAY, plan_price = price\<rparr>)
        in if raw_delta = 0
           then Inr (plan None 0 False False (Some ''target_position_already_satisfied''))
           else if 0 < raw_delta
           then res_map (\<lambda>normalized_qty.
                  if normalized_qty < rule_min_qty rule
                  then plan None 0 False False (Some ''normalized_buy_qty_below_min_qty'')
                  else plan (Some BUY) normalized_qty False False None)
                (floor_to_step raw_delta (rule_qty_step rule))
           else
             let desired_sell_qty = min (dec_abs raw_delta) current_sellable
             in if desired_sell_qty \<le> 0
                then Inr (plan None 0 True False (Some ''sellable_qty_exhausted''))
                else
                  let odd_lot_sell = 0 < current_sellable \<and> current_sellable < rule_lot_size rule
                        \<and> rule_allow_odd_lot_sell rule \<and> current_sellable \<le> desired_sell_qty
                  in if odd_lot_sell
                     then Inr (plan (Some SELL) current_sellable True True None)
                     else res_map (\<lambda>normalized_qty.
                            if normalized_qty < rule_min_qty rule
                            then plan None 0 True False (Some ''normalized_sell_qty_below_min_qty'')
                            else plan (Some SELL) normalized_qty True False None)
                          (floor_to_step desired_sell_qty (rule_qty_step rule))))"

section \<open>Orders from intents, updates onto orders\<close>

definition create_order_from_intent ::
  "(string \<Rightarrow> uuid) \<Rightarrow> datetime \<Rightarrow> order_intent \<Rightarrow> uuid option \<Rightarrow> string option \<Rightarrow> datetime option
     \<Rightarrow> order_status \<Rightarrow> order res" where
  "create_order_from_intent u5 now i order_id exchange_order_id submitted_at status =
     (let timestamp = (case submitted_at of None \<Rightarrow> now | Some t \<Rightarrow> t)
      in make_order
        \<lparr>ord_id = (case order_id of None \<Rightarrow> build_order_id_for_intent u5 (int_id i) | Some u \<Rightarrow> u),
         ord_intent_id = int_id i, ord_run_id = int_run_id i,
         ord_exchange_order_id = exchange_order_id, ord_account = int_account i,
         ord_exchange = int_exchange i, ord_symbol = int_symbol i, ord_side = int_side i,
         ord_type = int_type i, ord_tif = int_tif i, ord_qty = int_qty i, ord_price = int_price i,
         ord_filled_qty = 0, ord_avg_fill_price = None, ord_status = status,
         ord_submitted_at = timestamp, ord_updated_at = timestamp,
         ord_error_code = None, ord_error_message = None\<rparr>)"

definition update_guards :: "order \<Rightarrow> order_update \<Rightarrow> (bool \<times> fault) list" where
  "update_guards r u =
     [(ord_id r \<noteq> upd_order_id u, ValueError ''order.id must match update.order_id''),
      (ord_intent_id r \<noteq> upd_intent_id u,
         ValueError ''order.order_intent_id must match update.order_intent_id''),
      (ord_run_id r \<noteq> upd_run_id u, ValueError ''order.trader_run_id must match update.trader_run_id''),
      (ord_account r \<noteq> upd_account u, ValueError ''order.account_id must match update.account_id''),
      (ord_exchange r \<noteq> upd_exchange u, ValueError ''order.exchange must match update.exchange''),
      (ord_symbol r \<noteq> upd_symbol u, ValueError ''order.symbol must match update.symbol''),
      (ord_exchange_order_id r \<noteq> None \<and> upd_exchange_order_id u \<noteq> None
         \<and> ord_exchange_order_id r \<noteq> upd_exchange_order_id u,
         ValueError ''update.exchange_order_id cannot replace an existing exchange_order_id'')]"

definition update_fields :: "order_update \<Rightarrow> order \<Rightarrow> order" where
  "update_fields u r =
     r\<lparr>ord_exchange_order_id := or_text_option (upd_exchange_order_id u) (ord_exchange_order_id r),
       ord_filled_qty := upd_filled_qty u, ord_avg_fill_price := upd_avg_fill_price u,
       ord_updated_at := upd_event_time u, ord_error_code := upd_error_code u,
       ord_error_message := upd_error_message u\<rparr>"

definition apply_order_update :: "order \<Rightarrow> order_update \<Rightarrow> order res" where
  "apply_order_update r u =
     res_bind (checks (update_guards r u)) (\<lambda>_. transition_to r (upd_status u) (update_fields u))"

definition execution_report_is_empty :: "execution_report \<Rightarrow> bool" where
  "execution_report_is_empty rep \<longleftrightarrow> rep_order_updates rep = [] \<and> rep_fill_events rep = []"

section \<open>Flooring to the quantity step\<close>

lemma floor_to_step_exact:
  assumes "sized e v" "sized e s" "0 < v" "0 < s"
  shows "floor_to_step v s = Inr (of_int \<lfloor>v / s\<rfloor> * s)"
proof -
  obtain a b where a: "v = of_int a * pow10 e" "\<bar>a\<bar> \<le> 10 ^ 27" and b: "s = of_int b * pow10 e"
    using assms by (metis sizedE)
  have ab: "0 < a" "a \<le> 10 ^ 27" "0 < b"
    using a b assms pow10_pos [of e] by (auto simp: zero_less_mult_iff)
  have q: "v / s = of_int a / of_int b"
    by (simp add: a b)
  have fl: "\<lfloor>v / s\<rfloor> = a div b"
    unfolding q by (rule floor_divide_of_int_eq)
  have "0 < ctx (v / s)"
    using assms by simp
  then have "round_down (ctx (v / s)) = a div b"
    using ctx_quotient_floor [OF ab] by (simp add: round_down_def q)
  moreover have "0 \<le> (a div b) * b" "(a div b) * b \<le> a"
    using ab div_bounds(1) [of b a] by (simp_all add: pos_imp_zdiv_nonneg_iff mult.commute)
  then have "ctx (of_int ((a div b) * b) * pow10 e) = of_int ((a div b) * b) * pow10 e"
    using ab by (intro ctx_exact [OF on_gridI]) simp
  ultimately show ?thesis
    using assms ab fl by (simp add: floor_to_step_def dec_div_def dec_mul_def b mult.assoc)
qed

text \<open>The floored quantity: a multiple of the step, not above the amount, less than one step below.\<close>

lemma floor_to_step_bounds:
  assumes "sized e v" "sized e s" "0 < s" "floor_to_step v s = Inr r"
  shows "is_multiple r s" "0 \<le> r" "0 \<le> v \<Longrightarrow> r \<le> v" "v < r + s"
proof -
  have "is_multiple r s \<and> 0 \<le> r \<and> (0 \<le> v \<longrightarrow> r \<le> v) \<and> v < r + s"
  proof (cases "0 < v")
    case False
    then show ?thesis
      using assms by (auto simp: floor_to_step_def is_multiple_def)
  next
    case True
    then have r: "r = of_int \<lfloor>v / s\<rfloor> * s"
      using floor_to_step_exact [OF assms(1,2)] assms by simp
    have "of_int \<lfloor>v / s\<rfloor> * s \<le> v / s * s" "v / s * s < (of_int \<lfloor>v / s\<rfloor> + 1) * s"
      by (rule mult_right_mono, linarith, use assms(3) in simp)
        (rule mult_strict_right_mono, linarith, rule assms(3))
    moreover have "0 \<le> of_int \<lfloor>v / s\<rfloor> * s"
      using True assms(3) by simp
    ultimately show ?thesis
      using True assms(3) unfolding r by (simp add: is_multiple_def algebra_simps)
  qed
  then show "is_multiple r s" "0 \<le> r" "0 \<le> v \<Longrightarrow> r \<le> v" "v < r + s"
    by blast+
qed

section \<open>The sizing contract\<close>

text \<open>
  The quantities a plan is computed from, all at most 27 digits on one grid: the condition
  under which the decimal arithmetic of the sizing is exact.
\<close>

definition sizing_inputs :: "int \<Rightarrow> signal \<Rightarrow> symbol_rule \<Rightarrow> position option \<Rightarrow> bool" where
  "sizing_inputs e s rule current \<longleftrightarrow>
     signal_ok s \<and> symbol_rule_ok rule \<and> sized e (sig_target s) \<and> sized e (rule_qty_step rule)
     \<and> (case current of None \<Rightarrow> True
        | Some p \<Rightarrow> position_ok p \<and> sized e (pos_qty p) \<and> sized e (pos_sellable_qty p))"

definition held_qty :: "position option \<Rightarrow> rat" where
  "held_qty current = (case current of None \<Rightarrow> 0 | Some p \<Rightarrow> pos_qty p)"

definition held_sellable :: "position option \<Rightarrow> rat" where
  "held_sellable current = (case current of None \<Rightarrow> 0 | Some p \<Rightarrow> pos_sellable_qty p)"

lemma held_simps [simp]:
  "held_qty None = 0" "held_qty (Some p) = pos_qty p"
  "held_sellable None = 0" "held_sellable (Some p) = pos_sellable_qty p"
  by (simp_all add: held_qty_def held_sellable_def)

lemma sizing_inputsD:
  assumes "sizing_inputs e s rule current"
  shows "0 \<le> sig_target s" "sized e (sig_target s)" "sized e (rule_qty_step rule)" "0 < rule_qty_step rule"
    "0 < rule_min_qty rule" "sized e (held_qty current)" "sized e (held_sellable current)"
    "0 \<le> held_qty current" "0 \<le> held_sellable current" "held_sellable current \<le> held_qty current"
    "dec_sub (sig_target s) (held_qty current) = sig_target s - held_qty current"
    "sized e (sig_target s - held_qty current)"
proof -
  show *: "0 \<le> sig_target s" "sized e (sig_target s)" "sized e (rule_qty_step rule)" "0 < rule_qty_step rule"
    "0 < rule_min_qty rule" "sized e (held_qty current)" "sized e (held_sellable current)"
    "0 \<le> held_qty current" "0 \<le> held_sellable current" "held_sellable current \<le> held_qty current"
    using assms by (auto simp: sizing_inputs_def symbol_rule_ok_def signal_ok_target position_okD
        split: option.splits)
  show "sized e (sig_target s - held_qty current)"
    by (rule sized_diff) (rule *)+
  then show "dec_sub (sig_target s) (held_qty current) = sig_target s - held_qty current"
    by (simp add: dec_sub_def ctx_sized)
qed

text \<open>The plan as a function of the signed gap between target and position.\<close>

lemma plan_cases:
  assumes "build_signal_order_intent_plan s rule current dp ctxt otype price = Inr p"
    and "sizing_inputs e s rule current"
  obtains (satisfied) "sig_target s = held_qty current" "plan_side p = None"
  | (buy_small) r where "held_qty current < sig_target s" "plan_side p = None"
      "floor_to_step (sig_target s - held_qty current) (rule_qty_step rule) = Inr r" "r < rule_min_qty rule"
  | (buy) "held_qty current < sig_target s" "plan_side p = Some BUY" "\<not> plan_reduce_only p"
      "floor_to_step (sig_target s - held_qty current) (rule_qty_step rule) = Inr (plan_qty p)"
      "rule_min_qty rule \<le> plan_qty p" "\<not> plan_odd_lot_sell p"
  | (exhausted) "sig_target s < held_qty current" "plan_side p = None" "held_sellable current = 0"
  | (odd_lot) "sig_target s < held_qty current" "plan_side p = Some SELL" "plan_odd_lot_sell p"
      "plan_reduce_only p" "plan_qty p = held_sellable current" "0 < held_sellable current"
      "held_sellable current < rule_lot_size rule"
      "held_sellable current \<le> held_qty current - sig_target s"
  | (sell_small) r where "sig_target s < held_qty current" "plan_side p = None"
      "floor_to_step (min (held_qty current - sig_target s) (held_sellable current)) (rule_qty_step rule)
         = Inr r" "r < rule_min_qty rule"
  | (sell) "sig_target s < held_qty current" "plan_side p = Some SELL" "\<not> plan_odd_lot_sell p"
      "plan_reduce_only p"
      "floor_to_step (min (held_qty current - sig_target s) (held_sellable current)) (rule_qty_step rule)
         = Inr (plan_qty p)" "rule_min_qty rule \<le> plan_qty p"
proof -
  note d = sizing_inputsD [OF assms(2)]
  have ab: "dec_abs (sig_target s - held_qty current) = \<bar>sig_target s - held_qty current\<bar>"
    by (simp add: dec_abs_def ctx_sized [OF sized_abs [OF d(12)]])
  note main = assms(1) [unfolded build_signal_order_intent_plan_def Let_def,
      folded held_qty_def held_sellable_def, unfolded d(11) ab]
  consider "sig_target s = held_qty current" | "held_qty current < sig_target s"
    | "sig_target s < held_qty current"
    by linarith
  then show thesis
  proof cases
    case 1
    then show thesis
      using main satisfied by (auto split: if_splits)
  next
    case 2
    then show thesis
      using main buy_small buy by (auto split: if_splits)
  next
    case 3
    then have m: "\<bar>sig_target s - held_qty current\<bar> = held_qty current - sig_target s"
      by simp
    show thesis
      using main 3 d(9) exhausted odd_lot sell_small sell unfolding m
      by (auto split: if_splits)
  qed
qed

text \<open>What every plan records of its inputs, and when it asks for an order.\<close>

lemma plan_fields:
  assumes "build_signal_order_intent_plan s rule current dp ctxt otype price = Inr p"
  shows "plan_signal p = s" "plan_target p = sig_target s" "plan_current_qty p = held_qty current"
    "plan_current_sellable p = held_sellable current"
    "plan_raw_delta p = dec_sub (sig_target s) (held_qty current)"
    "plan_decision_price p = dp" "plan_market_context p = ctxt" "plan_order_type p = otype"
    "plan_price p = price" "0 < dp"
    "plan_side p = None \<longleftrightarrow> plan_skip_reason p \<noteq> None"
    "plan_skip_reason p = Some ''target_position_already_satisfied''
       \<longleftrightarrow> dec_sub (sig_target s) (held_qty current) = 0"
  using assms [unfolded build_signal_order_intent_plan_def Let_def, folded held_qty_def held_sellable_def]
  by (auto split: if_splits)

lemma plan_actionable_iff:
  assumes "build_signal_order_intent_plan s rule current dp ctxt otype price = Inr p"
    and "sizing_inputs e s rule current"
  shows "plan_actionable p \<longleftrightarrow> plan_side p \<noteq> None"
proof -
  have "0 < plan_qty p" if "plan_side p \<noteq> None"
    using assms
    by (cases rule: plan_cases) (use that sizing_inputsD(5) [OF assms(2)] in auto)
  then show ?thesis
    using plan_fields(11) [OF assms(1)] by (auto simp: plan_actionable_def)
qed

text \<open>
  What a plan promises: a buy or a sell moves the position toward the target without passing
  it, in whole steps and as far as steps allow, never sells more than is sellable; an odd lot
  is sold only as a whole.
\<close>

definition plan_contract :: "signal \<Rightarrow> symbol_rule \<Rightarrow> position option \<Rightarrow> order_plan \<Rightarrow> bool" where
  "plan_contract s rule current p \<longleftrightarrow>
     (case plan_side p of
        None \<Rightarrow> True
      | Some BUY \<Rightarrow>
          held_qty current + plan_qty p \<le> sig_target s
          \<and> sig_target s < held_qty current + plan_qty p + rule_qty_step rule
          \<and> is_multiple (plan_qty p) (rule_qty_step rule) \<and> rule_min_qty rule \<le> plan_qty p
          \<and> \<not> plan_reduce_only p
      | Some SELL \<Rightarrow>
          sig_target s \<le> held_qty current - plan_qty p \<and> plan_qty p \<le> held_sellable current
          \<and> 0 < plan_qty p \<and> plan_reduce_only p
          \<and> (if plan_odd_lot_sell p
             then plan_qty p = held_sellable current \<and> plan_qty p < rule_lot_size rule
             else is_multiple (plan_qty p) (rule_qty_step rule) \<and> rule_min_qty rule \<le> plan_qty p))"

lemma plan_contract_holds:
  assumes "build_signal_order_intent_plan s rule current dp ctxt otype price = Inr p"
    and inputs: "sizing_inputs e s rule current"
  shows "plan_contract s rule current p"
proof -
  note d = sizing_inputsD [OF inputs]
  from assms show ?thesis
  proof (cases rule: plan_cases)
    case buy
    then show ?thesis
      using floor_to_step_bounds [OF d(12) d(3) d(4) buy(4)] by (simp add: plan_contract_def)
  next
    case sell
    have "sized e (held_qty current - sig_target s)"
      using d(12) sized_minus [of e "sig_target s - held_qty current"] by simp
    then have "sized e (min (held_qty current - sig_target s) (held_sellable current))"
      using d(7) by (simp add: min_def)
    from floor_to_step_bounds [OF this d(3) d(4) sell(5)] show ?thesis
      using sell d by (simp add: plan_contract_def)
  qed (simp_all add: plan_contract_def)
qed

text \<open>When sizing returns a plan: the arithmetic never fails, only the guards do.\<close>

lemma floor_to_step_total: "step \<noteq> 0 \<Longrightarrow> \<exists>r. floor_to_step v step = Inr r"
  by (simp add: floor_to_step_def dec_div_def)

lemma plan_total:
  assumes "0 < decision_price" "0 < rule_qty_step rule" "0 < rule_min_qty rule"
    and "validate_position_matches_signal s current = Inr ()"
  shows "\<exists>p. build_signal_order_intent_plan s rule current decision_price ctxt otype price = Inr p
               \<and> plan_signal p = s \<and> plan_market_context p = ctxt \<and> plan_order_type p = otype
               \<and> plan_price p = price \<and> plan_decision_price p = decision_price
               \<and> (plan_actionable p \<or> plan_side p = None)"
proof -
  have step: "rule_qty_step rule \<noteq> 0"
    using assms by simp
  obtain a b where ab: "floor_to_step (dec_sub (sig_target s) (held_qty current)) (rule_qty_step rule) = Inr a"
    "floor_to_step (min (dec_abs (dec_sub (sig_target s) (held_qty current))) (held_sellable current))
       (rule_qty_step rule) = Inr b"
    using floor_to_step_total [OF step] by metis
  have pos: "\<not> x < rule_min_qty rule \<Longrightarrow> 0 < x" for x
    using assms(3) by simp
  show ?thesis
    using assms(1,4) ab pos
    unfolding build_signal_order_intent_plan_def Let_def
    unfolding held_qty_def [symmetric] held_sellable_def [symmetric]
    by (simp add: plan_actionable_def)
qed

section \<open>Intents and orders\<close>

lemma make_order_intent_iff:
  "make_order_intent i = Inr i' \<longleftrightarrow>
     (\<exists>q. validate_order_pricing (int_type i) (int_price i) (int_decision_price i) True = Inr q
        \<and> i' = normalize_intent (i\<lparr>int_decision_price := q\<rparr>) \<and> checks (intent_rules i') = Inr ())"
  by (auto simp: make_order_intent_def Let_def)

text \<open>The price an order of a type carries: none for MARKET, a positive one for LIMIT.\<close>

definition price_fits :: "order_type \<Rightarrow> rat option \<Rightarrow> bool" where
  "price_fits t p \<longleftrightarrow> (case t of MARKET \<Rightarrow> p = None | LIMIT \<Rightarrow> p \<noteq> None \<and> opt_pos p)"

lemma idempotency_key_trimmed [simp]:
  "trim (build_order_intent_idempotency_key s) = build_order_intent_idempotency_key s"
  "build_order_intent_idempotency_key s \<noteq> []"
proof -
  have "\<exists>xs. build_order_intent_idempotency_key s = CHR ''s'' # xs @ [CHR ''t'']"
    by (rule exI [of _ "''ignalark:signal:'' @ uuid_str (sig_id s) @ '':order_inten''"])
       (simp add: build_order_intent_idempotency_key_def)
  then show "trim (build_order_intent_idempotency_key s) = build_order_intent_idempotency_key s"
    "build_order_intent_idempotency_key s \<noteq> []"
    by (auto simp: trim_ends is_trim_space_def)
qed

lemma idempotency_key_inj:
  "build_order_intent_idempotency_key s = build_order_intent_idempotency_key t \<longleftrightarrow> sig_id s = sig_id t"
  by (simp add: build_order_intent_idempotency_key_def)

lemma order_id_name_inj:
  "''signalark:order:'' @ uuid_str i = ''signalark:order:'' @ uuid_str j \<longleftrightarrow> i = j"
  by simp

text \<open>An actionable plan over validated inputs always becomes a valid intent.\<close>

lemma to_order_intent_ok:
  assumes act: "plan_actionable p" and s: "signal_ok (plan_signal p)"
    and m: "market_state_ok (plan_market_context p)"
    and dp: "0 < plan_decision_price p" and pf: "price_fits (plan_order_type p) (plan_price p)"
    and ro: "plan_reduce_only p \<Longrightarrow> plan_side p = Some SELL"
  obtains i where "to_order_intent fresh now p None t = Inr i" "intent_ok i" "int_id i = fresh"
    "int_signal_id i = sig_id (plan_signal p)" "int_qty i = plan_qty p" "Some (int_side i) = plan_side p"
    "int_decision_price i = Some (plan_decision_price p)" "int_type i = plan_order_type p"
    "int_price i = plan_price p" "int_reduce_only i = plan_reduce_only p"
    "int_market_context i = Some (plan_market_context p)"
    "int_account i = sig_account (plan_signal p)" "int_exchange i = sig_exchange (plan_signal p)"
    "int_symbol i = sig_symbol (plan_signal p)" "int_run_id i = sig_run_id (plan_signal p)"
    "int_idempotency_key i = build_order_intent_idempotency_key (plan_signal p)"
    "int_created_at i = (case t of None \<Rightarrow> now | Some u \<Rightarrow> u)"
    "int_risk_decision i = ALLOW" "int_status i = INTENT_NEW"
proof -
  obtain side where side: "plan_side p = Some side"
    using act by (auto simp: plan_actionable_def)
  let ?s = "plan_signal p"
  define i where "i = \<lparr>int_id = fresh, int_signal_id = sig_id ?s, int_strategy = sig_strategy ?s,
    int_run_id = sig_run_id ?s, int_account = sig_account ?s, int_exchange = sig_exchange ?s,
    int_symbol = sig_symbol ?s, int_side = side, int_type = plan_order_type p, int_tif = plan_tif p,
    int_qty = plan_qty p, int_price = plan_price p, int_decision_price = Some (plan_decision_price p),
    int_reduce_only = plan_reduce_only p, int_market_context = Some (plan_market_context p),
    int_idempotency_key = build_order_intent_idempotency_key ?s, int_status = INTENT_NEW,
    int_risk_decision = ALLOW, int_risk_reason = None,
    int_created_at = (case t of None \<Rightarrow> now | Some u \<Rightarrow> u)\<rparr>"
  have norm: "trim (sig_strategy ?s) = sig_strategy ?s" "trim (sig_account ?s) = sig_account ?s"
    "normalize_exchange (sig_exchange ?s) = sig_exchange ?s" "normalize_symbol (sig_symbol ?s) = sig_symbol ?s"
    using s by (cases ?s; simp add: signal_ok_def normalize_signal_def)+
  have ne: "sig_strategy ?s \<noteq> []" "sig_account ?s \<noteq> []" "sig_exchange ?s \<noteq> []" "sig_symbol ?s \<noteq> []"
    using s by (simp_all add: signal_ok_def signal_rules_def)
  have pr: "validate_order_pricing (int_type i) (int_price i) (int_decision_price i) True
              = Inr (int_decision_price i)"
    using pf by (cases "plan_order_type p") (auto simp: i_def validate_order_pricing_def price_fits_def)
  have ni: "normalize_intent i = i"
    by (simp add: i_def normalize_intent_def norm)
  have rules: "checks (intent_rules i) = Inr ()"
    using ne act m dp pf ro side
    by (cases "plan_order_type p") (auto simp: i_def intent_rules_def plan_actionable_def price_fits_def)
  have "make_order_intent i = Inr i"
    using pr ni rules by (simp add: make_order_intent_iff)
  then have "to_order_intent fresh now p None t = Inr i"
    using act by (simp add: to_order_intent_def side or_text_def i_def)
  moreover have "intent_ok i"
    using pr ni rules by (simp add: intent_ok_def)
  ultimately show thesis
    using that by (simp add: i_def side)
qed

lemma intent_okD:
  assumes "intent_ok i"
  shows "0 < int_qty i" "opt_pos (int_price i)" "trim (int_account i) = int_account i"
    "normalize_exchange (int_exchange i) = int_exchange i" "normalize_symbol (int_symbol i) = int_symbol i"
    "int_account i \<noteq> []" "int_exchange i \<noteq> []" "int_symbol i \<noteq> []"
    "int_type i = MARKET \<longleftrightarrow> int_price i = None"
    "\<exists>q > 0. int_decision_price i = Some q"
    "int_reduce_only i \<Longrightarrow> int_side i = SELL"
proof -
  have n: "normalize_intent i = i" and r: "checks (intent_rules i) = Inr ()"
    and p: "validate_order_pricing (int_type i) (int_price i) (int_decision_price i) True
              = Inr (int_decision_price i)"
    using assms by (simp_all add: intent_ok_def)
  show "trim (int_account i) = int_account i" "normalize_exchange (int_exchange i) = int_exchange i"
    "normalize_symbol (int_symbol i) = int_symbol i"
    using n by (cases i; simp add: normalize_intent_def)+
  show "0 < int_qty i" "opt_pos (int_price i)" "int_account i \<noteq> []" "int_exchange i \<noteq> []"
    "int_symbol i \<noteq> []" "int_reduce_only i \<Longrightarrow> int_side i = SELL"
    using r by (auto simp: intent_rules_def)
  show "int_type i = MARKET \<longleftrightarrow> int_price i = None"
    using p by (cases "int_type i") (auto simp: validate_order_pricing_def split: if_splits)
  have "opt_pos (int_decision_price i)" "int_decision_price i \<noteq> None"
    using r p by (auto simp: intent_rules_def validate_order_pricing_def split: if_splits)
  then show "\<exists>q > 0. int_decision_price i = Some q"
    by auto
qed

text \<open>A new order: it carries the terms of its intent, nothing is filled, its identifier is derived.\<close>

lemma create_order_ok:
  assumes "intent_ok i"
  obtains r where "create_order_from_intent u5 now i None None t NEW = Inr r" "order_ok r"
    "ord_id r = build_order_id_for_intent u5 (int_id i)" "ord_intent_id r = int_id i"
    "ord_status r = NEW" "ord_filled_qty r = 0" "ord_qty r = int_qty i" "ord_side r = int_side i"
    "ord_price r = int_price i" "ord_type r = int_type i" "ord_account r = int_account i"
    "ord_exchange r = int_exchange i" "ord_symbol r = int_symbol i" "ord_run_id r = int_run_id i"
    "ord_exchange_order_id r = None" "ord_avg_fill_price r = None"
    "ord_submitted_at r = (case t of None \<Rightarrow> now | Some u \<Rightarrow> u)"
proof -
  let ?t = "case t of None \<Rightarrow> now | Some u \<Rightarrow> u"
  define r where "r = \<lparr>ord_id = build_order_id_for_intent u5 (int_id i), ord_intent_id = int_id i,
    ord_run_id = int_run_id i, ord_exchange_order_id = None, ord_account = int_account i,
    ord_exchange = int_exchange i, ord_symbol = int_symbol i, ord_side = int_side i,
    ord_type = int_type i, ord_tif = int_tif i, ord_qty = int_qty i, ord_price = int_price i,
    ord_filled_qty = 0, ord_avg_fill_price = None, ord_status = NEW, ord_submitted_at = ?t,
    ord_updated_at = ?t, ord_error_code = None, ord_error_message = None\<rparr>"
  note d = intent_okD [OF assms]
  have ok: "order_ok r"
    using d by (simp add: order_ok_def r_def order_field_rules_def order_contract_rules_def
        normalize_order_def)
  then have "create_order_from_intent u5 now i None None t NEW = Inr r"
    by (simp add: order_ok_make create_order_from_intent_def r_def Let_def)
  then show thesis
    using that ok by (simp add: r_def)
qed

section \<open>Updates\<close>

text \<open>The part of an order no update changes.\<close>

definition same_order :: "order \<Rightarrow> order \<Rightarrow> bool" where
  "same_order r q \<longleftrightarrow> ord_id q = ord_id r \<and> ord_intent_id q = ord_intent_id r \<and> ord_run_id q = ord_run_id r
     \<and> ord_account q = ord_account r \<and> ord_exchange q = ord_exchange r \<and> ord_symbol q = ord_symbol r
     \<and> ord_side q = ord_side r \<and> ord_type q = ord_type r \<and> ord_tif q = ord_tif r \<and> ord_qty q = ord_qty r
     \<and> ord_price q = ord_price r \<and> ord_submitted_at q = ord_submitted_at r"

lemma same_order_refl [simp]: "same_order r r"
  by (simp add: same_order_def)

lemma same_order_trans: "same_order a b \<Longrightarrow> same_order b c \<Longrightarrow> same_order a c"
  by (simp add: same_order_def)

lemma order_norm:
  assumes "order_ok r"
  shows "trim (ord_account r) = ord_account r" "normalize_exchange (ord_exchange r) = ord_exchange r"
    "normalize_symbol (ord_symbol r) = ord_symbol r"
    "map_option trim (ord_exchange_order_id r) = ord_exchange_order_id r"
  using assms by (cases r; simp add: order_ok_def normalize_order_def)+

lemma apply_order_update_step:
  assumes "apply_order_update r u = Inr r'" "order_ok r"
  shows "order_ok r'" "same_order r r'" "ord_status r' = upd_status u"
    "can_transition_order_status (ord_status r) (ord_status r')"
    "ord_filled_qty r' = upd_filled_qty u" "ord_avg_fill_price r' = upd_avg_fill_price u"
    "ord_updated_at r' = upd_event_time u"
    "upd_order_id u = ord_id r"
proof -
  have g: "checks (update_guards r u) = Inr ()"
    and t: "transition_to r (upd_status u) (update_fields u) = Inr r'"
    using assms by (simp_all add: apply_order_update_def)
  have r': "r' = normalize_order ((update_fields u r)\<lparr>ord_status := upd_status u\<rparr>)" "order_ok r'"
    and c: "can_transition_order_status (ord_status r) (upd_status u)"
    using t by (auto simp: transition_to_iff)
  show "order_ok r'" "upd_order_id u = ord_id r"
    using r'(2) g by (simp_all add: update_guards_def)
  show "same_order r r'"
    using order_norm [OF assms(2)] unfolding r'(1) same_order_def
    by (simp add: normalize_order_def update_fields_def)
  show s: "ord_status r' = upd_status u" "ord_filled_qty r' = upd_filled_qty u"
    "ord_avg_fill_price r' = upd_avg_fill_price u" "ord_updated_at r' = upd_event_time u"
    unfolding r'(1) by (simp_all add: normalize_order_def update_fields_def)
  show "can_transition_order_status (ord_status r) (ord_status r')"
    using c by (simp add: s)
qed

lemma apply_order_updates_run:
  assumes "res_fold apply_order_update r us = Inr r'" "order_ok r"
  shows "order_ok r' \<and> same_order r r' \<and> status_reach (ord_status r) (ord_status r')"
proof (rule res_fold_invariant [OF assms(1)])
  show "order_ok r \<and> same_order r r \<and> status_reach (ord_status r) (ord_status r)"
    using assms(2) by (simp add: here)
next
  fix q u q'
  assume "order_ok q \<and> same_order r q \<and> status_reach (ord_status r) (ord_status q)"
    and "apply_order_update q u = Inr q'"
  then show "order_ok q' \<and> same_order r q' \<and> status_reach (ord_status r) (ord_status q')"
    using apply_order_update_step by (blast intro: same_order_trans status_reach.step)
qed

text \<open>An update that belongs to the order, carries its exchange identifier and fits its quantity is accepted.\<close>

lemma apply_order_update_accepts:
  assumes r: "order_ok r" and u: "order_update_ok u"
    and ids: "upd_order_id u = ord_id r" "upd_intent_id u = ord_intent_id r" "upd_run_id u = ord_run_id r"
      "upd_account u = ord_account r" "upd_exchange u = ord_exchange r" "upd_symbol u = ord_symbol r"
      "ord_exchange_order_id r = None \<or> upd_exchange_order_id u = None
        \<or> upd_exchange_order_id u = ord_exchange_order_id r"
    and tr: "can_transition_order_status (ord_status r) (upd_status u)"
    and fit: "upd_filled_qty u \<le> ord_qty r"
      "upd_status u = PARTIALLY_FILLED \<Longrightarrow> upd_filled_qty u < ord_qty r"
      "upd_status u = FILLED \<Longrightarrow> upd_filled_qty u = ord_qty r"
    and time: "ord_submitted_at r \<le> upd_event_time u"
  obtains r' where "apply_order_update r u = Inr r'"
    "ord_exchange_order_id r' = or_text_option (upd_exchange_order_id u) (ord_exchange_order_id r)"
proof -
  let ?q = "(update_fields u r)\<lparr>ord_status := upd_status u\<rparr>"
  have un: "normalize_update u = u"
    using u by (simp add: order_update_ok_def)
  then have un': "map_option trim (upd_exchange_order_id u) = upd_exchange_order_id u"
    "map_option trim (upd_error_code u) = upd_error_code u"
    "map_option trim (upd_error_message u) = upd_error_message u"
    by (cases u; simp add: normalize_update_def)+
  have norm: "normalize_order ?q = ?q"
    using order_norm [OF r] un'
    by (cases "upd_exchange_order_id u")
       (simp_all add: normalize_order_def update_fields_def or_text_option_def)
  have "checks (order_field_rules ?q) = Inr ()"
    using r order_update_okD(1,2) [OF u]
    by (simp add: order_ok_def order_field_rules_def update_fields_def)
  moreover have "upd_status u = CANCELED \<Longrightarrow> upd_avg_fill_price u = None \<Longrightarrow> upd_filled_qty u = 0"
    using order_update_okD(1,6) [OF u] by force
  then have "checks (order_contract_rules ?q) = Inr ()"
    using order_update_okD(1,4,5,7) [OF u] fit time
    by (cases "upd_status u"; cases "upd_avg_fill_price u") (simp_all add: order_contract_rules_def update_fields_def)
  ultimately have ok: "order_ok ?q"
    using r norm by (simp add: order_ok_def update_fields_def)
  have "checks (update_guards r u) = Inr ()"
    using ids by (auto simp: update_guards_def)
  then have "apply_order_update r u = Inr ?q"
    using ok norm tr by (simp add: apply_order_update_def transition_to_iff)
  then show thesis
    by (rule that) (simp add: update_fields_def)
qed

section \<open>Properties\<close>

definition sample_plan :: "rat \<Rightarrow> rat \<Rightarrow> order_side \<Rightarrow> rat \<Rightarrow> order_plan" where
  "sample_plan target current side qty =
     \<lparr>plan_signal = sample_signal target, plan_side = Some side, plan_qty = qty, plan_target = target,
      plan_current_qty = current, plan_current_sellable = current, plan_raw_delta = target - current,
      plan_decision_price = 40, plan_market_context = sample_market,
      plan_reduce_only = (side = SELL), plan_odd_lot_sell = (side = SELL \<and> current < 100),
      plan_skip_reason = None, plan_order_type = MARKET, plan_tif = DAY, plan_price = None\<rparr>"

lemma sample_plan_built:
  "build_signal_order_intent_plan (sample_signal 550) sample_rule (Some (sample_position 200 200)) 40
     sample_market MARKET None = Inr (sample_plan 550 200 BUY 300)"
  "build_signal_order_intent_plan (sample_signal 0) sample_rule (Some (sample_position 50 50)) 40
     sample_market MARKET None = Inr (sample_plan 0 50 SELL 50)"
  by code_simp+

lemma sample_inputs:
  "sizing_inputs (- 10) (sample_signal 550) sample_rule (Some (sample_position 200 200))"
  "sizing_inputs (- 10) (sample_signal 0) sample_rule (Some (sample_position 50 50))"
  by code_simp+

text \<open>
  C7.  Sizing.  A plan that asks for an order moves the position toward the target of the signal
  without passing it: a buy takes as many whole quantity steps as fit, a sell never exceeds the
  sellable quantity, and an odd lot is sold only as a whole.
\<close>

theorem sizing_contract:
  assumes "build_signal_order_intent_plan s rule current decision_price market otype price = Inr p"
    and "sizing_inputs e s rule current"
  shows "plan_contract s rule current p"
  by (rule plan_contract_holds) (rule assms)+

theorem sizing_contract_witness:
  "plan_contract (sample_signal 550) sample_rule (Some (sample_position 200 200)) (sample_plan 550 200 BUY 300)
   \<and> plan_contract (sample_signal 0) sample_rule (Some (sample_position 50 50)) (sample_plan 0 50 SELL 50)"
  using sizing_contract [OF sample_plan_built(1) sample_inputs(1)]
    sizing_contract [OF sample_plan_built(2) sample_inputs(2)] by blast

text \<open>
  C9.  From a signal to an order.  An actionable plan sized from validated inputs always becomes a
  valid intent, and that intent a valid NEW order of the same side, quantity, type and price under
  the identity derived from the signal; nothing on the way can raise.
\<close>

theorem signal_becomes_order:
  assumes "build_signal_order_intent_plan s rule current decision_price market otype price = Inr p"
    and "sizing_inputs e s rule current" "plan_actionable p" "market_state_ok market"
    and "price_fits otype price"
  shows "\<exists>i r. to_order_intent fresh now p None created = Inr i \<and> intent_ok i
    \<and> int_idempotency_key i = build_order_intent_idempotency_key s
    \<and> create_order_from_intent u5 now i None None submitted NEW = Inr r \<and> order_ok r
    \<and> ord_id r = build_order_id_for_intent u5 fresh \<and> ord_intent_id r = fresh
    \<and> Some (ord_side r) = plan_side p \<and> ord_qty r = plan_qty p \<and> ord_filled_qty r = 0
    \<and> ord_type r = otype \<and> ord_price r = price \<and> ord_symbol r = sig_symbol s"
proof -
  note f = plan_fields [OF assms(1)]
  have "plan_reduce_only p \<Longrightarrow> plan_side p = Some SELL"
    using assms(1,2) by (cases rule: plan_cases) (use assms(3) in \<open>auto simp: plan_actionable_def\<close>)
  moreover have "signal_ok s"
    using assms(2) by (simp add: sizing_inputs_def)
  ultimately obtain i where i: "to_order_intent fresh now p None created = Inr i" "intent_ok i"
    "int_id i = fresh" "int_qty i = plan_qty p" "Some (int_side i) = plan_side p" "int_type i = otype"
    "int_price i = price" "int_symbol i = sig_symbol s"
    "int_idempotency_key i = build_order_intent_idempotency_key s"
    using to_order_intent_ok [of p fresh now created] assms(3-5) f by metis
  obtain r where "create_order_from_intent u5 now i None None submitted NEW = Inr r" "order_ok r"
    "ord_id r = build_order_id_for_intent u5 (int_id i)" "ord_intent_id r = int_id i" "ord_filled_qty r = 0"
    "ord_qty r = int_qty i" "ord_side r = int_side i" "ord_price r = int_price i" "ord_type r = int_type i"
    "ord_symbol r = int_symbol i"
    using create_order_ok [OF i(2)] by metis
  then show ?thesis
    using i by auto
qed

theorem signal_becomes_order_witness:
  "\<exists>i r. to_order_intent 5 sample_time (sample_plan 550 200 BUY 300) None None = Inr i \<and> intent_ok i
    \<and> int_idempotency_key i = build_order_intent_idempotency_key (sample_signal 550)
    \<and> create_order_from_intent (\<lambda>_. 9) sample_time i None None None NEW = Inr r \<and> order_ok r
    \<and> ord_id r = build_order_id_for_intent (\<lambda>_. 9) 5 \<and> ord_intent_id r = 5
    \<and> Some (ord_side r) = plan_side (sample_plan 550 200 BUY 300)
    \<and> ord_qty r = plan_qty (sample_plan 550 200 BUY 300) \<and> ord_filled_qty r = 0
    \<and> ord_type r = MARKET \<and> ord_price r = None \<and> ord_symbol r = sig_symbol (sample_signal 550)"
  by (rule signal_becomes_order [OF sample_plan_built(1) sample_inputs(1)]) code_simp+

text \<open>
  C16.  The life of an order.  Whatever updates are applied to a valid order, in whatever order, it
  stays a valid order with the same identity and terms, fills at most its quantity, and its status
  moves only along the status machine.
\<close>

theorem order_life:
  assumes "res_fold apply_order_update r us = Inr r'" "order_ok r"
  shows "order_ok r' \<and> same_order r r' \<and> ord_status r' \<in> set (status_table (ord_status r))
    \<and> 0 \<le> ord_filled_qty r' \<and> ord_filled_qty r' \<le> ord_qty r
    \<and> (ord_status r' = FILLED \<longrightarrow> ord_filled_qty r' = ord_qty r)"
proof -
  have run: "order_ok r'" "same_order r r'" "ord_status r' \<in> set (status_table (ord_status r))"
    using apply_order_updates_run [OF assms] status_reach_table by blast+
  then show ?thesis
    using order_okD [OF run(1)] by (auto simp: same_order_def)
qed

definition sample_filled_order :: order where
  "sample_filled_order =
     (sample_order 300 BUY)\<lparr>ord_exchange_order_id := Some ''paper-9'', ord_filled_qty := 300,
       ord_avg_fill_price := Some 40, ord_status := FILLED,
       ord_updated_at := sample_time + us_per_second\<rparr>"

lemma sample_updates_run:
  "res_fold apply_order_update (sample_order 300 BUY)
     [sample_update ACK 0, sample_update PARTIALLY_FILLED 100, sample_update FILLED 300]
   = Inr sample_filled_order"
  "order_ok (sample_order 300 BUY)" "order_update_ok (sample_update ACK 0)"
  by code_simp+

theorem order_life_witness:
  "order_ok sample_filled_order \<and> ord_status sample_filled_order \<in> set (status_table NEW)
   \<and> ord_filled_qty sample_filled_order \<le> 300"
  using order_life [OF sample_updates_run(1,2)] by (simp add: sample_order_def)

text \<open>
  Acceptance of updates.  A valid update that names the order, keeps its exchange identifier,
  follows the status machine and fits the quantity and time of the order is never refused, and
  leaves the order with the status, the filled quantity and the exchange identifier it reports.
\<close>

lemma order_update_accepted:
  assumes "order_ok r" "order_update_ok u"
    and "upd_order_id u = ord_id r" "upd_intent_id u = ord_intent_id r" "upd_run_id u = ord_run_id r"
    and "upd_account u = ord_account r" "upd_exchange u = ord_exchange r" "upd_symbol u = ord_symbol r"
    and "ord_exchange_order_id r = None \<or> upd_exchange_order_id u = None
           \<or> upd_exchange_order_id u = ord_exchange_order_id r"
    and "can_transition_order_status (ord_status r) (upd_status u)"
    and "upd_filled_qty u \<le> ord_qty r" "ord_submitted_at r \<le> upd_event_time u"
    and "upd_status u = PARTIALLY_FILLED \<Longrightarrow> upd_filled_qty u < ord_qty r"
    and "upd_status u = FILLED \<Longrightarrow> upd_filled_qty u = ord_qty r"
  shows "\<exists>r'. apply_order_update r u = Inr r' \<and> order_ok r' \<and> ord_status r' = upd_status u
    \<and> ord_filled_qty r' = upd_filled_qty u
    \<and> ord_exchange_order_id r' = or_text_option (upd_exchange_order_id u) (ord_exchange_order_id r)"
proof -
  obtain r' where "apply_order_update r u = Inr r'"
    "ord_exchange_order_id r' = or_text_option (upd_exchange_order_id u) (ord_exchange_order_id r)"
    by (rule apply_order_update_accepts [OF assms(1-11,13,14,12)])
  then show ?thesis
    using apply_order_update_step [OF _ assms(1)] by blast
qed

lemma order_update_accepted_witness:
  "\<exists>r'. apply_order_update (sample_order 300 BUY) (sample_update ACK 0) = Inr r' \<and> order_ok r'
    \<and> ord_status r' = upd_status (sample_update ACK 0)
    \<and> ord_filled_qty r' = upd_filled_qty (sample_update ACK 0)
    \<and> ord_exchange_order_id r' = or_text_option (upd_exchange_order_id (sample_update ACK 0))
        (ord_exchange_order_id (sample_order 300 BUY))"
  by (rule order_update_accepted [OF sample_updates_run(2,3)])
    (simp_all add: sample_order_def sample_update_def can_transition_order_status_def us_per_second_def)

lemma before_ack:
  assumes "res_fold apply_order_update r us = Inr q" "order_ok r" "ord_status r = NEW"
    and "ACK \<notin> upd_status ` set us"
  shows "order_ok q \<and> ord_status q \<in> {NEW, CANCELED, REJECTED}"
  using assms
proof (induction us arbitrary: q rule: rev_induct)
  case (snoc u us)
  obtain q0 where q0: "res_fold apply_order_update r us = Inr q0" "apply_order_update q0 u = Inr q"
    using snoc.prems(1) by (auto simp: res_fold_append)
  then have "order_ok q0 \<and> ord_status q0 \<in> {NEW, CANCELED, REJECTED}"
    using snoc by simp
  with apply_order_update_step [OF q0(2)] snoc.prems(4) show ?case
    by (auto simp: can_transition_order_status_def split: if_splits)
qed simp

text \<open>
  C29.  The order of reports.  In any run of updates a new order accepts, a fill comes only after an
  acknowledgement, after a partial fill come only fills and a cancellation, and after a final status
  only repetitions of that status.
\<close>

theorem order_reports_in_sequence:
  assumes "res_fold apply_order_update r us = Inr r'" "order_ok r" "ord_status r = NEW" "us = vs @ u # ws"
  shows "(upd_status u \<in> {PARTIALLY_FILLED, FILLED} \<longrightarrow> ACK \<in> upd_status ` set vs)
     \<and> (upd_status u = PARTIALLY_FILLED \<longrightarrow> upd_status ` set ws \<subseteq> {PARTIALLY_FILLED, FILLED, CANCELED})
     \<and> (upd_status u \<in> {FILLED, CANCELED, REJECTED} \<longrightarrow> upd_status ` set ws \<subseteq> {upd_status u})"
proof -
  obtain q q1 where q: "res_fold apply_order_update r vs = Inr q" "apply_order_update q u = Inr q1"
    "res_fold apply_order_update q1 ws = Inr r'"
    using assms(1,4) by (auto simp: res_fold_append)
  have q_ok: "order_ok q"
    using apply_order_updates_run [OF q(1) assms(2)] by simp
  note s = apply_order_update_step [OF q(2) q_ok]
  have ack: "ACK \<in> upd_status ` set vs" if "upd_status u \<in> {PARTIALLY_FILLED, FILLED}"
  proof (rule ccontr)
    assume "ACK \<notin> upd_status ` set vs"
    from before_ack [OF q(1) assms(2,3) this] s that show False
      by (auto simp: can_transition_order_status_def split: if_splits)
  qed
  have reach: "status_reach (ord_status q1) (upd_status v)" if mem: "v \<in> set ws" for v
  proof -
    obtain xs ys where v: "ws = xs @ v # ys"
      using split_list [OF mem] by blast
    then obtain p p1 where p: "res_fold apply_order_update q1 xs = Inr p" "apply_order_update p v = Inr p1"
      using q(3) by (auto simp: res_fold_append)
    have "order_ok p" "status_reach (ord_status q1) (ord_status p)"
      using apply_order_updates_run [OF p(1) s(1)] by simp_all
    then show ?thesis
      using apply_order_update_step(3,4) [OF p(2)] by (metis status_reach.step)
  qed
  have "\<forall>v \<in> set ws. status_reach (upd_status u) (upd_status v)"
    using reach s(3) by simp
  then have tail: "\<forall>v \<in> set ws. upd_status v \<in> set (status_table (upd_status u))"
    by (simp add: status_reach_table)
  show ?thesis
  proof (intro conjI impI)
    show "upd_status u \<in> {PARTIALLY_FILLED, FILLED} \<Longrightarrow> ACK \<in> upd_status ` set vs"
      by (rule ack)
    show "upd_status u = PARTIALLY_FILLED \<Longrightarrow> upd_status ` set ws \<subseteq> {PARTIALLY_FILLED, FILLED, CANCELED}"
      using tail by auto
    show "upd_status u \<in> {FILLED, CANCELED, REJECTED} \<Longrightarrow> upd_status ` set ws \<subseteq> {upd_status u}"
      using tail by auto
  qed
qed

theorem order_reports_in_sequence_witness:
  "ACK \<in> upd_status ` set [sample_update ACK 0]
   \<and> upd_status ` set [sample_update FILLED 300] \<subseteq> {PARTIALLY_FILLED, FILLED, CANCELED}"
  using order_reports_in_sequence [OF sample_updates_run(1,2), of "[sample_update ACK 0]" "sample_update PARTIALLY_FILLED 100"
      "[sample_update FILLED 300]"]
  by (simp add: sample_order_def sample_update_def)

end
