(* ===== verification/Paper_Exchange.thy ===== *)
theory Paper_Exchange
  imports Order_Flow
begin

text \<open>
  The paper execution venue of src/src/infra/exchanges/paper.py: it checks the A-share contract
  of an order, then reports an acknowledgement, the fills of a deterministic scenario with
  their costs, and the cancellation of a remainder.  The clock reading, uuid5 and the scenario
  resolver are arguments.
\<close>

section \<open>Scenarios\<close>

record fill_slice =
  slice_qty :: rat
  slice_price :: "rat option"
  slice_liquidity :: liquidity_type

record scenario =
  scn_slices :: "fill_slice list"
  scn_cancel_remaining :: bool
  scn_reject_code :: "string option"
  scn_reject_message :: "string option"

definition scenario_rejected :: "scenario \<Rightarrow> bool" where
  "scenario_rejected s \<longleftrightarrow> scn_reject_code s \<noteq> None \<or> scn_reject_message s \<noteq> None"

text \<open>value or default, for prices: None and zero are false.\<close>

definition or_price :: "rat option \<Rightarrow> rat \<Rightarrow> rat" where
  "or_price x d = (case x of None \<Rightarrow> d | Some p \<Rightarrow> if p = 0 then d else p)"

section \<open>Identities\<close>

definition exchange_order_id :: "uuid \<Rightarrow> string" where
  "exchange_order_id order_id = ''paper-order-'' @ take 12 (uuid_hex order_id)"

definition exchange_fill_id :: "uuid \<Rightarrow> nat \<Rightarrow> string" where
  "exchange_fill_id order_id n = ''paper-fill-'' @ take 12 (uuid_hex order_id) @ ''-'' @ show_nat n"

definition order_update_id :: "(string \<Rightarrow> uuid) \<Rightarrow> uuid \<Rightarrow> string \<Rightarrow> uuid" where
  "order_update_id u5 order_id suffix =
     u5 (''signalark:paper-order-update:'' @ uuid_str order_id @ '':'' @ suffix)"

definition paper_fill_id :: "(string \<Rightarrow> uuid) \<Rightarrow> uuid \<Rightarrow> nat \<Rightarrow> uuid" where
  "paper_fill_id u5 order_id n = u5 (''signalark:paper-fill:'' @ uuid_str order_id @ '':'' @ show_nat n)"

definition paper_fill_event_id :: "(string \<Rightarrow> uuid) \<Rightarrow> uuid \<Rightarrow> nat \<Rightarrow> uuid" where
  "paper_fill_event_id u5 order_id n =
     u5 (''signalark:paper-fill-event:'' @ uuid_str order_id @ '':'' @ show_nat n)"

section \<open>Costs\<close>

definition quantize_fee :: "rat \<Rightarrow> rat res" where
  "quantize_fee = quantize_with round_half_up (- 4)"

definition build_cost_breakdown :: "cost_model \<Rightarrow> order_side \<Rightarrow> rat \<Rightarrow> rat \<Rightarrow> cost_breakdown res" where
  "build_cost_breakdown cm side qty price =
     (let gross = dec_mul qty price
      in res_bind (quantize_fee (dec_mul gross (cm_commission cm))) (\<lambda>commission.
         res_bind (quantize_fee (dec_mul gross (cm_transfer_fee cm))) (\<lambda>transfer_fee.
         res_bind (if side = SELL then quantize_fee (dec_mul gross (cm_stamp_duty_sell cm)) else Inr 0)
           (\<lambda>stamp_duty.
         let total_fee = dec_add (dec_add commission transfer_fee) stamp_duty;
             net = (if side = SELL then dec_sub gross total_fee else dec_neg (dec_add gross total_fee))
         in make_cost_breakdown
           \<lparr>cb_currency = ''CNY'', cb_gross_notional = gross, cb_commission = commission,
            cb_transfer_fee = transfer_fee, cb_stamp_duty = stamp_duty, cb_total_fee = total_fee,
            cb_net_cash_flow = net\<rparr>))))"

section \<open>Reports\<close>

text \<open>An update envelope of an order; the remaining fields are those of the call at hand.\<close>

definition paper_update ::
  "(string \<Rightarrow> uuid) \<Rightarrow> order \<Rightarrow> string \<Rightarrow> order_status \<Rightarrow> string option \<Rightarrow> rat \<Rightarrow> rat option
     \<Rightarrow> string option \<Rightarrow> string option \<Rightarrow> datetime \<Rightarrow> order_update res" where
  "paper_update u5 r suffix status exchange_id filled avg code message t =
     make_order_update
       \<lparr>upd_id = order_update_id u5 (ord_id r) suffix, upd_order_id = ord_id r,
        upd_intent_id = ord_intent_id r, upd_run_id = ord_run_id r, upd_account = ord_account r,
        upd_exchange = ord_exchange r, upd_symbol = ord_symbol r, upd_status = status,
        upd_exchange_order_id = exchange_id, upd_filled_qty = filled, upd_avg_fill_price = avg,
        upd_error_code = code, upd_error_message = message, upd_event_time = t,
        upd_created_at = t\<rparr>"

definition paper_report :: "order_update list \<Rightarrow> fill_event list \<Rightarrow> execution_report" where
  "paper_report us fes =
     \<lparr>rep_source = ''paper_execution'', rep_order_updates = us, rep_fill_events = fes\<rparr>"

definition reject_report ::
  "(string \<Rightarrow> uuid) \<Rightarrow> order \<Rightarrow> datetime \<Rightarrow> string \<Rightarrow> string \<Rightarrow> execution_report res" where
  "reject_report u5 r base code message =
     res_map (\<lambda>u. paper_report [u] [])
       (paper_update u5 r (''reject:'' @ code) REJECTED None 0 None (Some code) (Some message) base)"

definition price_in_limits :: "rat \<Rightarrow> market_state \<Rightarrow> bool" where
  "price_in_limits p m \<longleftrightarrow> ms_lower_limit m \<le> p \<and> p \<le> ms_upper_limit m"

definition limit_order_is_marketable :: "order_side \<Rightarrow> rat \<Rightarrow> rat \<Rightarrow> bool" where
  "limit_order_is_marketable side limit_price reference_price =
     (if side = BUY then reference_price \<le> limit_price else limit_price \<le> reference_price)"

definition validate_order_pair :: "order \<Rightarrow> order_intent \<Rightarrow> unit res" where
  "validate_order_pair r i = checks
     [(ord_intent_id r \<noteq> int_id i, ValueError ''order.order_intent_id must match order_intent.id''),
      (ord_run_id r \<noteq> int_run_id i,
         ValueError ''order.trader_run_id must match order_intent.trader_run_id''),
      (ord_account r \<noteq> int_account i, ValueError ''order.account_id must match order_intent.account_id''),
      (ord_exchange r \<noteq> int_exchange i, ValueError ''order.exchange must match order_intent.exchange''),
      (ord_symbol r \<noteq> int_symbol i, ValueError ''order.symbol must match order_intent.symbol''),
      (ord_side r \<noteq> int_side i, ValueError ''order.side must match order_intent.side''),
      (ord_type r \<noteq> int_type i, ValueError ''order.order_type must match order_intent.order_type'')]"

text \<open>The rejection a contract violation gets: code and message, None when the order passes.\<close>

definition a_share_violation :: "order \<Rightarrow> order_intent \<Rightarrow> (string \<times> string) option res" where
  "a_share_violation r i =
     (case int_market_context i of
        None \<Rightarrow> Inr (Some (''MARKET_STATE_REQUIRED'',
          ''Paper execution requires minimum market state in A-share V1.''))
      | Some m \<Rightarrow>
          if ms_suspension m \<noteq> ACTIVE
          then Inr (Some (''SYMBOL_SUSPENDED'', ''Suspended symbols cannot be executed by the paper adapter.''))
          else if ms_phase m \<noteq> CONTINUOUS_AUCTION
          then Inr (Some (''UNSUPPORTED_TRADING_PHASE'',
            ''Phase 5B only supports continuous-auction paper execution.''))
          else if ord_type r = MARKET
          then (case int_decision_price i of
              None \<Rightarrow> Inl AssertionError
            | Some p \<Rightarrow>
                if \<not> price_in_limits p m
                then Inr (Some (''DECISION_PRICE_OUT_OF_BAND'',
                  ''decision_price is outside the A-share daily price limits.''))
                else Inr None)
          else (case ord_price r of
              None \<Rightarrow> Inl AssertionError
            | Some p \<Rightarrow>
                if \<not> price_in_limits p m
                then Inr (Some (''LIMIT_PRICE_OUT_OF_BAND'',
                  ''LIMIT price is outside the A-share daily price limits.''))
                else if \<not> limit_order_is_marketable (ord_side r) p (or_price (int_decision_price i) p)
                then Inr (Some (''RESTING_LIMIT_NOT_SUPPORTED'',
                  ''Phase 5B does not keep resting LIMIT orders in the paper adapter.''))
                else Inr None))"

definition validate_a_share_contract ::
  "(string \<Rightarrow> uuid) \<Rightarrow> order \<Rightarrow> order_intent \<Rightarrow> datetime \<Rightarrow> execution_report option res" where
  "validate_a_share_contract u5 r i base =
     res_bind (a_share_violation r i) (\<lambda>v.
       case v of None \<Rightarrow> Inr None
       | Some (code, message) \<Rightarrow> res_map Some (reject_report u5 r base code message))"

definition default_scenario :: "order \<Rightarrow> order_intent \<Rightarrow> scenario" where
  "default_scenario r i =
     \<lparr>scn_slices = [\<lparr>slice_qty = ord_qty r,
                      slice_price = (if ord_type r = LIMIT then ord_price r else int_decision_price i),
                      slice_liquidity = TAKER\<rparr>],
      scn_cancel_remaining = False, scn_reject_code = None, scn_reject_message = None\<rparr>"

text \<open>
  The loop over the fill slices.  The fill index and the event index of the code both start at
  1 and advance together, n is both; the loop returns the updates and fill events of the
  remaining slices, the cumulative quantity and notional, and the next event index.
\<close>

fun fill_loop ::
  "(string \<Rightarrow> uuid) \<Rightarrow> cost_model \<Rightarrow> order \<Rightarrow> rat \<Rightarrow> datetime \<Rightarrow> nat \<Rightarrow> rat \<Rightarrow> rat \<Rightarrow> fill_slice list
     \<Rightarrow> (order_update list \<times> fill_event list \<times> rat \<times> rat \<times> nat) res" where
  "fill_loop u5 cm r default_price base n cum_qty cum_notional [] = Inr ([], [], cum_qty, cum_notional, n)"
| "fill_loop u5 cm r default_price base n cum_qty cum_notional (s # rest) =
     (if slice_qty s \<le> 0 then Inl (ValueError ''Paper fill slices must carry positive qty.'')
      else
        let cum_qty = dec_add cum_qty (slice_qty s)
        in if ord_qty r < cum_qty then Inl (ValueError ''Paper fill slices cannot exceed order.qty.'')
        else
          let price = or_price (slice_price s) default_price;
              t = base + seconds (int n);
              cum_notional = dec_add cum_notional (dec_mul (slice_qty s) price)
          in
          res_bind (dec_div cum_notional cum_qty) (\<lambda>avg.
          res_bind (build_cost_breakdown cm (ord_side r) (slice_qty s) price) (\<lambda>cost.
          res_bind (make_fill
            \<lparr>fill_id = paper_fill_id u5 (ord_id r) n, fill_order_id = ord_id r,
             fill_run_id = ord_run_id r, fill_exchange_fill_id = Some (exchange_fill_id (ord_id r) n),
             fill_account = ord_account r, fill_exchange = ord_exchange r, fill_symbol = ord_symbol r,
             fill_side = ord_side r, fill_qty = slice_qty s, fill_price = price,
             fill_fee = cb_total_fee cost, fill_fee_asset = Some (cb_currency cost),
             fill_liquidity = slice_liquidity s, fill_time = t, fill_created_at = t\<rparr>) (\<lambda>f.
          res_bind (make_fill_event
            \<lparr>fe_id = paper_fill_event_id u5 (ord_id r) n, fe_order_id = ord_id r,
             fe_intent_id = ord_intent_id r, fe_run_id = ord_run_id r, fe_account = ord_account r,
             fe_exchange = ord_exchange r, fe_symbol = ord_symbol r, fe_fill = f, fe_cost = cost,
             fe_event_time = t, fe_created_at = t\<rparr>) (\<lambda>fe.
          res_bind (paper_update u5 r (''fill-'' @ show_nat n)
            (if cum_qty = ord_qty r then FILLED else PARTIALLY_FILLED)
            (Some (exchange_order_id (ord_id r))) cum_qty (Some avg) None None t) (\<lambda>u.
          res_bind (fill_loop u5 cm r default_price base (Suc n) cum_qty cum_notional rest)
            (\<lambda>(us, fes, q, nt, k). Inr (u # us, fe # fes, q, nt, k))))))))"

definition build_execution_report ::
  "(string \<Rightarrow> uuid) \<Rightarrow> cost_model \<Rightarrow> order \<Rightarrow> order_intent \<Rightarrow> scenario \<Rightarrow> datetime
     \<Rightarrow> execution_report res" where
  "build_execution_report u5 cm r i scn base =
     (if scenario_rejected scn
      then reject_report u5 r base (or_text (scn_reject_code scn) ''PAPER_REJECTED'')
             (or_text (scn_reject_message scn) ''Paper execution scenario rejected the order.'')
      else
        (case (if ord_type r = MARKET then int_decision_price i else ord_price r) of
           None \<Rightarrow> Inl AssertionError
         | Some default_price \<Rightarrow>
             res_bind (paper_update u5 r ''ack'' ACK (Some (exchange_order_id (ord_id r))) 0 None None None base)
               (\<lambda>ack.
             res_bind (fill_loop u5 cm r default_price base 1 0 0 (scn_slices scn))
               (\<lambda>(us, fes, cum_qty, cum_notional, n).
             if scn_cancel_remaining scn \<and> cum_qty < ord_qty r
             then
               res_bind (if cum_qty = 0 then Inr None else res_map Some (dec_div cum_notional cum_qty)) (\<lambda>avg.
               res_bind (paper_update u5 r ''cancel_after_partial'' CANCELED
                 (Some (exchange_order_id (ord_id r))) cum_qty avg None None (base + seconds (int n))) (\<lambda>c.
               Inr (paper_report (ack # us @ [c]) fes)))
             else Inr (paper_report (ack # us) fes)))))"

definition submit_order ::
  "(string \<Rightarrow> uuid) \<Rightarrow> cost_model \<Rightarrow> (order \<Rightarrow> order_intent \<Rightarrow> scenario) option \<Rightarrow> datetime
     \<Rightarrow> order \<Rightarrow> order_intent \<Rightarrow> execution_report res" where
  "submit_order u5 cm resolver base r i =
     res_bind (validate_order_pair r i) (\<lambda>_.
     res_bind (validate_a_share_contract u5 r i base) (\<lambda>rejected.
       case rejected of
         Some rep \<Rightarrow> Inr rep
       | None \<Rightarrow>
           build_execution_report u5 cm r i
             (case resolver of None \<Rightarrow> default_scenario r i | Some f \<Rightarrow> f r i) base))"

definition cancel_order :: "(string \<Rightarrow> uuid) \<Rightarrow> datetime \<Rightarrow> order \<Rightarrow> execution_report res" where
  "cancel_order u5 now r =
     (if ord_status r \<notin> {NEW, ACK, PARTIALLY_FILLED} then Inr (paper_report [] [])
      else res_map (\<lambda>u. paper_report [u] [])
        (paper_update u5 r ''cancel'' CANCELED (ord_exchange_order_id r) (ord_filled_qty r)
           (ord_avg_fill_price r) None None now))"

section \<open>Updates of a report\<close>

lemma exchange_order_id_trim [simp]:
  "trim (exchange_order_id u) = exchange_order_id u" "exchange_order_id u \<noteq> []"
proof -
  have "list_all (\<lambda>c. \<not> is_trim_space c) (take 12 (uuid_hex u))"
    by (auto simp: list_all_iff uuid_hex_def dest!: in_set_takeD hex_digits_not_space)
  then show "trim (exchange_order_id u) = exchange_order_id u"
    by (intro trim_id) (simp add: exchange_order_id_def is_trim_space_def)
qed (simp add: exchange_order_id_def)

lemma paper_updateD:
  assumes "paper_update u5 r suffix s x q avg code msg t = Inr u" "order_ok r"
  shows "order_update_ok u" "upd_order_id u = ord_id r" "upd_intent_id u = ord_intent_id r"
    "upd_run_id u = ord_run_id r" "upd_account u = ord_account r" "upd_exchange u = ord_exchange r"
    "upd_symbol u = ord_symbol r" "upd_status u = s" "upd_exchange_order_id u = map_option trim x"
    "upd_filled_qty u = q" "upd_avg_fill_price u = avg" "upd_event_time u = t" "upd_created_at u = t"
    "upd_error_code u = map_option trim code"
  using assms order_norm [OF assms(2)]
  by (auto simp: paper_update_def make_order_update_iff normalize_update_def)

text \<open>The status an order has when a quantity of it is filled.\<close>

definition fill_status :: "rat \<Rightarrow> rat \<Rightarrow> order_status" where
  "fill_status qty filled = (if filled = qty then FILLED else if filled = 0 then ACK else PARTIALLY_FILLED)"

text \<open>The order while a report is being applied.\<close>

definition in_fill :: "order \<Rightarrow> rat \<Rightarrow> order \<Rightarrow> bool" where
  "in_fill r0 filled r \<longleftrightarrow> order_ok r \<and> same_order r0 r \<and> ord_filled_qty r = filled
     \<and> ord_exchange_order_id r = Some (exchange_order_id (ord_id r0))
     \<and> ord_status r = fill_status (ord_qty r0) filled"

lemma fill_loop_Cons:
  assumes "fill_loop u5 cm r dp base n cq cn (s # ss) = Inr (us, fes, q, nt, k)"
  obtains avg cost f fe u us' fes'
  where "0 < slice_qty s" "dec_add cq (slice_qty s) \<le> ord_qty r"
    "dec_div (dec_add cn (dec_mul (slice_qty s) (or_price (slice_price s) dp))) (dec_add cq (slice_qty s)) = Inr avg"
    "build_cost_breakdown cm (ord_side r) (slice_qty s) (or_price (slice_price s) dp) = Inr cost"
    "make_fill
       \<lparr>fill_id = paper_fill_id u5 (ord_id r) n, fill_order_id = ord_id r, fill_run_id = ord_run_id r,
        fill_exchange_fill_id = Some (exchange_fill_id (ord_id r) n), fill_account = ord_account r,
        fill_exchange = ord_exchange r, fill_symbol = ord_symbol r, fill_side = ord_side r,
        fill_qty = slice_qty s, fill_price = or_price (slice_price s) dp, fill_fee = cb_total_fee cost,
        fill_fee_asset = Some (cb_currency cost), fill_liquidity = slice_liquidity s,
        fill_time = base + seconds (int n), fill_created_at = base + seconds (int n)\<rparr> = Inr f"
    "make_fill_event
       \<lparr>fe_id = paper_fill_event_id u5 (ord_id r) n, fe_order_id = ord_id r, fe_intent_id = ord_intent_id r,
        fe_run_id = ord_run_id r, fe_account = ord_account r, fe_exchange = ord_exchange r,
        fe_symbol = ord_symbol r, fe_fill = f, fe_cost = cost, fe_event_time = base + seconds (int n),
        fe_created_at = base + seconds (int n)\<rparr> = Inr fe"
    "paper_update u5 r (''fill-'' @ show_nat n)
       (if dec_add cq (slice_qty s) = ord_qty r then FILLED else PARTIALLY_FILLED)
       (Some (exchange_order_id (ord_id r))) (dec_add cq (slice_qty s)) (Some avg) None None
       (base + seconds (int n)) = Inr u"
    "fill_loop u5 cm r dp base (Suc n) (dec_add cq (slice_qty s))
       (dec_add cn (dec_mul (slice_qty s) (or_price (slice_price s) dp))) ss = Inr (us', fes', q, nt, k)"
    "us = u # us'" "fes = fe # fes'"
  using assms by (auto simp: Let_def split: if_splits prod.splits)

declare fill_loop.simps(2) [simp del]

lemma in_fill_step:
  assumes f: "in_fill r0 cq r" and r0: "order_ok r0" "ord_submitted_at r0 \<le> base"
    and cq: "0 \<le> cq" "ctx cq = cq" and s: "0 < sq" "dec_add cq sq \<le> ord_qty r0"
    and u: "paper_update u5 r0 suffix (if dec_add cq sq = ord_qty r0 then FILLED else PARTIALLY_FILLED)
       (Some (exchange_order_id (ord_id r0))) (dec_add cq sq) (Some avg) None None (base + seconds (int n)) = Inr u"
  shows "\<exists>r'. apply_order_update r u = Inr r' \<and> in_fill r0 (dec_add cq sq) r'"
proof -
  note ud = paper_updateD [OF u r0(1)]
  have r: "order_ok r" "same_order r0 r" "ord_filled_qty r = cq"
    "ord_exchange_order_id r = Some (exchange_order_id (ord_id r0))" "ord_status r = fill_status (ord_qty r0) cq"
    using f by (simp_all add: in_fill_def)
  have same: "ord_id r = ord_id r0" "ord_intent_id r = ord_intent_id r0" "ord_run_id r = ord_run_id r0"
    "ord_account r = ord_account r0" "ord_exchange r = ord_exchange r0" "ord_symbol r = ord_symbol r0"
    "ord_qty r = ord_qty r0" "ord_submitted_at r = ord_submitted_at r0"
    using r(2) by (simp_all add: same_order_def)
  have grow: "cq \<le> dec_add cq sq"
    unfolding dec_add_def by (rule dec.rnd_add_ge) (use cq s in simp_all)
  have pos: "0 < dec_add cq sq"
    using cq s by (simp add: dec_add_def add_nonneg_pos)
  have st: "upd_status u = fill_status (ord_qty r0) (dec_add cq sq)"
    using ud(8) pos by (simp add: fill_status_def)
  have tr: "can_transition_order_status (ord_status r) (upd_status u)"
    using r(5) ud(8) grow s(2) by (auto simp: fill_status_def can_transition_order_status_def)
  obtain r' where r': "apply_order_update r u = Inr r'"
    "ord_exchange_order_id r' = or_text_option (upd_exchange_order_id u) (ord_exchange_order_id r)"
  proof (rule apply_order_update_accepts [OF r(1) ud(1)])
    show "ord_submitted_at r \<le> upd_event_time u"
      using r0(2) ud(12) same by (simp add: seconds_def us_defs)
    show "upd_status u = PARTIALLY_FILLED \<Longrightarrow> upd_filled_qty u < ord_qty r"
      using ud(8,10) s(2) same by (auto split: if_splits)
    show "upd_status u = FILLED \<Longrightarrow> upd_filled_qty u = ord_qty r"
      using ud(8,10) same by (auto split: if_splits)
  qed (use ud same tr s(2) r(4) in simp_all)
  note step = apply_order_update_step [OF r'(1) r(1)]
  have "in_fill r0 (dec_add cq sq) r'"
    using step(1-3,5) same_order_trans [OF r(2) step(2)] r'(2) ud(9,10) st
    by (simp add: in_fill_def or_text_option_def)
  then show ?thesis
    using r'(1) by blast
qed

lemma fill_loop_applies:
  assumes "fill_loop u5 cm r0 dp base n cq cn ss = Inr (us, fes, q, nt, k)"
    and "in_fill r0 cq r" "order_ok r0" "ord_submitted_at r0 \<le> base" "0 \<le> cq" "ctx cq = cq"
  shows "\<exists>r'. res_fold apply_order_update r us = Inr r' \<and> in_fill r0 q r' \<and> 0 \<le> q \<and> ctx q = q \<and> q \<le> ord_qty r0"
  using assms
proof (induction ss arbitrary: n cq cn us fes r)
  case Nil
  then have "q \<le> ord_qty r0"
    using order_okD(3) [of r] by (auto simp: in_fill_def same_order_def)
  then show ?case
    using Nil by simp
next
  case (Cons s ss)
  from Cons.prems(1) show ?case
  proof (rule fill_loop_Cons)
    fix avg cost f fe u us' fes'
    assume h: "0 < slice_qty s" "dec_add cq (slice_qty s) \<le> ord_qty r0"
      "paper_update u5 r0 (''fill-'' @ show_nat n)
       (if dec_add cq (slice_qty s) = ord_qty r0 then FILLED else PARTIALLY_FILLED)
       (Some (exchange_order_id (ord_id r0))) (dec_add cq (slice_qty s)) (Some avg) None None
       (base + seconds (int n)) = Inr u"
      "fill_loop u5 cm r0 dp base (Suc n) (dec_add cq (slice_qty s))
       (dec_add cn (dec_mul (slice_qty s) (or_price (slice_price s) dp))) ss = Inr (us', fes', q, nt, k)"
      "us = u # us'"
    obtain r1 where r1: "apply_order_update r u = Inr r1" "in_fill r0 (dec_add cq (slice_qty s)) r1"
      using in_fill_step [OF Cons.prems(2-6) h(1-3)] by blast
    have "0 \<le> dec_add cq (slice_qty s)" "ctx (dec_add cq (slice_qty s)) = dec_add cq (slice_qty s)"
      using Cons.prems(5) h(1) by (simp_all add: dec_add_def)
    from Cons.IH [OF h(4) r1(2) Cons.prems(3,4) this] show ?thesis
      using r1(1) h(5) by simp
  qed
qed

section \<open>Fill events of a report\<close>

lemma build_cost_breakdown_D:
  assumes "build_cost_breakdown cm side qty price = Inr c"
  shows "cost_breakdown_ok c" "cb_gross_notional c = dec_mul qty price" "cb_currency c = ''CNY''"
    "cb_net_cash_flow c = (if side = SELL then dec_sub (dec_mul qty price) (cb_total_fee c)
                           else dec_neg (dec_add (dec_mul qty price) (cb_total_fee c)))"
    "quantize_fee (dec_mul (dec_mul qty price) (cm_commission cm)) = Inr (cb_commission c)"
    "quantize_fee (dec_mul (dec_mul qty price) (cm_transfer_fee cm)) = Inr (cb_transfer_fee c)"
    "side = BUY \<Longrightarrow> cb_stamp_duty c = 0"
    "side = SELL \<Longrightarrow> quantize_fee (dec_mul (dec_mul qty price) (cm_stamp_duty_sell cm)) = Inr (cb_stamp_duty c)"
proof -
  have "trim ''CNY'' = ''CNY''"
    by code_simp
  with assms show "cost_breakdown_ok c" "cb_gross_notional c = dec_mul qty price" "cb_currency c = ''CNY''"
    "cb_net_cash_flow c = (if side = SELL then dec_sub (dec_mul qty price) (cb_total_fee c)
                           else dec_neg (dec_add (dec_mul qty price) (cb_total_fee c)))"
    "quantize_fee (dec_mul (dec_mul qty price) (cm_commission cm)) = Inr (cb_commission c)"
    "quantize_fee (dec_mul (dec_mul qty price) (cm_transfer_fee cm)) = Inr (cb_transfer_fee c)"
    "side = BUY \<Longrightarrow> cb_stamp_duty c = 0"
    "side = SELL \<Longrightarrow> quantize_fee (dec_mul (dec_mul qty price) (cm_stamp_duty_sell cm)) = Inr (cb_stamp_duty c)"
    by (auto simp: build_cost_breakdown_def Let_def make_cost_breakdown_iff split: if_splits)
qed

text \<open>A fill event that stems from a slice of an order.\<close>

definition event_of_slice :: "cost_model \<Rightarrow> order \<Rightarrow> rat \<Rightarrow> fill_slice \<Rightarrow> fill_event \<Rightarrow> bool" where
  "event_of_slice cm r dp s fe \<longleftrightarrow>
     fill_event_ok fe \<and> fill_side (fe_fill fe) = ord_side r \<and> fill_qty (fe_fill fe) = slice_qty s
     \<and> fill_price (fe_fill fe) = or_price (slice_price s) dp
     \<and> build_cost_breakdown cm (ord_side r) (slice_qty s) (or_price (slice_price s) dp) = Inr (fe_cost fe)
     \<and> fe_order_id fe = ord_id r \<and> fe_intent_id fe = ord_intent_id r \<and> fe_run_id fe = ord_run_id r
     \<and> fe_account fe = ord_account r \<and> fe_exchange fe = ord_exchange r \<and> fe_symbol fe = ord_symbol r
     \<and> fe_event_time fe = fill_time (fe_fill fe) \<and> fe_created_at fe = fill_time (fe_fill fe)
     \<and> fill_created_at (fe_fill fe) = fill_time (fe_fill fe)"

lemma event_of_sliceI:
  assumes r: "order_ok r" and c: "build_cost_breakdown cm (ord_side r) (slice_qty s) price = Inr cost"
    and f: "make_fill
       \<lparr>fill_id = i, fill_order_id = ord_id r, fill_run_id = ord_run_id r,
        fill_exchange_fill_id = x, fill_account = ord_account r,
        fill_exchange = ord_exchange r, fill_symbol = ord_symbol r, fill_side = ord_side r,
        fill_qty = slice_qty s, fill_price = price, fill_fee = cb_total_fee cost,
        fill_fee_asset = Some (cb_currency cost), fill_liquidity = slice_liquidity s,
        fill_time = t, fill_created_at = t\<rparr> = Inr f"
    and e: "make_fill_event
       \<lparr>fe_id = j, fe_order_id = ord_id r, fe_intent_id = ord_intent_id r,
        fe_run_id = ord_run_id r, fe_account = ord_account r, fe_exchange = ord_exchange r,
        fe_symbol = ord_symbol r, fe_fill = f, fe_cost = cost, fe_event_time = t, fe_created_at = t\<rparr> = Inr fe"
    and p: "price = or_price (slice_price s) dp"
  shows "event_of_slice cm r dp s fe" "fill_time (fe_fill fe) = t"
proof -
  note n = order_norm [OF r] and cd = build_cost_breakdown_D(1-3) [OF c]
  note f' = f [unfolded make_fill_iff] and e' = e [unfolded make_fill_event_iff]
  note fo = f' [THEN conjunct2] and fe = e' [THEN conjunct1] and fr = e' [THEN conjunct2]
  have fs: "fill_side f = ord_side r" "fill_qty f = slice_qty s" "fill_price f = price" "fill_time f = t"
    "fill_created_at f = t"
    using f n by (simp_all add: make_fill_iff normalize_fill_def)
  have fes: "fe_fill fe = f" "fe_cost fe = cost" "fe_order_id fe = ord_id r" "fe_intent_id fe = ord_intent_id r"
    "fe_run_id fe = ord_run_id r" "fe_account fe = ord_account r" "fe_exchange fe = ord_exchange r"
    "fe_symbol fe = ord_symbol r" "fe_event_time fe = t" "fe_created_at fe = t"
    unfolding fe using n by (simp_all add: normalize_fill_event_def)
  have "fill_event_ok fe"
    using fr fo cd(1) by (simp add: fill_event_ok_def fes) (simp add: fe)
  then show "event_of_slice cm r dp s fe" "fill_time (fe_fill fe) = t"
    using fs fes c p by (simp_all add: event_of_slice_def)
qed

lemma fill_loop_events:
  assumes "fill_loop u5 cm r dp base n cq cn ss = Inr (us, fes, q, nt, k)" "order_ok r"
  shows "list_all2 (event_of_slice cm r dp) ss fes
         \<and> map (\<lambda>fe. fill_time (fe_fill fe)) fes = map (\<lambda>j. base + seconds (int j)) [n..<n + length ss]"
  using assms(1)
proof (induction ss arbitrary: n cq cn us fes)
  case (Cons s ss)
  from Cons.prems show ?case
  proof (rule fill_loop_Cons)
    fix avg cost f fe u us' fes'
    assume h: "build_cost_breakdown cm (ord_side r) (slice_qty s) (or_price (slice_price s) dp) = Inr cost"
      "make_fill
       \<lparr>fill_id = paper_fill_id u5 (ord_id r) n, fill_order_id = ord_id r, fill_run_id = ord_run_id r,
        fill_exchange_fill_id = Some (exchange_fill_id (ord_id r) n), fill_account = ord_account r,
        fill_exchange = ord_exchange r, fill_symbol = ord_symbol r, fill_side = ord_side r,
        fill_qty = slice_qty s, fill_price = or_price (slice_price s) dp, fill_fee = cb_total_fee cost,
        fill_fee_asset = Some (cb_currency cost), fill_liquidity = slice_liquidity s,
        fill_time = base + seconds (int n), fill_created_at = base + seconds (int n)\<rparr> = Inr f"
      "make_fill_event
       \<lparr>fe_id = paper_fill_event_id u5 (ord_id r) n, fe_order_id = ord_id r, fe_intent_id = ord_intent_id r,
        fe_run_id = ord_run_id r, fe_account = ord_account r, fe_exchange = ord_exchange r,
        fe_symbol = ord_symbol r, fe_fill = f, fe_cost = cost, fe_event_time = base + seconds (int n),
        fe_created_at = base + seconds (int n)\<rparr> = Inr fe"
      "fill_loop u5 cm r dp base (Suc n) (dec_add cq (slice_qty s))
       (dec_add cn (dec_mul (slice_qty s) (or_price (slice_price s) dp))) ss = Inr (us', fes', q, nt, k)"
      "fes = fe # fes'"
    have "[n..<n + length (s # ss)] = n # [Suc n..<Suc n + length ss]"
      by (subst upt_conv_Cons) simp_all
    then show ?case
      using event_of_sliceI [OF assms(2) h(1-3) refl] Cons.IH [OF h(4)] h(5) by simp
  qed
qed simp

lemma fill_loop_pos:
  "fill_loop u5 cm r dp base n cq cn ss = Inr (us, fes, q, nt, k) \<Longrightarrow> x \<in> set ss \<Longrightarrow> 0 < slice_qty x"
proof (induction ss arbitrary: n cq cn us fes)
  case (Cons s ss)
  from Cons.prems(1) show ?case
    by (rule fill_loop_Cons) (use Cons in auto)
qed simp

lemma fill_loop_total:
  assumes "fill_loop u5 cm r dp base n cq cn ss = Inr (us, fes, q, nt, k)"
    and "on_grid e cq" "\<forall>s \<in> set ss. on_grid e (slice_qty s)" "on_grid e (ord_qty r)" "0 \<le> cq"
    and "cq + sum_list (map slice_qty ss) \<le> 10 ^ 28 * pow10 e"
  shows "q = cq + sum_list (map slice_qty ss)"
  using assms
proof (induction ss arbitrary: n cq cn us fes)
  case (Cons s ss)
  from Cons.prems(1) show ?case
  proof (rule fill_loop_Cons)
    fix us' fes'
    assume h: "0 < slice_qty s"
      "fill_loop u5 cm r dp base (Suc n) (dec_add cq (slice_qty s))
       (dec_add cn (dec_mul (slice_qty s) (or_price (slice_price s) dp))) ss = Inr (us', fes', q, nt, k)"
    have pos: "0 \<le> slice_qty x" if "x \<in> set ss" for x
      using fill_loop_pos [OF h(2) that] by simp
    then have "0 \<le> sum_list (map slice_qty ss)"
      by (intro sum_list_nonneg) auto
    then have "on_grid e (cq + slice_qty s)"
      using Cons.prems h(1) by (intro on_grid_add) auto
    moreover from this have "dec_add cq (slice_qty s) = cq + slice_qty s"
      by (simp add: dec_add_def ctx_exact)
    ultimately show ?case
      using Cons.IH [OF h(2)] Cons.prems h(1) by (simp add: add.assoc)
  qed
qed simp

section \<open>Submissions and cancellations\<close>

lemma reject_report_applies:
  assumes "reject_report u5 r base code msg = Inr rep" "order_ok r" "ord_status r = NEW"
    and "ord_submitted_at r \<le> base"
  shows "\<exists>r'. res_fold apply_order_update r (rep_order_updates rep) = Inr r' \<and> ord_status r' = REJECTED
           \<and> ord_filled_qty r' = 0 \<and> rep_fill_events rep = []"
proof -
  obtain u where u: "paper_update u5 r (''reject:'' @ code) REJECTED None 0 None (Some code) (Some msg) base = Inr u"
    "rep = paper_report [u] []"
    using assms(1) by (auto simp: reject_report_def)
  note ud = paper_updateD [OF u(1) assms(2)]
  obtain r' where r': "apply_order_update r u = Inr r'"
    by (rule apply_order_update_accepts [OF assms(2) ud(1)])
       (use ud assms order_okD(1) [OF assms(2)] in \<open>auto simp: can_transition_order_status_def\<close>)
  then show ?thesis
    using apply_order_update_step(3,5) [OF r' assms(2)] u(2) ud(8,10) by (simp add: paper_report_def)
qed

lemma ack_applies:
  assumes u: "paper_update u5 r ''ack'' ACK (Some (exchange_order_id (ord_id r))) 0 None None None base = Inr u"
    and r: "order_ok r" "ord_status r = NEW" "ord_submitted_at r \<le> base" "ord_exchange_order_id r = None"
  shows "\<exists>r'. apply_order_update r u = Inr r' \<and> in_fill r 0 r'"
proof -
  note ud = paper_updateD [OF u r(1)]
  obtain r' where r': "apply_order_update r u = Inr r'"
    "ord_exchange_order_id r' = or_text_option (upd_exchange_order_id u) (ord_exchange_order_id r)"
    by (rule apply_order_update_accepts [OF r(1) ud(1)])
       (use ud r order_okD(1) [OF r(1)] in \<open>auto simp: can_transition_order_status_def\<close>)
  have "0 < ord_qty r"
    using order_okD(1) [OF r(1)] .
  then have "in_fill r 0 r'"
    using apply_order_update_step [OF r'(1) r(1)] r'(2) ud(8,9,10)
    by (simp add: in_fill_def fill_status_def or_text_option_def)
  then show ?thesis
    using r'(1) by blast
qed

lemma cancel_remaining_applies:
  assumes u: "paper_update u5 r0 suffix CANCELED (Some (exchange_order_id (ord_id r0))) q avg None None t = Inr u"
    and f: "in_fill r0 q r" and r0: "order_ok r0" "ord_submitted_at r0 \<le> t" and q: "q < ord_qty r0"
  shows "\<exists>r'. apply_order_update r u = Inr r' \<and> ord_status r' = CANCELED \<and> ord_filled_qty r' = q"
proof -
  note ud = paper_updateD [OF u r0(1)]
  have r: "order_ok r" "same_order r0 r" "ord_exchange_order_id r = Some (exchange_order_id (ord_id r0))"
    "ord_status r = fill_status (ord_qty r0) q"
    using f by (simp_all add: in_fill_def)
  have same: "ord_id r = ord_id r0" "ord_intent_id r = ord_intent_id r0" "ord_run_id r = ord_run_id r0"
    "ord_account r = ord_account r0" "ord_exchange r = ord_exchange r0" "ord_symbol r = ord_symbol r0"
    "ord_qty r = ord_qty r0" "ord_submitted_at r = ord_submitted_at r0"
    using r(2) by (simp_all add: same_order_def)
  obtain r' where r': "apply_order_update r u = Inr r'"
  proof (rule apply_order_update_accepts [OF r(1) ud(1)])
    show "can_transition_order_status (ord_status r) (upd_status u)"
      using r(4) ud(8) q by (auto simp: fill_status_def can_transition_order_status_def)
  qed (use ud same r(3) r0 q in simp_all)
  then show ?thesis
    using apply_order_update_step(3,5) [OF r' r(1)] ud(8,10) by auto
qed

text \<open>Every report of a submission applies to its new order, update by update.\<close>

lemma build_report_applies:
  assumes b: "build_execution_report u5 cm r i scn base = Inr rep"
    and r: "order_ok r" "ord_status r = NEW" "ord_submitted_at r \<le> base" "ord_exchange_order_id r = None"
  shows "\<exists>r'. res_fold apply_order_update r (rep_order_updates rep) = Inr r'
           \<and> (if ord_status r' = REJECTED then rep_fill_events rep = [] \<and> scenario_rejected scn
              else \<exists>dp us n cn k. (if ord_type r = MARKET then int_decision_price i else ord_price r) = Some dp
                     \<and> fill_loop u5 cm r dp base 1 0 0 (scn_slices scn)
                         = Inr (us, rep_fill_events rep, ord_filled_qty r', cn, k)
                     \<and> (ord_status r' = fill_status (ord_qty r) (ord_filled_qty r')
                        \<or> ord_status r' = CANCELED \<and> scn_cancel_remaining scn \<and> ord_filled_qty r' < ord_qty r))"
proof (cases "scenario_rejected scn")
  case True
  then have "reject_report u5 r base (or_text (scn_reject_code scn) ''PAPER_REJECTED'')
      (or_text (scn_reject_message scn) ''Paper execution scenario rejected the order.'') = Inr rep"
    using b by (simp add: build_execution_report_def)
  from reject_report_applies [OF this r(1-3)] show ?thesis
    using True by auto
next
  case False
  obtain dp ack us fes q nt k where dp: "(if ord_type r = MARKET then int_decision_price i else ord_price r) = Some dp"
    and ack: "paper_update u5 r ''ack'' ACK (Some (exchange_order_id (ord_id r))) 0 None None None base = Inr ack"
    and loop: "fill_loop u5 cm r dp base 1 0 0 (scn_slices scn) = Inr (us, fes, q, nt, k)"
    and rest: "(if scn_cancel_remaining scn \<and> q < ord_qty r
       then res_bind (if q = 0 then Inr None else res_map Some (dec_div nt q)) (\<lambda>avg.
            res_bind (paper_update u5 r ''cancel_after_partial'' CANCELED
                 (Some (exchange_order_id (ord_id r))) q avg None None (base + seconds (int k))) (\<lambda>c.
               Inr (paper_report (ack # us @ [c]) fes)))
       else Inr (paper_report (ack # us) fes)) = Inr rep"
    using b False by (auto simp: build_execution_report_def simp del: split_paired_Ex
        split: option.splits if_split_asm prod.splits)
  obtain r1 where r1: "apply_order_update r ack = Inr r1" "in_fill r 0 r1"
    using ack_applies [OF ack r] by blast
  obtain r2 where r2: "res_fold apply_order_update r1 us = Inr r2" "in_fill r q r2"
    using fill_loop_applies [OF loop r1(2) r(1,3)] by auto
  have s2: "ord_status r2 = fill_status (ord_qty r) q" "ord_filled_qty r2 = q"
    using r2(2) by (simp_all add: in_fill_def)
  have nr: "fill_status (ord_qty r) q \<noteq> REJECTED"
    by (simp add: fill_status_def)
  show ?thesis
  proof (cases "scn_cancel_remaining scn \<and> q < ord_qty r")
    case False
    then have "rep = paper_report (ack # us) fes"
      using rest by auto
    then show ?thesis
      using r1 r2 s2 nr dp loop by (auto simp: paper_report_def)
  next
    case True
    then obtain avg c where c: "paper_update u5 r ''cancel_after_partial'' CANCELED
         (Some (exchange_order_id (ord_id r))) q avg None None (base + seconds (int k)) = Inr c"
      and rep: "rep = paper_report (ack # us @ [c]) fes"
      using rest by auto
    have "ord_submitted_at r \<le> base + seconds (int k)"
      using r(3) by (simp add: seconds_def us_defs)
    then obtain r3 where "apply_order_update r2 c = Inr r3" "ord_status r3 = CANCELED" "ord_filled_qty r3 = q"
      using cancel_remaining_applies [OF c r2(2) r(1)] True by blast
    then show ?thesis
      using r1 r2 True rep dp loop by (auto simp: paper_report_def res_fold_append)
  qed
qed

lemma submit_order_cases:
  assumes "submit_order u5 cm resolver base r i = Inr rep"
  obtains (rejected) code msg where "a_share_violation r i = Inr (Some (code, msg))"
      "reject_report u5 r base code msg = Inr rep"
  | (executed) "a_share_violation r i = Inr None"
      "build_execution_report u5 cm r i
         (case resolver of None \<Rightarrow> default_scenario r i | Some f \<Rightarrow> f r i) base = Inr rep"
proof -
  from assms obtain v where v: "a_share_violation r i = Inr v"
    by (auto simp: submit_order_def validate_a_share_contract_def)
  show thesis
    using assms v rejected executed
    by (cases v) (auto simp: submit_order_def validate_a_share_contract_def)
qed

text \<open>What is filled is what the fill events say, for quantities the arithmetic keeps exact.\<close>

definition report_qty :: "execution_report \<Rightarrow> rat" where
  "report_qty rep = sum_list (map (\<lambda>fe. fill_qty (fe_fill fe)) (rep_fill_events rep))"

lemma event_of_slice_qty:
  "list_all2 (event_of_slice cm r dp) ss fes \<Longrightarrow>
     map slice_qty ss = map (\<lambda>fe. fill_qty (fe_fill fe)) fes"
  by (induction rule: list_all2_induct) (auto simp: event_of_slice_def)

lemma event_of_slice_ok:
  "list_all2 (event_of_slice cm r dp) ss fes \<Longrightarrow> fe \<in> set fes \<Longrightarrow> \<exists>s \<in> set ss. event_of_slice cm r dp s fe"
  by (induction rule: list_all2_induct) auto

lemma submit_order_applies:
  assumes s: "submit_order u5 cm resolver base r i = Inr rep"
    and r: "order_ok r" "ord_status r = NEW" "ord_submitted_at r \<le> base" "ord_exchange_order_id r = None"
  shows "\<exists>r'. res_fold apply_order_update r (rep_order_updates rep) = Inr r'
           \<and> (ord_status r' = REJECTED \<longrightarrow> rep_fill_events rep = [])
           \<and> (\<forall>fe \<in> set (rep_fill_events rep). fill_event_ok fe \<and> fe_order_id fe = ord_id r
                 \<and> fill_side (fe_fill fe) = ord_side r)"
  using s
proof (cases rule: submit_order_cases)
  case (rejected code msg)
  then show ?thesis
    using reject_report_applies [OF rejected(2) r(1-3)] by auto
next
  case executed
  obtain r' where r': "res_fold apply_order_update r (rep_order_updates rep) = Inr r'"
    and c: "if ord_status r' = REJECTED
       then rep_fill_events rep = [] \<and> scenario_rejected (case resolver of None \<Rightarrow> default_scenario r i | Some f \<Rightarrow> f r i)
       else \<exists>dp us n cn k. (if ord_type r = MARKET then int_decision_price i else ord_price r) = Some dp
          \<and> fill_loop u5 cm r dp base 1 0 0 (scn_slices (case resolver of None \<Rightarrow> default_scenario r i | Some f \<Rightarrow> f r i))
                         = Inr (us, rep_fill_events rep, ord_filled_qty r', cn, k)
          \<and> (ord_status r' = fill_status (ord_qty r) (ord_filled_qty r')
             \<or> ord_status r' = CANCELED
                \<and> scn_cancel_remaining (case resolver of None \<Rightarrow> default_scenario r i | Some f \<Rightarrow> f r i)
                \<and> ord_filled_qty r' < ord_qty r)"
    using build_report_applies [OF executed(2) r] by blast
  have "\<forall>fe \<in> set (rep_fill_events rep). fill_event_ok fe \<and> fe_order_id fe = ord_id r
                 \<and> fill_side (fe_fill fe) = ord_side r"
  proof (cases "ord_status r' = REJECTED")
    case False
    then obtain dp us cn k where
      "fill_loop u5 cm r dp base 1 0 0 (scn_slices (case resolver of None \<Rightarrow> default_scenario r i | Some f \<Rightarrow> f r i))
         = Inr (us, rep_fill_events rep, ord_filled_qty r', cn, k)"
      using c by auto
    from fill_loop_events [OF this r(1)] show ?thesis
      using event_of_slice_ok by (fastforce simp: event_of_slice_def)
  qed (use c in simp)
  then show ?thesis
    using r' c by (intro exI [of _ r']) auto
qed

text \<open>Without a resolver: a new order is rejected, or filled completely at one price within the limits.\<close>

lemma default_submission:
  assumes s: "submit_order u5 cm None base r i = Inr rep"
    and r: "order_ok r" "ord_status r = NEW" "ord_submitted_at r \<le> base" "ord_exchange_order_id r = None"
    and q: "ctx (ord_qty r) = ord_qty r" and i: "intent_ok i"
  shows "\<exists>r'. res_fold apply_order_update r (rep_order_updates rep) = Inr r'
           \<and> (ord_status r' = REJECTED \<and> rep_fill_events rep = []
              \<or> ord_status r' = FILLED
                \<and> (\<exists>fe m. rep_fill_events rep = [fe] \<and> fill_event_ok fe \<and> fill_qty (fe_fill fe) = ord_qty r
                     \<and> int_market_context i = Some m \<and> price_in_limits (fill_price (fe_fill fe)) m
                     \<and> ms_phase m = CONTINUOUS_AUCTION \<and> ms_suspension m = ACTIVE
                     \<and> fe_event_time fe = base + seconds 1))"
  using s
proof (cases rule: submit_order_cases)
  case (rejected code msg)
  then show ?thesis
    using reject_report_applies [OF rejected(2) r(1-3)] by auto
next
  case executed
  let ?scn = "default_scenario r i"
  have nrej: "\<not> scenario_rejected ?scn" "\<not> scn_cancel_remaining ?scn"
    by (simp_all add: scenario_rejected_def default_scenario_def)
  have b: "build_execution_report u5 cm r i ?scn base = Inr rep"
    using executed(2) by simp
  obtain r' dp us cn k where r': "res_fold apply_order_update r (rep_order_updates rep) = Inr r'"
    and dp: "(if ord_type r = MARKET then int_decision_price i else ord_price r) = Some dp"
    and loop: "fill_loop u5 cm r dp base 1 0 0 (scn_slices ?scn) = Inr (us, rep_fill_events rep, ord_filled_qty r', cn, k)"
    and st: "ord_status r' = fill_status (ord_qty r) (ord_filled_qty r')"
    using build_report_applies [OF b r] nrej by (auto split: if_split_asm)
  obtain m where m: "int_market_context i = Some m" "ms_suspension m = ACTIVE" "ms_phase m = CONTINUOUS_AUCTION"
    and lim: "price_in_limits dp m"
    using executed(1) dp by (auto simp: a_share_violation_def split: option.splits if_splits)
  have dpos: "0 < dp"
    using dp intent_okD(10) [OF i] order_ok_def r(1)
    by (auto simp: order_field_rules_def split: if_splits)
  let ?s = "\<lparr>slice_qty = ord_qty r, slice_price = (if ord_type r = LIMIT then ord_price r else int_decision_price i),
                      slice_liquidity = TAKER\<rparr>"
  have sl: "scn_slices ?scn = [?s]"
    by (simp add: default_scenario_def)
  have price: "or_price (slice_price ?s) dp = dp"
    using dp dpos by (cases "ord_type r") (auto simp: or_price_def)
  have "ord_filled_qty r' = dec_add 0 (ord_qty r)"
    using loop [unfolded sl] by (rule fill_loop_Cons) simp
  then have "ord_filled_qty r' = ord_qty r"
    using q by (simp add: dec_add_def)
  then have "ord_status r' = FILLED"
    using st by (simp add: fill_status_def)
  moreover obtain fe where fe: "rep_fill_events rep = [fe]" "event_of_slice cm r dp ?s fe"
    "fill_time (fe_fill fe) = base + seconds 1"
    using fill_loop_events [OF loop r(1)] unfolding sl by (auto simp: list_all2_Cons1)
  ultimately show ?thesis
    using r' m lim price by (auto simp: event_of_slice_def)
qed

text \<open>A cancellation: nothing for a finished order, otherwise the order ends canceled with its fills.\<close>

lemma cancel_order_applies:
  assumes "order_ok r" "ord_submitted_at r \<le> now"
  shows "\<exists>rep r'. cancel_order u5 now r = Inr rep \<and> rep_fill_events rep = []
           \<and> res_fold apply_order_update r (rep_order_updates rep) = Inr r'
           \<and> ord_filled_qty r' = ord_filled_qty r
           \<and> ord_status r' = (if terminal (ord_status r) then ord_status r else CANCELED)"
proof (cases "terminal (ord_status r)")
  case True
  then show ?thesis
    by (auto simp: cancel_order_def terminal_iff paper_report_def)
next
  case False
  note n = order_norm [OF assms(1)] and d = order_okD [OF assms(1)]
  have nn: "ord_account r \<noteq> []" "ord_exchange r \<noteq> []" "ord_symbol r \<noteq> []"
    "ord_avg_fill_price r \<noteq> None \<Longrightarrow> ord_filled_qty r \<noteq> 0"
    using assms(1) by (auto simp: order_ok_def order_field_rules_def order_contract_rules_def)
  have avg: "ord_avg_fill_price r = None \<Longrightarrow> ord_filled_qty r = 0"
    using False d(5,8) by (cases "ord_status r") (auto simp: terminal_iff)
  obtain u where u: "paper_update u5 r ''cancel'' CANCELED (ord_exchange_order_id r) (ord_filled_qty r)
           (ord_avg_fill_price r) None None now = Inr u"
    using n nn avg d(2,9)
    by (cases "ord_avg_fill_price r")
       (auto simp: paper_update_def make_order_update_def normalize_update_def order_update_rules_def)
  note ud = paper_updateD [OF u assms(1)]
  obtain r' where r': "apply_order_update r u = Inr r'"
  proof (rule apply_order_update_accepts [OF assms(1) ud(1)])
    show "can_transition_order_status (ord_status r) (upd_status u)"
      using False ud(8) by (cases "ord_status r") (auto simp: terminal_iff can_transition_order_status_def)
  qed (use ud n d(3) assms(2) in auto)
  have "ord_status r \<in> {NEW, ACK, PARTIALLY_FILLED}"
    using False by (cases "ord_status r") (auto simp: terminal_iff)
  then show ?thesis
    using r' u False apply_order_update_step(3,5) [OF r' assms(1)] ud(8,10)
    by (simp add: cancel_order_def paper_report_def)
qed

section \<open>Aggregates of a report\<close>

text \<open>The loop accumulates quantity and notional the way a sum over the fills does.\<close>

lemma fill_loop_sums:
  assumes "fill_loop u5 cm r dp base n cq cn ss = Inr (us, fes, q, nt, k)" "order_ok r"
  shows "q = foldl dec_add cq (map (\<lambda>fe. fill_qty (fe_fill fe)) fes)
         \<and> nt = foldl dec_add cn (map (\<lambda>fe. fill_notional (fe_fill fe)) fes)
         \<and> (us \<noteq> [] \<longrightarrow> upd_avg_fill_price (last us) = Some (ctx (nt / q)))"
  using assms(1)
proof (induction ss arbitrary: n cq cn us fes)
  case (Cons s ss)
  from Cons.prems show ?case
  proof (rule fill_loop_Cons)
    fix avg cost f fe u us' fes'
    assume h: "dec_div (dec_add cn (dec_mul (slice_qty s) (or_price (slice_price s) dp))) (dec_add cq (slice_qty s)) = Inr avg"
      "build_cost_breakdown cm (ord_side r) (slice_qty s) (or_price (slice_price s) dp) = Inr cost"
      "make_fill
       \<lparr>fill_id = paper_fill_id u5 (ord_id r) n, fill_order_id = ord_id r, fill_run_id = ord_run_id r,
        fill_exchange_fill_id = Some (exchange_fill_id (ord_id r) n), fill_account = ord_account r,
        fill_exchange = ord_exchange r, fill_symbol = ord_symbol r, fill_side = ord_side r,
        fill_qty = slice_qty s, fill_price = or_price (slice_price s) dp, fill_fee = cb_total_fee cost,
        fill_fee_asset = Some (cb_currency cost), fill_liquidity = slice_liquidity s,
        fill_time = base + seconds (int n), fill_created_at = base + seconds (int n)\<rparr> = Inr f"
      "make_fill_event
       \<lparr>fe_id = paper_fill_event_id u5 (ord_id r) n, fe_order_id = ord_id r, fe_intent_id = ord_intent_id r,
        fe_run_id = ord_run_id r, fe_account = ord_account r, fe_exchange = ord_exchange r,
        fe_symbol = ord_symbol r, fe_fill = f, fe_cost = cost, fe_event_time = base + seconds (int n),
        fe_created_at = base + seconds (int n)\<rparr> = Inr fe"
      "paper_update u5 r (''fill-'' @ show_nat n)
       (if dec_add cq (slice_qty s) = ord_qty r then FILLED else PARTIALLY_FILLED)
       (Some (exchange_order_id (ord_id r))) (dec_add cq (slice_qty s)) (Some avg) None None
       (base + seconds (int n)) = Inr u"
      "fill_loop u5 cm r dp base (Suc n) (dec_add cq (slice_qty s))
       (dec_add cn (dec_mul (slice_qty s) (or_price (slice_price s) dp))) ss = Inr (us', fes', q, nt, k)"
      "us = u # us'" "fes = fe # fes'"
    have e: "event_of_slice cm r dp s fe"
      using event_of_sliceI [OF assms(2) h(2-4) refl] by blast
    have a: "avg = ctx (dec_add cn (dec_mul (slice_qty s) (or_price (slice_price s) dp)) / dec_add cq (slice_qty s))"
      using h(1) by (auto simp: dec_div_def split: if_splits)
    have "us' = [] \<Longrightarrow> fes' = [] \<and> q = dec_add cq (slice_qty s)
        \<and> nt = dec_add cn (dec_mul (slice_qty s) (or_price (slice_price s) dp))"
      using h(6) by (cases ss) (auto elim: fill_loop_Cons)
    then show ?case
      using Cons.IH [OF h(6)] e a h(7,8) paper_updateD(11) [OF h(5) assms(2)]
      by (cases "us' = []") (auto simp: event_of_slice_def fill_notional_def)
  qed
qed simp

lemma res_fold_last_avg:
  assumes "res_fold apply_order_update r us = Inr r'" "order_ok r" "us \<noteq> []"
  shows "ord_avg_fill_price r' = upd_avg_fill_price (last us)"
proof -
  obtain vs u where us: "us = vs @ [u]"
    using assms(3) by (metis rev_exhaust)
  then obtain q where q: "res_fold apply_order_update r vs = Inr q" "apply_order_update q u = Inr r'"
    using assms(1) by (auto simp: res_fold_append)
  then have "order_ok q"
    using apply_order_updates_run assms(2) by blast
  then show ?thesis
    using apply_order_update_step(6) [OF q(2)] us by simp
qed

text \<open>After a report, the aggregates of the order are those of its fills.\<close>

definition order_reflects_fills :: "order \<Rightarrow> fill list \<Rightarrow> bool" where
  "order_reflects_fills r fs \<longleftrightarrow>
     (let total = foldl dec_add 0 (map fill_qty fs)
      in ord_filled_qty r = total
         \<and> (0 < total \<longrightarrow> ord_avg_fill_price r = Some (ctx (foldl dec_add 0 (map fill_notional fs) / total)))
         \<and> (if total = 0 then ord_status r \<in> {ACK, CANCELED, REJECTED}
            else if total = ord_qty r then ord_status r = FILLED
            else ord_status r \<in> {PARTIALLY_FILLED, CANCELED}))"

lemma order_reflects_fillsI:
  assumes "q = foldl dec_add 0 (map fill_qty fs)" "nt = foldl dec_add 0 (map fill_notional fs)"
    and "ord_filled_qty r = q" "0 < q \<Longrightarrow> ord_avg_fill_price r = Some (ctx (nt / q))"
    and "if q = 0 then ord_status r \<in> {ACK, CANCELED, REJECTED}
         else if q = ord_qty r then ord_status r = FILLED
         else ord_status r \<in> {PARTIALLY_FILLED, CANCELED}"
  shows "order_reflects_fills r fs"
  using assms(3-5) unfolding assms(1,2) by (simp add: order_reflects_fills_def Let_def)

lemma build_report_reflects:
  assumes b: "build_execution_report u5 cm r i scn base = Inr rep"
    and r: "order_ok r" "ord_status r = NEW" "ord_submitted_at r \<le> base" "ord_exchange_order_id r = None"
    and f: "res_fold apply_order_update r (rep_order_updates rep) = Inr r'"
  shows "order_reflects_fills r' (map fe_fill (rep_fill_events rep))"
proof (cases "scenario_rejected scn")
  case True
  then have "reject_report u5 r base (or_text (scn_reject_code scn) ''PAPER_REJECTED'')
      (or_text (scn_reject_message scn) ''Paper execution scenario rejected the order.'') = Inr rep"
    using b by (simp add: build_execution_report_def)
  from reject_report_applies [OF this r(1-3)] show ?thesis
    using f by (simp add: order_reflects_fills_def)
next
  case False
  obtain dp ack us fes q nt k where
      ack: "paper_update u5 r ''ack'' ACK (Some (exchange_order_id (ord_id r))) 0 None None None base = Inr ack"
    and loop: "fill_loop u5 cm r dp base 1 0 0 (scn_slices scn) = Inr (us, fes, q, nt, k)"
    and rest: "(if scn_cancel_remaining scn \<and> q < ord_qty r
       then res_bind (if q = 0 then Inr None else res_map Some (dec_div nt q)) (\<lambda>avg.
            res_bind (paper_update u5 r ''cancel_after_partial'' CANCELED
                 (Some (exchange_order_id (ord_id r))) q avg None None (base + seconds (int k))) (\<lambda>c.
               Inr (paper_report (ack # us @ [c]) fes)))
       else Inr (paper_report (ack # us) fes)) = Inr rep"
    using b False by (auto simp: build_execution_report_def simp del: split_paired_Ex
        split: option.splits if_split_asm prod.splits)
  obtain r1 where r1: "apply_order_update r ack = Inr r1" "in_fill r 0 r1"
    using ack_applies [OF ack r] by blast
  obtain r2 where r2: "res_fold apply_order_update r1 us = Inr r2" "in_fill r q r2" "0 \<le> q" "q \<le> ord_qty r"
    using fill_loop_applies [OF loop r1(2) r(1,3)] by auto
  have s2: "ord_status r2 = fill_status (ord_qty r) q" "ord_filled_qty r2 = q" "ord_qty r2 = ord_qty r"
    using r2(2) by (simp_all add: in_fill_def same_order_def)
  have ok1: "order_ok r1" and ok2: "order_ok r2"
    using r1(2) r2(2) by (simp_all add: in_fill_def)
  note sums = fill_loop_sums [OF loop r(1)]
  have map: "map (\<lambda>fe. fill_qty (fe_fill fe)) fes = map fill_qty (map fe_fill fes)"
    "map (\<lambda>fe. fill_notional (fe_fill fe)) fes = map fill_notional (map fe_fill fes)"
    by simp_all
  have q: "q = foldl dec_add 0 (map fill_qty (map fe_fill fes))"
    and nt: "nt = foldl dec_add 0 (map fill_notional (map fe_fill fes))"
    using sums unfolding map by blast+
  have avg2: "0 < q \<Longrightarrow> ord_avg_fill_price r2 = Some (ctx (nt / q))"
  proof (cases "us = []")
    case True
    then have "r2 = r1"
      using r2(1) by simp
    moreover assume "0 < q"
    ultimately show ?thesis
      using r1(2) r2(2) by (simp add: in_fill_def)
  next
    case False
    then show ?thesis
      using res_fold_last_avg [OF r2(1) ok1] sums by simp
  qed
  have qty: "0 < ord_qty r"
    using order_okD(1) [OF r(1)] .
  show ?thesis
  proof (cases "scn_cancel_remaining scn \<and> q < ord_qty r")
    case False
    then have rep: "rep = paper_report (ack # us) fes"
      using rest by auto
    then have "r' = r2"
      using f r1(1) r2(1) by (simp add: paper_report_def)
    moreover have "map fe_fill (rep_fill_events rep) = map fe_fill fes"
      using rep by (simp add: paper_report_def)
    ultimately show ?thesis
      using s2 avg2 qty by (auto simp: fill_status_def intro!: order_reflects_fillsI [OF q nt])
  next
    case True
    then obtain avg c where av: "(if q = 0 then Inr None else res_map Some (dec_div nt q)) = Inr avg"
      and c: "paper_update u5 r ''cancel_after_partial'' CANCELED
         (Some (exchange_order_id (ord_id r))) q avg None None (base + seconds (int k)) = Inr c"
      and rep: "rep = paper_report (ack # us @ [c]) fes"
      using rest by auto
    have c': "apply_order_update r2 c = Inr r'"
      using f rep r1(1) r2(1) by (simp add: paper_report_def res_fold_append)
    note st = apply_order_update_step [OF c' ok2] and cd = paper_updateD [OF c r(1)]
    have "same_order r2 r'"
      using st(2) .
    then have "ord_qty r' = ord_qty r"
      using s2(3) by (simp add: same_order_def)
    moreover have "0 < q \<Longrightarrow> avg = Some (ctx (nt / q))"
      using av by (auto simp: dec_div_def)
    moreover have "map fe_fill (rep_fill_events rep) = map fe_fill fes"
      using rep by (simp add: paper_report_def)
    ultimately show ?thesis
      using st(3,5,6) cd(8,10,11) True by (auto intro!: order_reflects_fillsI [OF q nt])
  qed
qed

text \<open>The fills of a report are one second apart, in order.\<close>

lemma build_report_times:
  assumes b: "build_execution_report u5 cm r i scn base = Inr rep" and r: "order_ok r"
  shows "\<exists>m. map (\<lambda>fe. fill_time (fe_fill fe)) (rep_fill_events rep)
           = map (\<lambda>j. base + seconds (int j)) [1..<1 + m]"
proof (cases "scenario_rejected scn")
  case True
  then have "rep_fill_events rep = []"
    using b by (auto simp: build_execution_report_def reject_report_def paper_report_def)
  then show ?thesis
    by (intro exI [of _ 0]) simp
next
  case False
  then obtain dp us q nt k where
    "fill_loop u5 cm r dp base 1 0 0 (scn_slices scn) = Inr (us, rep_fill_events rep, q, nt, k)"
    using b by (auto simp: build_execution_report_def paper_report_def simp del: split_paired_Ex
        split: option.splits if_split_asm prod.splits)
  from fill_loop_events [OF this r] show ?thesis
    by blast
qed

section \<open>Properties\<close>

lemma submit_order_reflects:
  assumes s: "submit_order u5 cm resolver base r i = Inr rep"
    and r: "order_ok r" "ord_status r = NEW" "ord_submitted_at r \<le> base" "ord_exchange_order_id r = None"
    and f: "res_fold apply_order_update r (rep_order_updates rep) = Inr r'"
  shows "order_reflects_fills r' (map fe_fill (rep_fill_events rep))"
  using s
proof (cases rule: submit_order_cases)
  case (rejected code msg)
  from reject_report_applies [OF rejected(2) r(1-3)] show ?thesis
    using f by (simp add: order_reflects_fills_def)
next
  case executed
  then show ?thesis
    using build_report_reflects [OF _ r f] by blast
qed

definition sample_submission :: "order_intent \<Rightarrow> execution_report res" where
  "sample_submission i = submit_order (\<lambda>_. 9) sample_cost_model None sample_time (sample_order 200 BUY) i"

lemma sample_submission_ok:
  "is_ok (sample_submission (sample_intent 200 BUY))"
  by code_simp

lemma sample_order_new:
  "order_ok (sample_order 200 BUY)" "ord_status (sample_order 200 BUY) = NEW"
  "ord_submitted_at (sample_order 200 BUY) \<le> sample_time" "ord_exchange_order_id (sample_order 200 BUY) = None"
  by code_simp+

text \<open>
  C15.  The reports of the paper venue apply.  Whatever scenario it plays, a report the adapter
  returns for a new order is accepted by that order update by update; a rejected order has no fills,
  every fill event is valid and of the order and side, and the order ends with exactly the filled
  quantity, average price and status of the reported fills.
\<close>

theorem paper_report_applies:
  assumes "submit_order u5 cm resolver base r i = Inr rep" "order_ok r" "ord_status r = NEW"
    and "ord_submitted_at r \<le> base" "ord_exchange_order_id r = None"
  shows "\<exists>r'. res_fold apply_order_update r (rep_order_updates rep) = Inr r' \<and> order_ok r' \<and> same_order r r'
    \<and> (ord_status r' = REJECTED \<longrightarrow> rep_fill_events rep = [])
    \<and> order_reflects_fills r' (map fe_fill (rep_fill_events rep))
    \<and> (\<forall>fe \<in> set (rep_fill_events rep). fill_event_ok fe \<and> fe_order_id fe = ord_id r
         \<and> fill_side (fe_fill fe) = ord_side r)"
proof -
  obtain r' where r': "res_fold apply_order_update r (rep_order_updates rep) = Inr r'"
    and c: "ord_status r' = REJECTED \<longrightarrow> rep_fill_events rep = []"
      "\<forall>fe \<in> set (rep_fill_events rep). fill_event_ok fe \<and> fe_order_id fe = ord_id r
         \<and> fill_side (fe_fill fe) = ord_side r"
    using submit_order_applies [OF assms] by blast
  show ?thesis
    using r' c submit_order_reflects [OF assms r'] apply_order_updates_run [OF r' assms(2)]
    by (intro exI [of _ r']) blast
qed

theorem paper_report_applies_witness:
  "\<exists>rep r'. sample_submission (sample_intent 200 BUY) = Inr rep
    \<and> res_fold apply_order_update (sample_order 200 BUY) (rep_order_updates rep) = Inr r'
    \<and> order_reflects_fills r' (map fe_fill (rep_fill_events rep))"
  using sample_submission_ok paper_report_applies [OF _ sample_order_new]
  unfolding is_ok_iff sample_submission_def by blast

text \<open>
  C26.  The default scenario.  Without a scenario resolver, a new order is either rejected without a
  fill, or filled completely by one valid fill one second later, at a price within the daily limits,
  and only while the security trades in continuous auction.
\<close>

theorem default_scenario_fills_or_rejects:
  assumes "submit_order u5 cm None base r i = Inr rep" "order_ok r" "ord_status r = NEW"
    and "ord_submitted_at r \<le> base" "ord_exchange_order_id r = None" "exact (ord_qty r)" "intent_ok i"
  shows "\<exists>r'. res_fold apply_order_update r (rep_order_updates rep) = Inr r'
    \<and> (ord_status r' = REJECTED \<and> rep_fill_events rep = []
       \<or> ord_status r' = FILLED \<and> ord_filled_qty r' = ord_qty r
         \<and> (\<exists>fe m. rep_fill_events rep = [fe] \<and> fill_event_ok fe \<and> fill_qty (fe_fill fe) = ord_qty r
              \<and> int_market_context i = Some m \<and> price_in_limits (fill_price (fe_fill fe)) m
              \<and> ms_phase m = CONTINUOUS_AUCTION \<and> ms_suspension m = ACTIVE
              \<and> fe_event_time fe = base + seconds 1))"
proof -
  obtain r' where r': "res_fold apply_order_update r (rep_order_updates rep) = Inr r'"
    and c: "ord_status r' = REJECTED \<and> rep_fill_events rep = []
       \<or> ord_status r' = FILLED
         \<and> (\<exists>fe m. rep_fill_events rep = [fe] \<and> fill_event_ok fe \<and> fill_qty (fe_fill fe) = ord_qty r
              \<and> int_market_context i = Some m \<and> price_in_limits (fill_price (fe_fill fe)) m
              \<and> ms_phase m = CONTINUOUS_AUCTION \<and> ms_suspension m = ACTIVE
              \<and> fe_event_time fe = base + seconds 1)"
    using default_submission [OF assms(1-5) _ assms(7)] assms(6) unfolding exact_def by blast
  have "ord_filled_qty r' = ord_qty r" if "ord_status r' = FILLED"
    using apply_order_updates_run [OF r' assms(2)] that order_okD(7) by (auto simp: same_order_def)
  then show ?thesis
    using r' c by (intro exI [of _ r']) blast
qed

theorem default_scenario_fills_or_rejects_witness:
  "\<exists>rep r'. sample_submission (sample_intent 200 BUY) = Inr rep
    \<and> res_fold apply_order_update (sample_order 200 BUY) (rep_order_updates rep) = Inr r'
    \<and> ord_status r' \<in> {FILLED, REJECTED}"
proof -
  have "exact (ord_qty (sample_order 200 BUY))" "intent_ok (sample_intent 200 BUY)"
    by code_simp+
  then show ?thesis
    using sample_submission_ok default_scenario_fills_or_rejects [OF _ sample_order_new]
    unfolding is_ok_iff sample_submission_def by blast
qed

text \<open>
  C27.  Cancellation.  Cancelling a valid order always succeeds: an open order becomes CANCELED with
  what it has filled kept, an order at its end is left as it is, and no fill is invented.
\<close>

theorem cancel_keeps_fills:
  assumes "order_ok r" "ord_submitted_at r \<le> now"
  shows "\<exists>rep r'. cancel_order u5 now r = Inr rep \<and> rep_fill_events rep = []
    \<and> res_fold apply_order_update r (rep_order_updates rep) = Inr r'
    \<and> ord_filled_qty r' = ord_filled_qty r
    \<and> ord_status r' = (if terminal (ord_status r) then ord_status r else CANCELED)"
  by (rule cancel_order_applies [OF assms])

theorem cancel_keeps_fills_witness:
  "\<exists>rep r'. cancel_order (\<lambda>_. 9) sample_time (sample_order 200 BUY) = Inr rep \<and> rep_fill_events rep = []
    \<and> res_fold apply_order_update (sample_order 200 BUY) (rep_order_updates rep) = Inr r'
    \<and> ord_filled_qty r' = ord_filled_qty (sample_order 200 BUY)
    \<and> ord_status r' = CANCELED"
  using cancel_keeps_fills [OF sample_order_new(1,3), of "\<lambda>_. 9"] sample_order_new(2)
  by (simp add: terminal_iff)

text \<open>
  Costs.  The costs of a fill are non-negative and add up: each fee is the notional times its
  rate to the nearest 0.0001 half up, stamp duty falls on sales only, and the cash flow is the
  notional less the total fee for a sale, minus both for a purchase.
\<close>

lemma cost_breakdown_bounds:
  assumes "build_cost_breakdown cm side qty price = Inr c" "exact (qty * price)"
    and "exact (qty * price * cm_commission cm)" "exact (qty * price * cm_transfer_fee cm)"
    and "exact (qty * price * cm_stamp_duty_sell cm)"
  shows "cost_breakdown_ok c \<and> cb_gross_notional c = qty * price
    \<and> \<bar>cb_commission c - qty * price * cm_commission cm\<bar> \<le> 1 / 20000
    \<and> \<bar>cb_transfer_fee c - qty * price * cm_transfer_fee cm\<bar> \<le> 1 / 20000
    \<and> (if side = SELL then \<bar>cb_stamp_duty c - qty * price * cm_stamp_duty_sell cm\<bar> \<le> 1 / 20000
       else cb_stamp_duty c = 0)
    \<and> cb_net_cash_flow c = (if side = SELL then dec_sub (qty * price) (cb_total_fee c)
         else - dec_add (qty * price) (cb_total_fee c))"
proof -
  note d = build_cost_breakdown_D [OF assms(1)]
  have g: "dec_mul qty price = qty * price"
    "dec_mul (qty * price) (cm_commission cm) = qty * price * cm_commission cm"
    "dec_mul (qty * price) (cm_transfer_fee cm) = qty * price * cm_transfer_fee cm"
    "dec_mul (qty * price) (cm_stamp_duty_sell cm) = qty * price * cm_stamp_duty_sell cm"
    using assms(2-5) by (simp_all add: dec_mul_def exact_def)
  have err: "\<bar>q - x\<bar> \<le> 1 / 20000" if "quantize_fee x = Inr q" for x q
    using quantize_half_up_error [of "- 4" x q] that pow10_of_nat [of 4]
    by (simp add: quantize_fee_def pow10_minus)
  have neg: "dec_neg (dec_add x y) = - dec_add x y" for x y
    by (simp add: dec_neg_def dec_add_def ctx_minus)
  show ?thesis
    using d(1) d(2) d(4) d(7) err [OF d(5) [unfolded g]] err [OF d(6) [unfolded g]] err d(8) [unfolded g]
    by (cases side) (simp_all add: g neg)
qed

lemma cost_breakdown_bounds_witness:
  "\<exists>c. build_cost_breakdown sample_cost_model SELL 200 40 = Inr c
    \<and> \<bar>cb_commission c - 200 * 40 * cm_commission sample_cost_model\<bar> \<le> 1 / 20000"
proof -
  have "is_ok (build_cost_breakdown sample_cost_model SELL 200 40)" "exact (200 * 40)"
    "exact (200 * 40 * cm_commission sample_cost_model)" "exact (200 * 40 * cm_transfer_fee sample_cost_model)"
    "exact (200 * 40 * cm_stamp_duty_sell sample_cost_model)"
    by code_simp+
  then show ?thesis
    using cost_breakdown_bounds unfolding is_ok_iff by blast
qed

end
