(* ===== verification/Reconciliation.thy ===== *)
theory Reconciliation
  imports Ledger Paper_Exchange "HOL-Library.AList" "HOL-Library.List_Lexorder"
    "HOL-Library.Char_ord" "HOL-Library.Product_Lexorder"
begin

text \<open>
  The paper-state reconciler of src/src/domain/reconciliation/service.py and models.py: it
  replays the persisted fills through the ledger from the baseline balances and reports every
  disagreement with the persisted orders, positions and balances.

  A dict is an association list in insertion order (AList.update keeps the place of a key, as
  Python does), sorted is the stable sort_key on the tuples the code names.  The message and
  the details of an issue, texts for the operator, are not modelled; the default identifiers of
  replayed rows are the argument ids.
\<close>

section \<open>Facts and results\<close>

record recon_issue =
  iss_code :: string
  iss_severity :: string
  iss_object_type :: string
  iss_object_id :: "uuid option"
  iss_account :: string
  iss_exchange :: "string option"
  iss_symbol :: "string option"

record recon_summary =
  sum_order_count :: nat
  sum_fill_count :: nat
  sum_replayed_count :: nat
  sum_position_count :: nat
  sum_balance_count :: nat
  sum_issue_count :: nat
  sum_commission :: rat
  sum_transfer_fee :: rat
  sum_stamp_duty :: rat
  sum_total_fee :: rat
  sum_net_cash_flow :: rat

record recon_facts =
  fct_account :: string
  fct_exchange :: string
  fct_trade_date :: date
  fct_trigger :: string
  fct_intents :: "order_intent list"
  fct_orders :: "order list"
  fct_fills :: "fill list"
  fct_positions :: "position list"
  fct_balances :: "balance_snapshot list"

record recon_result =
  rec_checked_at :: datetime
  rec_trigger :: string
  rec_account :: string
  rec_exchange :: string
  rec_cost_model :: cost_model
  rec_has_drift :: bool
  rec_issues :: "recon_issue list"
  rec_summary :: recon_summary

record replay_filters =
  flt_start_time :: "datetime option"
  flt_end_time :: "datetime option"
  flt_run_id :: "uuid option"
  flt_account :: "string option"
  flt_symbol :: "string option"
  flt_limit :: int

definition make_replay_filters :: "replay_filters \<Rightarrow> replay_filters res" where
  "make_replay_filters f =
     (let f = f\<lparr>flt_account := map_option trim (flt_account f),
                flt_symbol := map_option normalize_symbol (flt_symbol f)\<rparr>
      in res_bind (checks
        [(flt_account f = Some [], ValidationError ''account_id''),
         (flt_symbol f = Some [], ValidationError ''symbol''),
         (flt_limit f < 1 \<or> 1000 < flt_limit f, ValidationError ''limit''),
         (case (flt_start_time f, flt_end_time f) of (Some s, Some e) \<Rightarrow> e < s | _ \<Rightarrow> False,
            ValidationError ''end_time cannot be earlier than start_time'')]) (\<lambda>_. Inr f))"

definition issue ::
  "string \<Rightarrow> string \<Rightarrow> uuid option \<Rightarrow> string \<Rightarrow> string \<Rightarrow> string option \<Rightarrow> recon_issue" where
  "issue code object_type object_id account exchange symbol =
     \<lparr>iss_code = code, iss_severity = ''critical'', iss_object_type = object_type,
      iss_object_id = object_id, iss_account = account, iss_exchange = Some exchange,
      iss_symbol = symbol\<rparr>"

definition order_issue :: "string \<Rightarrow> order \<Rightarrow> recon_issue" where
  "order_issue code r =
     issue code ''order'' (Some (ord_id r)) (ord_account r) (ord_exchange r) (Some (ord_symbol r))"

definition fill_issue :: "string \<Rightarrow> fill \<Rightarrow> recon_issue" where
  "fill_issue code f =
     issue code ''fill'' (Some (fill_id f)) (fill_account f) (fill_exchange f) (Some (fill_symbol f))"

definition position_issue :: "string \<Rightarrow> uuid option \<Rightarrow> position \<Rightarrow> recon_issue" where
  "position_issue code i p =
     issue code ''position'' i (pos_account p) (pos_exchange p) (Some (pos_symbol p))"

definition balance_issue :: "string \<Rightarrow> uuid option \<Rightarrow> balance_snapshot \<Rightarrow> recon_issue" where
  "balance_issue code i b = issue code ''balance_snapshot'' i (bal_account b) (bal_exchange b) None"

section \<open>Costs and replayed events\<close>

definition build_paper_cost_breakdown :: "cost_model \<Rightarrow> fill \<Rightarrow> cost_breakdown res" where
  "build_paper_cost_breakdown cm f =
     (let gross = fill_notional f
      in res_bind (quantize_with round_half_up (- 4) (dec_mul gross (cm_commission cm))) (\<lambda>commission.
         res_bind (quantize_with round_half_up (- 4) (dec_mul gross (cm_transfer_fee cm))) (\<lambda>transfer_fee.
         res_bind (if fill_side f = SELL
                   then quantize_with round_half_up (- 4) (dec_mul gross (cm_stamp_duty_sell cm))
                   else Inr 0) (\<lambda>stamp_duty.
         let total_fee = dec_add (dec_add commission transfer_fee) stamp_duty;
             net = (if fill_side f = SELL then dec_sub gross total_fee
                    else dec_neg (dec_add gross total_fee))
         in make_cost_breakdown
           \<lparr>cb_currency = ''CNY'', cb_gross_notional = gross, cb_commission = commission,
            cb_transfer_fee = transfer_fee, cb_stamp_duty = stamp_duty, cb_total_fee = total_fee,
            cb_net_cash_flow = net\<rparr>))))"

definition build_replayed_fill_event :: "uuid \<Rightarrow> fill \<Rightarrow> order \<Rightarrow> cost_model \<Rightarrow> fill_event res" where
  "build_replayed_fill_event fresh f r cm =
     res_bind (build_paper_cost_breakdown cm f) (\<lambda>cost.
       make_fill_event
         \<lparr>fe_id = fresh, fe_order_id = fill_order_id f, fe_intent_id = ord_intent_id r,
          fe_run_id = fill_run_id f, fe_account = fill_account f, fe_exchange = fill_exchange f,
          fe_symbol = fill_symbol f, fe_fill = f, fe_cost = cost, fe_event_time = fill_time f,
          fe_created_at = fill_created_at f\<rparr>)"

section \<open>Orders\<close>

text \<open>A dict comprehension: later entries win, keys keep their first place.\<close>

definition index_by :: "('a \<Rightarrow> 'k) \<Rightarrow> 'a list \<Rightarrow> ('k \<times> 'a) list" where
  "index_by key xs = foldl (\<lambda>d x. AList.update (key x) x d) [] xs"

definition fill_key :: "fill \<Rightarrow> int \<times> int \<times> uuid" where
  "fill_key f = (fill_time f, fill_created_at f, fill_id f)"

definition fills_of_order :: "fill list \<Rightarrow> uuid \<Rightarrow> fill list" where
  "fills_of_order fills i = sort_key fill_key (filter (\<lambda>f. fill_order_id f = i) fills)"

definition dec_sum :: "rat list \<Rightarrow> rat" where
  "dec_sum xs = foldl dec_add 0 xs"

definition intent_mismatch :: "order \<Rightarrow> order_intent \<Rightarrow> bool" where
  "intent_mismatch r i \<longleftrightarrow> ord_account r \<noteq> int_account i \<or> ord_exchange r \<noteq> int_exchange i
     \<or> ord_symbol r \<noteq> int_symbol i \<or> ord_side r \<noteq> int_side i \<or> ord_type r \<noteq> int_type i
     \<or> ord_tif r \<noteq> int_tif i \<or> ord_qty r \<noteq> int_qty i \<or> ord_price r \<noteq> int_price i"

definition expected_status :: "order \<Rightarrow> rat \<Rightarrow> order_status option" where
  "expected_status r total_qty =
     (if total_qty = 0 then (if ord_status r \<in> {PARTIALLY_FILLED, FILLED} then Some ACK else None)
      else if total_qty = ord_qty r then (if ord_status r \<noteq> FILLED then Some FILLED else None)
      else if ord_status r \<notin> {PARTIALLY_FILLED, CANCELED} then Some PARTIALLY_FILLED
      else None)"

definition check_order ::
  "(uuid \<times> order_intent) list \<Rightarrow> fill list \<Rightarrow> order \<Rightarrow> recon_issue list res" where
  "check_order intents all_fills r =
     (let intent_issues = (case map_of intents (ord_intent_id r) of
            None \<Rightarrow> [order_issue ''ORDER_INTENT_MISSING'' r]
          | Some i \<Rightarrow> if intent_mismatch r i then [order_issue ''ORDER_INTENT_DRIFT'' r] else []);
          fills = fills_of_order all_fills (ord_id r);
          total_qty = dec_sum (map fill_qty fills);
          qty_issues = (if total_qty \<noteq> ord_filled_qty r then [order_issue ''ORDER_FILLED_QTY_DRIFT'' r] else []);
          over_issues = (if ord_qty r < total_qty then [order_issue ''ORDER_OVERFILLED'' r] else []);
          status_issues = (if expected_status r total_qty \<noteq> None
                           then [order_issue ''ORDER_STATUS_DRIFT'' r] else [])
      in res_bind
        (if 0 < total_qty
         then res_map (\<lambda>avg. if ord_avg_fill_price r \<noteq> Some avg
                then [order_issue ''ORDER_AVG_FILL_PRICE_DRIFT'' r] else [])
                (dec_div (dec_sum (map fill_notional fills)) total_qty)
         else Inr [])
        (\<lambda>avg_issues. Inr (intent_issues @ qty_issues @ over_issues @ avg_issues @ status_issues)))"

definition check_orders :: "recon_facts \<Rightarrow> recon_issue list res" where
  "check_orders facts =
     res_map concat (res_list (check_order (index_by int_id (fct_intents facts)) (fct_fills facts))
       (fct_orders facts))"

section \<open>Replay\<close>

record replay_state =
  rp_positions :: "(string \<times> position) list"
  rp_balances :: "(string \<times> balance_snapshot) list"
  rp_commission :: rat
  rp_transfer_fee :: rat
  rp_stamp_duty :: rat
  rp_total_fee :: rat
  rp_net_cash_flow :: rat
  rp_count :: nat
  rp_issues :: "recon_issue list"

text \<open>The exceptions the replay turns into an issue: ValueError and its subclasses.\<close>

fun is_value_error :: "fault \<Rightarrow> bool" where
  "is_value_error (ValidationError _) = True"
| "is_value_error (ValueError _) = True"
| "is_value_error OrderStateTransitionError = True"
| "is_value_error (SignalOrderIntentError _) = True"
| "is_value_error (PortfolioStateError _) = True"
| "is_value_error _ = False"

definition replay_fill ::
  "(fill \<Rightarrow> uuid \<times> uuid \<times> uuid) \<Rightarrow> cost_model \<Rightarrow> (uuid \<times> order) list \<Rightarrow> replay_state \<Rightarrow> fill
     \<Rightarrow> replay_state res" where
  "replay_fill ids cm orders st f =
     res_bind (build_paper_cost_breakdown cm f) (\<lambda>cost.
       let st = st\<lparr>rp_commission := dec_add (rp_commission st) (cb_commission cost),
                   rp_transfer_fee := dec_add (rp_transfer_fee st) (cb_transfer_fee cost),
                   rp_stamp_duty := dec_add (rp_stamp_duty st) (cb_stamp_duty cost),
                   rp_total_fee := dec_add (rp_total_fee st) (cb_total_fee cost),
                   rp_net_cash_flow := dec_add (rp_net_cash_flow st) (cb_net_cash_flow cost),
                   rp_issues := rp_issues st
                     @ (if fill_fee f \<noteq> cb_total_fee cost then [fill_issue ''FILL_FEE_DRIFT'' f] else [])\<rparr>
       in (case map_of orders (fill_order_id f) of
             None \<Rightarrow> Inr (st\<lparr>rp_issues := rp_issues st @ [fill_issue ''FILL_ORDER_MISSING'' f]\<rparr>)
           | Some r \<Rightarrow>
               let (event_id, position_id, balance_id) = ids f
               in (case res_bind (build_replayed_fill_event event_id f r cm) (\<lambda>fe.
                          apply_fill_event_to_portfolio position_id balance_id fe
                            (map_of (rp_positions st) (fill_symbol f))
                            (map_of (rp_balances st) (cb_currency (fe_cost fe)))) of
                     Inl e \<Rightarrow>
                       if is_value_error e
                       then Inr (st\<lparr>rp_issues := rp_issues st @ [fill_issue ''FILL_LEDGER_REPLAY_FAILED'' f]\<rparr>)
                       else Inl e
                   | Inr u \<Rightarrow>
                       Inr (st\<lparr>rp_positions := AList.update (fill_symbol f) (pu_position u) (rp_positions st),
                               rp_balances := AList.update (bal_asset (pu_balance u)) (pu_balance u) (rp_balances st),
                               rp_count := rp_count st + 1\<rparr>))))"

section \<open>Positions and balances\<close>

definition position_mismatch :: "position \<Rightarrow> position \<Rightarrow> bool" where
  "position_mismatch p q \<longleftrightarrow> pos_qty p \<noteq> pos_qty q \<or> pos_sellable_qty p \<noteq> pos_sellable_qty q
     \<or> pos_avg_entry_price p \<noteq> pos_avg_entry_price q \<or> pos_mark_price p \<noteq> pos_mark_price q
     \<or> pos_unrealized_pnl p \<noteq> pos_unrealized_pnl q \<or> pos_realized_pnl p \<noteq> pos_realized_pnl q
     \<or> pos_status p \<noteq> pos_status q"

definition position_not_empty :: "position \<Rightarrow> bool" where
  "position_not_empty p \<longleftrightarrow> pos_qty p \<noteq> 0 \<or> pos_sellable_qty p \<noteq> 0 \<or> pos_status p \<noteq> POS_CLOSED
     \<or> pos_avg_entry_price p \<noteq> None \<or> pos_mark_price p \<noteq> None \<or> pos_unrealized_pnl p \<noteq> 0"

definition check_position :: "position option \<Rightarrow> position option \<Rightarrow> recon_issue list" where
  "check_position persisted replayed =
     (case replayed of
        None \<Rightarrow> (case persisted of
            None \<Rightarrow> []
          | Some p \<Rightarrow> if position_not_empty p
              then [position_issue ''POSITION_UNBACKED_BY_FILLS'' (Some (pos_id p)) p] else [])
      | Some q \<Rightarrow> (case persisted of
            None \<Rightarrow> [position_issue ''POSITION_MISSING'' None q]
          | Some p \<Rightarrow> if position_mismatch p q
              then [position_issue ''POSITION_STATE_DRIFT'' (Some (pos_id p)) p] else []))"

text \<open>sorted(set(a) | set(b)) of two dicts.\<close>

definition sorted_keys :: "(string \<times> 'a) list \<Rightarrow> (string \<times> 'b) list \<Rightarrow> string list" where
  "sorted_keys a b = sort (remdups (map fst a @ map fst b))"

definition check_positions :: "position list \<Rightarrow> (string \<times> position) list \<Rightarrow> recon_issue list" where
  "check_positions persisted replayed =
     (let persisted = index_by pos_symbol persisted
      in concat (map (\<lambda>s. check_position (map_of persisted s) (map_of replayed s))
           (sorted_keys persisted replayed)))"

definition balance_mismatch :: "balance_snapshot \<Rightarrow> balance_snapshot \<Rightarrow> bool" where
  "balance_mismatch b c \<longleftrightarrow> bal_total b \<noteq> bal_total c \<or> bal_available b \<noteq> bal_available c
     \<or> bal_locked b \<noteq> bal_locked c"

definition check_balance ::
  "balance_snapshot option \<Rightarrow> balance_snapshot option \<Rightarrow> recon_issue list" where
  "check_balance persisted replayed =
     (case (replayed, persisted) of
        (None, None) \<Rightarrow> []
      | (None, Some b) \<Rightarrow> [balance_issue ''BALANCE_UNBACKED_BY_LEDGER'' (Some (bal_id b)) b]
      | (Some c, None) \<Rightarrow> [balance_issue ''BALANCE_SNAPSHOT_MISSING'' None c]
      | (Some c, Some b) \<Rightarrow>
          (if balance_mismatch b c then [balance_issue ''BALANCE_STATE_DRIFT'' (Some (bal_id b)) b] else [])
          @ (if bal_snapshot_time b < bal_snapshot_time c
             then [balance_issue ''BALANCE_SNAPSHOT_STALE'' (Some (bal_id b)) b] else []))"

definition check_balances ::
  "(string \<times> balance_snapshot) list \<Rightarrow> (string \<times> balance_snapshot) list \<Rightarrow> recon_issue list" where
  "check_balances latest replayed =
     concat (map (\<lambda>a. check_balance (map_of latest a) (map_of replayed a)) (sorted_keys latest replayed))"

section \<open>The pass\<close>

definition balance_key :: "balance_snapshot \<Rightarrow> string \<times> int \<times> int \<times> uuid" where
  "balance_key b = (bal_asset b, bal_snapshot_time b, bal_created_at b, bal_id b)"

definition set_default :: "'k \<Rightarrow> 'v \<Rightarrow> ('k \<times> 'v) list \<Rightarrow> ('k \<times> 'v) list" where
  "set_default k v d = (if map_of d k = None then d @ [(k, v)] else d)"

definition latest_balances :: "balance_snapshot list \<Rightarrow> (string \<times> balance_snapshot) list" where
  "latest_balances bs = index_by bal_asset (sort_key balance_key bs)"

definition baseline_balances :: "balance_snapshot list \<Rightarrow> (string \<times> balance_snapshot) list" where
  "baseline_balances bs = foldl (\<lambda>d b. set_default (bal_asset b) b d) [] (sort_key balance_key bs)"

definition initial_replay :: "recon_facts \<Rightarrow> recon_issue list \<Rightarrow> replay_state" where
  "initial_replay facts issues =
     \<lparr>rp_positions = [], rp_balances = baseline_balances (fct_balances facts), rp_commission = 0,
      rp_transfer_fee = 0, rp_stamp_duty = 0, rp_total_fee = 0, rp_net_cash_flow = 0,
      rp_count = 0, rp_issues = issues\<rparr>"

definition reconcile_paper_state ::
  "(fill \<Rightarrow> uuid \<times> uuid \<times> uuid) \<Rightarrow> datetime \<Rightarrow> recon_facts \<Rightarrow> cost_model \<Rightarrow> datetime option
     \<Rightarrow> recon_result res" where
  "reconcile_paper_state ids now facts cm checked_at =
     (let observed_at = (case checked_at of None \<Rightarrow> now | Some t \<Rightarrow> t)
      in res_bind (check_orders facts) (\<lambda>order_issues.
         res_bind (res_fold (replay_fill ids cm (index_by ord_id (fct_orders facts)))
                    (initial_replay facts order_issues) (sort_key fill_key (fct_fills facts))) (\<lambda>st.
         let replayed = map (\<lambda>(s, p). (s, rel_position
                (release_position_sellable_qty p (fct_trade_date facts) observed_at))) (rp_positions st);
             issues = rp_issues st @ check_positions (fct_positions facts) replayed
               @ check_balances (latest_balances (fct_balances facts)) (rp_balances st)
         in Inr
           \<lparr>rec_checked_at = observed_at, rec_trigger = fct_trigger facts, rec_account = fct_account facts,
            rec_exchange = fct_exchange facts, rec_cost_model = cm, rec_has_drift = (issues \<noteq> []),
            rec_issues = issues,
            rec_summary =
              \<lparr>sum_order_count = length (fct_orders facts), sum_fill_count = length (fct_fills facts),
               sum_replayed_count = rp_count st, sum_position_count = length (fct_positions facts),
               sum_balance_count = length (fct_balances facts), sum_issue_count = length issues,
               sum_commission = rp_commission st, sum_transfer_fee = rp_transfer_fee st,
               sum_stamp_duty = rp_stamp_duty st, sum_total_fee = rp_total_fee st,
               sum_net_cash_flow = rp_net_cash_flow st\<rparr>\<rparr>)))"

section \<open>Costs agree with the venue\<close>

lemma paper_cost_agrees:
  "build_paper_cost_breakdown cm f = build_cost_breakdown cm (fill_side f) (fill_qty f) (fill_price f)"
  unfolding build_paper_cost_breakdown_def build_cost_breakdown_def quantize_fee_def fill_notional_def
  by (rule refl)

section \<open>Orders of the venue reconcile\<close>

text \<open>A dict built from rows with distinct keys finds every row.\<close>

lemma map_of_update: "map_of (AList.update k v d) = (map_of d)(k \<mapsto> v)"
  by (rule ext) (simp add: update_conv')

lemma map_of_index_by_snoc:
  "map_of (index_by key (xs @ [x])) = (map_of (index_by key xs))(key x \<mapsto> x)"
  by (simp add: index_by_def map_of_update)

lemma index_by_lookup:
  "distinct (map key xs) \<Longrightarrow> x \<in> set xs \<Longrightarrow> map_of (index_by key xs) (key x) = Some x"
proof (induction xs rule: rev_induct)
  case (snoc y ys)
  have "key x \<noteq> key y" if "x \<noteq> y"
  proof -
    have "x \<in> set ys"
      using snoc.prems(2) that by simp
    then have "key x \<in> key ` set ys"
      by (rule imageI)
    then show ?thesis
      using snoc.prems(1) by auto
  qed
  then show ?case
    using snoc by (cases "x = y") (auto simp: map_of_index_by_snoc)
qed simp

lemma index_by_key: "map_of (index_by key xs) k = Some x \<Longrightarrow> key x = k \<and> x \<in> set xs"
proof (induction xs rule: rev_induct)
  case Nil
  then show ?case by (simp add: index_by_def)
next
  case (snoc y ys)
  then show ?case
    by (auto simp: map_of_index_by_snoc split: if_splits)
qed

lemma index_by_None: "map_of (index_by key xs) k = None \<longleftrightarrow> k \<notin> key ` set xs"
proof (induction xs rule: rev_induct)
  case Nil
  then show ?case by (simp add: index_by_def)
next
  case (snoc y ys)
  then show ?case
    by (auto simp: map_of_index_by_snoc)
qed

text \<open>The reconciler finds an order clean exactly when it agrees with its intent and its fills.\<close>

lemma check_order_clean:
  assumes "map_of intents (ord_intent_id r) = Some i" "\<not> intent_mismatch r i"
    and "order_reflects_fills r (fills_of_order fs (ord_id r))" "ord_filled_qty r \<le> ord_qty r"
  shows "check_order intents fs r = Inr []"
proof -
  let ?fs = "fills_of_order fs (ord_id r)"
  have "expected_status r (dec_sum (map fill_qty ?fs)) = None"
    using assms(3) by (auto simp: order_reflects_fills_def expected_status_def dec_sum_def Let_def split: if_splits)
  then show ?thesis
    using assms by (simp add: check_order_def Let_def order_reflects_fills_def dec_sum_def dec_div_def)
qed

lemma check_order_sound:
  assumes "check_order intents fs r = Inr []"
  shows "\<exists>i. map_of intents (ord_intent_id r) = Some i \<and> \<not> intent_mismatch r i"
    "ord_filled_qty r = dec_sum (map fill_qty (fills_of_order fs (ord_id r)))"
    "ord_filled_qty r \<le> ord_qty r"
    "expected_status r (ord_filled_qty r) = None"
    "0 < ord_filled_qty r \<Longrightarrow> ord_avg_fill_price r
       = Some (ctx (dec_sum (map fill_notional (fills_of_order fs (ord_id r))) / ord_filled_qty r))"
  using assms
  by (auto simp: check_order_def Let_def dec_div_def split: option.splits if_split_asm)

lemma sorted_fill_keys:
  assumes "map fill_time fs = map (\<lambda>j. base + seconds (int j)) [a..<b]"
  shows "sorted (map fill_key fs)"
proof -
  have "fill_key (fs ! i) \<le> fill_key (fs ! j)" if "i < j" "j < length fs" for i j
  proof -
    have len: "length fs = b - a"
      using arg_cong [OF assms, of length] by simp
    have "fill_time (fs ! n) = base + seconds (int (a + n))" if "n < length fs" for n
      using arg_cong [OF assms, of "\<lambda>l. l ! n"] that len by simp
    then have "fill_time (fs ! i) < fill_time (fs ! j)"
      using that by (simp add: seconds_def us_defs)
    then show ?thesis
      by (simp add: fill_key_def)
  qed
  then show ?thesis
    by (auto simp: sorted_iff_nth_mono_less)
qed

text \<open>A new order, submitted to the venue and updated with its report, is clean against its fills.\<close>

lemma venue_order_clean:
  assumes s: "submit_order u5 cm resolver base r i = Inr rep"
    and r: "order_ok r" "ord_status r = NEW" "ord_submitted_at r \<le> base" "ord_exchange_order_id r = None"
    and f: "res_fold apply_order_update r (rep_order_updates rep) = Inr r'"
    and i: "map_of intents (int_id i) = Some i" "\<not> intent_mismatch r i"
    and fs: "filter (\<lambda>f. fill_order_id f = ord_id r) fs = map fe_fill (rep_fill_events rep)"
  shows "check_order intents fs r' = Inr []"
proof -
  note run = apply_order_updates_run [OF f r(1)]
  have same: "same_order r r'" and ok: "order_ok r'"
    using run by simp_all
  have pair: "ord_intent_id r = int_id i"
    using s by (auto simp: submit_order_def validate_order_pair_def)
  have im: "\<not> intent_mismatch r' i"
    using i(2) same by (simp add: intent_mismatch_def same_order_def)
  note refl = submit_order_reflects [OF s r f]
  have sorted: "sort_key fill_key (map fe_fill (rep_fill_events rep)) = map fe_fill (rep_fill_events rep)"
    using s
  proof (cases rule: submit_order_cases)
    case (rejected code msg)
    from reject_report_applies [OF rejected(2) r(1-3)] show ?thesis
      by auto
  next
    case executed
    from build_report_times [OF this(2) r(1)] obtain m where
      t: "map fill_time (map fe_fill (rep_fill_events rep)) = map (\<lambda>j. base + seconds (int j)) [1..<1 + m]"
      by (auto simp: comp_def)
    show ?thesis
      by (rule sort_key_id_if_sorted) (rule sorted_fill_keys [OF t])
  qed
  have "fills_of_order fs (ord_id r') = map fe_fill (rep_fill_events rep)"
    using fs same sorted by (simp add: fills_of_order_def same_order_def)
  then show ?thesis
    using check_order_clean [of intents r' i fs] i(1) im refl pair same order_okD(3) [OF ok]
    by (simp add: same_order_def)
qed

section \<open>Replay repeats the live ledger\<close>

text \<open>
  The live side: fill events booked one by one onto the positions by symbol and the balances by
  asset, as the order service does with the rows of one account.
\<close>

type_synonym books = "(string \<times> position) list \<times> (string \<times> balance_snapshot) list"

fun book_fill :: "(fill \<Rightarrow> uuid \<times> uuid \<times> uuid) \<Rightarrow> books \<Rightarrow> fill_event \<Rightarrow> books res" where
  "book_fill ids (ps, bs) fe =
     (let (_, position_id, balance_id) = ids (fe_fill fe)
      in res_map (\<lambda>u. (AList.update (fe_symbol fe) (pu_position u) ps,
                       AList.update (bal_asset (pu_balance u)) (pu_balance u) bs))
           (apply_fill_event_to_portfolio position_id balance_id fe (map_of ps (fe_symbol fe))
              (map_of bs (cb_currency (fe_cost fe)))))"

definition same_books :: "books \<Rightarrow> books \<Rightarrow> bool" where
  "same_books x y \<longleftrightarrow> (\<forall>s. same_position (map_of (fst x) s) (map_of (fst y) s))
     \<and> (\<forall>a. same_balance (map_of (snd x) a) (map_of (snd y) a))"

lemma same_books_refl [simp]: "same_books x x"
  by (simp add: same_books_def)

text \<open>A fill event of the venue: dated by its fill, with the costs of the model, of a known order.\<close>

definition venue_event :: "cost_model \<Rightarrow> (uuid \<times> order) list \<Rightarrow> fill_event \<Rightarrow> bool" where
  "venue_event cm orders fe \<longleftrightarrow> fill_event_ok fe
     \<and> build_paper_cost_breakdown cm (fe_fill fe) = Inr (fe_cost fe)
     \<and> fe_event_time fe = fill_time (fe_fill fe) \<and> fe_created_at fe = fill_created_at (fe_fill fe)
     \<and> (\<exists>r. map_of orders (fe_order_id fe) = Some r \<and> ord_intent_id r = fe_intent_id fe)"

lemma replayed_event:
  assumes "venue_event cm orders fe" "map_of orders (fill_order_id (fe_fill fe)) = Some r"
  shows "build_replayed_fill_event e (fe_fill fe) r cm = Inr (fe\<lparr>fe_id := e\<rparr>)"
proof -
  have ok: "fill_event_ok fe"
    using assms by (simp add: venue_event_def)
  note d = fill_event_okD [OF ok]
  have n: "normalize_fill_event fe = fe" and rules: "checks (fill_event_rules fe) = Inr ()"
    using ok by (simp_all add: fill_event_ok_def)
  let ?x = "\<lparr>fe_id = e, fe_order_id = fill_order_id (fe_fill fe), fe_intent_id = ord_intent_id r,
          fe_run_id = fill_run_id (fe_fill fe), fe_account = fill_account (fe_fill fe),
          fe_exchange = fill_exchange (fe_fill fe), fe_symbol = fill_symbol (fe_fill fe),
          fe_fill = fe_fill fe, fe_cost = fe_cost fe, fe_event_time = fill_time (fe_fill fe),
          fe_created_at = fill_created_at (fe_fill fe)\<rparr>"
  have run: "fe_run_id fe = fill_run_id (fe_fill fe)"
    using rules by (simp add: fill_event_rules_def)
  have x: "?x = fe\<lparr>fe_id := e\<rparr>"
    using assms d run by (cases fe) (auto simp: venue_event_def)
  have "normalize_fill_event (fe\<lparr>fe_id := e\<rparr>) = (normalize_fill_event fe)\<lparr>fe_id := e\<rparr>"
    by (simp add: normalize_fill_event_def)
  moreover have "fill_event_rules (fe\<lparr>fe_id := e\<rparr>) = fill_event_rules fe"
    by (simp add: fill_event_rules_def)
  ultimately have "make_fill_event ?x = Inr (fe\<lparr>fe_id := e\<rparr>)"
    unfolding x using n rules by (simp add: make_fill_event_iff)
  then show ?thesis
    using assms(1) by (simp add: build_replayed_fill_event_def venue_event_def)
qed

lemma replay_fill_follows:
  assumes live: "book_fill ids' x fe = Inr x'" and v: "venue_event cm orders fe"
    and same: "same_books x (rp_positions st, rp_balances st)"
  shows "\<exists>st'. replay_fill ids cm orders st (fe_fill fe) = Inr st' \<and> rp_issues st' = rp_issues st
           \<and> rp_count st' = rp_count st + 1 \<and> same_books x' (rp_positions st', rp_balances st')"
proof -
  obtain ps bs where x: "x = (ps, bs)"
    by (cases x)
  obtain a b c where i': "ids' (fe_fill fe) = (a, b, c)"
    by (cases "ids' (fe_fill fe)")
  obtain e p q where i: "ids (fe_fill fe) = (e, p, q)"
    by (cases "ids (fe_fill fe)")
  obtain u where u: "apply_fill_event_to_portfolio b c fe (map_of ps (fe_symbol fe))
        (map_of bs (cb_currency (fe_cost fe))) = Inr u"
    and x': "x' = (AList.update (fe_symbol fe) (pu_position u) ps,
                   AList.update (bal_asset (pu_balance u)) (pu_balance u) bs)"
    using live i' x by auto
  obtain r where r: "map_of orders (fe_order_id fe) = Some r"
    using v by (auto simp: venue_event_def)
  have ok: "fill_event_ok fe"
    using v by (simp add: venue_event_def)
  note d = fill_event_okD [OF ok]
  have r': "map_of orders (fill_order_id (fe_fill fe)) = Some r" and sym: "fill_symbol (fe_fill fe) = fe_symbol fe"
    using r d by simp_all
  have cost: "build_paper_cost_breakdown cm (fe_fill fe) = Inr (fe_cost fe)"
    using v by (simp add: venue_event_def)
  have sp: "same_position (map_of ps (fe_symbol fe)) (map_of (rp_positions st) (fe_symbol fe))"
    and sb: "same_balance (map_of bs (cb_currency (fe_cost fe))) (map_of (rp_balances st) (cb_currency (fe_cost fe)))"
    using same x by (simp_all add: same_books_def)
  obtain w where w: "apply_fill_event_to_portfolio p q (fe\<lparr>fe_id := e\<rparr>)
       (map_of (rp_positions st) (fe_symbol fe)) (map_of (rp_balances st) (cb_currency (fe_cost fe))) = Inr w"
    and sw: "same_position (Some (pu_position u)) (Some (pu_position w))"
      "same_balance (Some (pu_balance u)) (Some (pu_balance w))"
    using apply_fill_id [OF sp sb u] by blast
  have asset: "bal_asset (pu_balance w) = bal_asset (pu_balance u)"
    using sw(2) by auto
  have fee: "fill_fee (fe_fill fe) = cb_total_fee (fe_cost fe)"
    using d by simp
  let ?st = "st\<lparr>rp_commission := dec_add (rp_commission st) (cb_commission (fe_cost fe)),
                   rp_transfer_fee := dec_add (rp_transfer_fee st) (cb_transfer_fee (fe_cost fe)),
                   rp_stamp_duty := dec_add (rp_stamp_duty st) (cb_stamp_duty (fe_cost fe)),
                   rp_total_fee := dec_add (rp_total_fee st) (cb_total_fee (fe_cost fe)),
                   rp_net_cash_flow := dec_add (rp_net_cash_flow st) (cb_net_cash_flow (fe_cost fe)),
                   rp_issues := rp_issues st @ []\<rparr>"
  let ?st' = "?st\<lparr>rp_positions := AList.update (fe_symbol fe) (pu_position w) (rp_positions st),
                  rp_balances := AList.update (bal_asset (pu_balance w)) (pu_balance w) (rp_balances st),
                  rp_count := rp_count st + 1\<rparr>"
  have "replay_fill ids cm orders st (fe_fill fe) = Inr ?st'"
    using cost r' i w replayed_event [OF v r', of e] fee sym by (simp add: replay_fill_def)
  moreover have "same_books x' (rp_positions ?st', rp_balances ?st')"
    using same sw asset x by (simp add: x' same_books_def map_of_update)
  ultimately show ?thesis
    by (intro exI [of _ ?st']) simp
qed

lemma replay_follows:
  assumes "res_fold (book_fill ids') x fes = Inr x'" "\<forall>fe \<in> set fes. venue_event cm orders fe"
    and "same_books x (rp_positions st, rp_balances st)"
  shows "\<exists>st'. res_fold (replay_fill ids cm orders) st (map fe_fill fes) = Inr st' \<and> rp_issues st' = rp_issues st
           \<and> rp_count st' = rp_count st + length fes \<and> same_books x' (rp_positions st', rp_balances st')"
  using assms
proof (induction fes arbitrary: x st)
  case (Cons fe fes)
  obtain y where y: "book_fill ids' x fe = Inr y" "res_fold (book_fill ids') y fes = Inr x'"
    using Cons.prems(1) by auto
  have v: "venue_event cm orders fe" "\<forall>fe \<in> set fes. venue_event cm orders fe"
    using Cons.prems(2) by simp_all
  obtain st1 where st1: "replay_fill ids cm orders st (fe_fill fe) = Inr st1" "rp_issues st1 = rp_issues st"
    "rp_count st1 = rp_count st + 1" "same_books y (rp_positions st1, rp_balances st1)"
    using replay_fill_follows [OF y(1) v(1) Cons.prems(3)] by blast
  from Cons.IH [OF y(2) v(2) st1(4)] show ?case
    using st1 by (auto simp del: book_fill.simps)
qed auto

section \<open>Drift is what disagrees\<close>

text \<open>
  What agreement means, written out field by field and apart from the comparisons of the code.  An
  order agrees with its intent and with the fills that name it.
\<close>

definition order_agrees :: "recon_facts \<Rightarrow> order \<Rightarrow> bool" where
  "order_agrees facts r \<longleftrightarrow>
     (let fills = fills_of_order (fct_fills facts) (ord_id r);
          filled = dec_sum (map fill_qty fills)
      in (\<exists>i. map_of (index_by int_id (fct_intents facts)) (ord_intent_id r) = Some i
            \<and> (ord_account r, ord_exchange r, ord_symbol r, ord_side r, ord_type r, ord_tif r, ord_qty r, ord_price r)
              = (int_account i, int_exchange i, int_symbol i, int_side i, int_type i, int_tif i, int_qty i, int_price i))
       \<and> ord_filled_qty r = filled \<and> filled \<le> ord_qty r
       \<and> (0 < filled \<longrightarrow> ord_avg_fill_price r = Some (ctx (dec_sum (map fill_notional fills) / filled)))
       \<and> (if filled = 0 then ord_status r \<in> {NEW, ACK, CANCELED, REJECTED}
          else if filled = ord_qty r then ord_status r = FILLED
          else ord_status r \<in> {PARTIALLY_FILLED, CANCELED}))"

text \<open>
  What is persisted agrees with books x that the ledger reached: positions, after the release of the
  trade date, in what they hold and are worth; the latest balance of every asset in its amounts, and no
  older.  A position the ledger does not know must be empty.
\<close>

definition holding :: "position \<Rightarrow> rat \<times> rat \<times> rat option \<times> rat option \<times> rat \<times> rat \<times> position_status" where
  "holding p = (pos_qty p, pos_sellable_qty p, pos_avg_entry_price p, pos_mark_price p,
     pos_unrealized_pnl p, pos_realized_pnl p, pos_status p)"

definition holds_nothing :: "position \<Rightarrow> bool" where
  "holds_nothing p \<longleftrightarrow> (pos_qty p, pos_sellable_qty p, pos_avg_entry_price p, pos_mark_price p,
     pos_unrealized_pnl p, pos_status p) = (0, 0, None, None, 0, POS_CLOSED)"

definition funds :: "balance_snapshot \<Rightarrow> rat \<times> rat \<times> rat" where
  "funds b = (bal_total b, bal_available b, bal_locked b)"

definition persisted_agrees :: "recon_facts \<Rightarrow> datetime \<Rightarrow> books \<Rightarrow> bool" where
  "persisted_agrees facts t x \<longleftrightarrow>
     (\<forall>s. case map_of (index_by pos_symbol (fct_positions facts)) s of
            None \<Rightarrow> map_of (fst x) s = None
          | Some p \<Rightarrow> (case map_of (fst x) s of
                None \<Rightarrow> holds_nothing p
              | Some q \<Rightarrow> holding p =
                  holding (rel_position (release_position_sellable_qty q (fct_trade_date facts) t))))
     \<and> (\<forall>a. case map_of (latest_balances (fct_balances facts)) a of
            None \<Rightarrow> map_of (snd x) a = None
          | Some b \<Rightarrow> (case map_of (snd x) a of
                None \<Rightarrow> False
              | Some c \<Rightarrow> funds b = funds c \<and> bal_snapshot_time c \<le> bal_snapshot_time b))"

lemma check_order_iff:
  "\<exists>issues. check_order (index_by int_id (fct_intents facts)) (fct_fills facts) r = Inr issues
     \<and> (issues = [] \<longleftrightarrow> order_agrees facts r)"
proof -
  have st: "expected_status r q = None \<longleftrightarrow>
      (if q = 0 then ord_status r \<in> {NEW, ACK, CANCELED, REJECTED}
       else if q = ord_qty r then ord_status r = FILLED else ord_status r \<in> {PARTIALLY_FILLED, CANCELED})" for q
    by (cases "ord_status r") (auto simp: expected_status_def)
  show ?thesis
    by (auto simp: check_order_def order_agrees_def Let_def dec_div_def intent_mismatch_def st split: option.splits)
qed

lemma check_orders_iff:
  "\<exists>issues. check_orders facts = Inr issues
     \<and> (issues = [] \<longleftrightarrow> (\<forall>r \<in> set (fct_orders facts). order_agrees facts r))"
proof -
  let ?check = "check_order (index_by int_id (fct_intents facts)) (fct_fills facts)"
  have "\<exists>found. res_list ?check rs = Inr found \<and> (concat found = [] \<longleftrightarrow> (\<forall>r \<in> set rs. order_agrees facts r))" for rs
  proof (induction rs)
    case (Cons r rs)
    then show ?case
      using check_order_iff [of facts r] by auto
  qed simp
  then show ?thesis
    unfolding check_orders_def by fastforce
qed

definition release_all :: "recon_facts \<Rightarrow> datetime \<Rightarrow> (string \<times> position) list \<Rightarrow> (string \<times> position) list" where
  "release_all facts t ps = map (\<lambda>(s, p). (s, rel_position
                (release_position_sellable_qty p (fct_trade_date facts) t))) ps"

lemma map_of_release_all:
  "map_of (release_all facts t ps) s = map_option (\<lambda>p. rel_position
      (release_position_sellable_qty p (fct_trade_date facts) t)) (map_of ps s)"
  by (induction ps) (auto simp: release_all_def)

lemma check_positions_clean_iff:
  "check_positions ps replayed = [] \<longleftrightarrow>
     (\<forall>s. check_position (map_of (index_by pos_symbol ps) s) (map_of replayed s) = [])"
proof -
  have "check_position (map_of (index_by pos_symbol ps) s) (map_of replayed s) = []"
    if "s \<notin> set (sorted_keys (index_by pos_symbol ps) replayed)" for s
  proof -
    have "map_of (index_by pos_symbol ps) s = None" "map_of replayed s = None"
      using that by (simp_all add: sorted_keys_def map_of_eq_None_iff)
    then show ?thesis
      by (simp add: check_position_def)
  qed
  then show ?thesis
    by (auto simp: check_positions_def Let_def)
qed

lemma check_balances_clean_iff:
  "check_balances latest replayed = [] \<longleftrightarrow>
     (\<forall>a. check_balance (map_of latest a) (map_of replayed a) = [])"
proof -
  have "check_balance (map_of latest a) (map_of replayed a) = []"
    if "a \<notin> set (sorted_keys latest replayed)" for a
  proof -
    have "map_of latest a = None" "map_of replayed a = None"
      using that by (simp_all add: sorted_keys_def map_of_eq_None_iff)
    then show ?thesis
      by (simp add: check_balance_def)
  qed
  then show ?thesis
    by (auto simp: check_balances_def)
qed

lemma persisted_agrees_iff:
  assumes "same_books x (ps, bs)"
  shows "persisted_agrees facts t x \<longleftrightarrow>
      check_positions (fct_positions facts) (release_all facts t ps) = []
    \<and> check_balances (latest_balances (fct_balances facts)) bs = []"
proof -
  have p: "check_position (map_of (index_by pos_symbol (fct_positions facts)) s) (map_of (release_all facts t ps) s) = []
    \<longleftrightarrow> (case map_of (index_by pos_symbol (fct_positions facts)) s of
            None \<Rightarrow> map_of (fst x) s = None
          | Some p \<Rightarrow> (case map_of (fst x) s of
                None \<Rightarrow> holds_nothing p
              | Some q \<Rightarrow> holding p =
                  holding (rel_position (release_position_sellable_qty q (fct_trade_date facts) t))))" for s
  proof -
    have "same_position (map_of (fst x) s) (map_of ps s)"
      using assms by (simp add: same_books_def)
    then show ?thesis
      by (cases "map_of (fst x) s"; cases "map_of ps s"; cases "map_of (index_by pos_symbol (fct_positions facts)) s")
         (auto simp: map_of_release_all check_position_def release_id position_mismatch_def position_not_empty_def
            holding_def holds_nothing_def)
  qed
  have b: "check_balance (map_of (latest_balances (fct_balances facts)) a) (map_of bs a) = []
    \<longleftrightarrow> (case map_of (latest_balances (fct_balances facts)) a of
            None \<Rightarrow> map_of (snd x) a = None
          | Some b \<Rightarrow> (case map_of (snd x) a of
                None \<Rightarrow> False
              | Some c \<Rightarrow> funds b = funds c \<and> bal_snapshot_time c \<le> bal_snapshot_time b))" for a
  proof -
    have "same_balance (map_of (snd x) a) (map_of bs a)"
      using assms by (simp add: same_books_def)
    then show ?thesis
      by (cases "map_of (snd x) a"; cases "map_of bs a"; cases "map_of (latest_balances (fct_balances facts)) a")
         (auto simp: check_balance_def balance_mismatch_def funds_def)
  qed
  show ?thesis
    unfolding persisted_agrees_def check_positions_clean_iff check_balances_clean_iff p b ..
qed

lemma reconcile_eq:
  "reconcile_paper_state ids now facts cm checked_at = Inr res \<longleftrightarrow>
     (\<exists>order_issues st. check_orders facts = Inr order_issues
        \<and> res_fold (replay_fill ids cm (index_by ord_id (fct_orders facts)))
             (initial_replay facts order_issues) (sort_key fill_key (fct_fills facts)) = Inr st
        \<and> (let t = (case checked_at of None \<Rightarrow> now | Some t \<Rightarrow> t);
               issues = rp_issues st @ check_positions (fct_positions facts) (release_all facts t (rp_positions st))
                 @ check_balances (latest_balances (fct_balances facts)) (rp_balances st)
           in res =
           \<lparr>rec_checked_at = t, rec_trigger = fct_trigger facts, rec_account = fct_account facts,
            rec_exchange = fct_exchange facts, rec_cost_model = cm, rec_has_drift = (issues \<noteq> []),
            rec_issues = issues,
            rec_summary =
              \<lparr>sum_order_count = length (fct_orders facts), sum_fill_count = length (fct_fills facts),
               sum_replayed_count = rp_count st, sum_position_count = length (fct_positions facts),
               sum_balance_count = length (fct_balances facts), sum_issue_count = length issues,
               sum_commission = rp_commission st, sum_transfer_fee = rp_transfer_fee st,
               sum_stamp_duty = rp_stamp_duty st, sum_total_fee = rp_total_fee st,
               sum_net_cash_flow = rp_net_cash_flow st\<rparr>\<rparr>))"
  unfolding reconcile_paper_state_def Let_def release_all_def by auto

lemma reconcile_detects:
  assumes f: "sort_key fill_key (fct_fills facts) = map fe_fill fes"
    and v: "\<forall>fe \<in> set fes. venue_event cm (index_by ord_id (fct_orders facts)) fe"
    and live: "res_fold (book_fill ids') ([], baseline_balances (fct_balances facts)) fes = Inr x"
  shows "\<exists>res. reconcile_paper_state ids now facts cm (Some t) = Inr res
           \<and> sum_replayed_count (rec_summary res) = length (fct_fills facts)
           \<and> rec_has_drift res = (\<not> ((\<forall>r \<in> set (fct_orders facts). order_agrees facts r)
                \<and> persisted_agrees facts t x))"
proof -
  obtain issues where o: "check_orders facts = Inr issues"
    "issues = [] \<longleftrightarrow> (\<forall>r \<in> set (fct_orders facts). order_agrees facts r)"
    using check_orders_iff by blast
  have "same_books ([], baseline_balances (fct_balances facts))
      (rp_positions (initial_replay facts issues), rp_balances (initial_replay facts issues))"
    by (simp add: initial_replay_def)
  from replay_follows [OF live v this, of ids] obtain st where
    st: "res_fold (replay_fill ids cm (index_by ord_id (fct_orders facts))) (initial_replay facts issues)
           (map fe_fill fes) = Inr st" "rp_issues st = issues" "rp_count st = length fes"
        "same_books x (rp_positions st, rp_balances st)"
    by (auto simp: initial_replay_def)
  have len: "length fes = length (fct_fills facts)"
    using arg_cong [OF f, of length] by simp
  show ?thesis
    unfolding reconcile_eq persisted_agrees_iff [OF st(4)] using o st f len by (simp add: Let_def) blast
qed

lemma replay_fill_issues:
  assumes "replay_fill ids cm orders st f = Inr st'" "rp_issues st' = []"
  shows "rp_issues st = []"
    "\<exists>cost. build_paper_cost_breakdown cm f = Inr cost \<and> fill_fee f = cb_total_fee cost"
    "map_of orders (fill_order_id f) \<noteq> None" "rp_count st' = rp_count st + 1"
proof -
  obtain cost where c: "build_paper_cost_breakdown cm f = Inr cost"
    using assms(1) by (auto simp: replay_fill_def)
  obtain e p q where i: "ids f = (e, p, q)"
    by (cases "ids f")
  note eq = assms(1) [unfolded replay_fill_def c res_bind.simps Let_def i prod.case]
  obtain r where r: "map_of orders (fill_order_id f) = Some r"
    using eq assms(2) by (cases "map_of orders (fill_order_id f)") auto
  let ?X = "res_bind (build_replayed_fill_event e f r cm) (\<lambda>fe.
        apply_fill_event_to_portfolio p q fe (map_of (rp_positions st) (fill_symbol f))
          (map_of (rp_balances st) (cb_currency (fe_cost fe))))"
  obtain u where "?X = Inr u"
    using eq assms(2) unfolding r option.case by (cases ?X) (auto split: if_split_asm)
  then have "st' = st\<lparr>rp_commission := dec_add (rp_commission st) (cb_commission cost),
                   rp_transfer_fee := dec_add (rp_transfer_fee st) (cb_transfer_fee cost),
                   rp_stamp_duty := dec_add (rp_stamp_duty st) (cb_stamp_duty cost),
                   rp_total_fee := dec_add (rp_total_fee st) (cb_total_fee cost),
                   rp_net_cash_flow := dec_add (rp_net_cash_flow st) (cb_net_cash_flow cost),
                   rp_issues := rp_issues st
                     @ (if fill_fee f \<noteq> cb_total_fee cost then [fill_issue ''FILL_FEE_DRIFT'' f] else []),
                   rp_positions := AList.update (fill_symbol f) (pu_position u) (rp_positions st),
                   rp_balances := AList.update (bal_asset (pu_balance u)) (pu_balance u) (rp_balances st),
                   rp_count := rp_count st + 1\<rparr>"
    using eq unfolding r option.case by (simp del: res_bind_Inr_iff)
  then show "rp_issues st = []"
    "\<exists>cost. build_paper_cost_breakdown cm f = Inr cost \<and> fill_fee f = cb_total_fee cost"
    "map_of orders (fill_order_id f) \<noteq> None" "rp_count st' = rp_count st + 1"
    using assms(2) c r by (auto split: if_split_asm)
qed

lemma replay_issues:
  assumes "res_fold (replay_fill ids cm orders) st fs = Inr st'" "rp_issues st' = []"
  shows "rp_issues st = [] \<and> rp_count st' = rp_count st + length fs
     \<and> (\<forall>f \<in> set fs. map_of orders (fill_order_id f) \<noteq> None
          \<and> (\<exists>cost. build_paper_cost_breakdown cm f = Inr cost \<and> fill_fee f = cb_total_fee cost))"
  using assms
proof (induction fs arbitrary: st)
  case (Cons f fs)
  then obtain st1 where s1: "replay_fill ids cm orders st f = Inr st1"
    "res_fold (replay_fill ids cm orders) st1 fs = Inr st'"
    by auto
  have ih: "rp_issues st1 = []" "rp_count st' = rp_count st1 + length fs"
    "\<forall>f \<in> set fs. map_of orders (fill_order_id f) \<noteq> None
          \<and> (\<exists>cost. build_paper_cost_breakdown cm f = Inr cost \<and> fill_fee f = cb_total_fee cost)"
    using Cons.IH [OF s1(2) Cons.prems(2)] by blast+
  show ?case
    using replay_fill_issues [OF s1(1) ih(1)] ih by simp
qed simp

lemma res_list_nil:
  "res_map concat (res_list f xs) = Inr [] \<Longrightarrow> x \<in> set xs \<Longrightarrow> f x = Inr []"
  by (induction xs) auto

lemma reconcile_sound:
  assumes "reconcile_paper_state ids now facts cm checked_at = Inr res" "\<not> rec_has_drift res"
  shows "\<And>r. r \<in> set (fct_orders facts) \<Longrightarrow>
           check_order (index_by int_id (fct_intents facts)) (fct_fills facts) r = Inr []"
    "\<And>f. f \<in> set (fct_fills facts) \<Longrightarrow> \<exists>r \<in> set (fct_orders facts). ord_id r = fill_order_id f"
    "\<And>f. f \<in> set (fct_fills facts) \<Longrightarrow>
           \<exists>cost. build_paper_cost_breakdown cm f = Inr cost \<and> fill_fee f = cb_total_fee cost"
    "sum_replayed_count (rec_summary res) = length (fct_fills facts)" "rec_issues res = []"
proof -
  obtain oi st where oi: "check_orders facts = Inr oi"
    and st: "res_fold (replay_fill ids cm (index_by ord_id (fct_orders facts)))
             (initial_replay facts oi) (sort_key fill_key (fct_fills facts)) = Inr st"
    and none: "rp_issues st = []" "rec_issues res = []" "sum_replayed_count (rec_summary res) = rp_count st"
    using assms by (auto simp: reconcile_eq Let_def)
  note r = replay_issues [OF st none(1)]
  have oi0: "oi = []"
    using r by (simp add: initial_replay_def)
  show "check_order (index_by int_id (fct_intents facts)) (fct_fills facts) r = Inr []"
    if "r \<in> set (fct_orders facts)" for r
    by (rule res_list_nil [OF oi [unfolded check_orders_def oi0] that])
  show "\<exists>r \<in> set (fct_orders facts). ord_id r = fill_order_id f" if "f \<in> set (fct_fills facts)" for f
  proof -
    have "map_of (index_by ord_id (fct_orders facts)) (fill_order_id f) \<noteq> None"
      using r that by simp
    then show ?thesis
      by (auto simp: index_by_None)
  qed
  show "\<exists>cost. build_paper_cost_breakdown cm f = Inr cost \<and> fill_fee f = cb_total_fee cost"
    if "f \<in> set (fct_fills facts)" for f
    using r that by simp
  show "sum_replayed_count (rec_summary res) = length (fct_fills facts)" "rec_issues res = []"
    using none r by (simp_all add: initial_replay_def)
qed

section \<open>Properties\<close>

text \<open>
  One cost model, twice.  The costs the reconciliation replays a fill with are those the paper
  venue booked it with, for every model, side, quantity and price, errors included.
\<close>

lemma replayed_costs_are_booked_costs:
  "build_paper_cost_breakdown cm f = build_cost_breakdown cm (fill_side f) (fill_qty f) (fill_price f)"
  by (rule paper_cost_agrees)

text \<open>
  C23.  Orders of the venue reconcile.  The order a report of the paper venue leads to passes the
  order check against the persisted fills of that report without an issue, whatever the scenario and
  whatever other orders have filled.
\<close>

theorem venue_orders_reconcile:
  assumes "submit_order u5 cm resolver base r i = Inr rep"
    and "order_ok r" "ord_status r = NEW" "ord_submitted_at r \<le> base" "ord_exchange_order_id r = None"
    and "res_fold apply_order_update r (rep_order_updates rep) = Inr r'"
    and "map_of intents (int_id i) = Some i" "\<not> intent_mismatch r i"
    and "filter (\<lambda>f. fill_order_id f = ord_id r) fs = map fe_fill (rep_fill_events rep)"
  shows "check_order intents fs r' = Inr []"
  by (rule venue_order_clean [OF assms])

theorem venue_orders_reconcile_witness:
  "\<exists>rep r'. sample_submission (sample_intent 200 BUY) = Inr rep
    \<and> res_fold apply_order_update (sample_order 200 BUY) (rep_order_updates rep) = Inr r'
    \<and> check_order [(5, sample_intent 200 BUY)] (map fe_fill (rep_fill_events rep)) r' = Inr []"
proof -
  obtain rep where rep: "sample_submission (sample_intent 200 BUY) = Inr rep"
    using sample_submission_ok by (auto simp: is_ok_iff)
  note s = rep [unfolded sample_submission_def]
  obtain r' where r': "res_fold apply_order_update (sample_order 200 BUY) (rep_order_updates rep) = Inr r'"
    and fills: "\<forall>fe \<in> set (rep_fill_events rep). fill_event_ok fe \<and> fe_order_id fe = ord_id (sample_order 200 BUY)"
    using submit_order_applies [OF s sample_order_new] by blast
  have "filter (\<lambda>f. fill_order_id f = ord_id (sample_order 200 BUY)) (map fe_fill (rep_fill_events rep))
    = map fe_fill (rep_fill_events rep)"
    using fills fill_event_okD by (fastforce simp: filter_id_conv)
  moreover have "map_of [(5, sample_intent 200 BUY)] (int_id (sample_intent 200 BUY)) = Some (sample_intent 200 BUY)"
    "\<not> intent_mismatch (sample_order 200 BUY) (sample_intent 200 BUY)"
    by (simp_all add: sample_intent_def intent_mismatch_def sample_order_def)
  ultimately show ?thesis
    using rep r' venue_orders_reconcile [OF s sample_order_new r'] by blast
qed

text \<open>
  C21.  Drift, exactly.  When every persisted fill stems from a venue event of a known order that the
  live ledger has booked, the pass replays every fill, and it reports drift if and only if some order
  disagrees with its intent or its fills, or the persisted positions and balances are not those the
  ledger reached: a false alarm is as impossible as a missed difference.
\<close>

theorem drift_iff_books_disagree:
  assumes "sort_key fill_key (fct_fills facts) = map fe_fill fes"
    and "\<forall>fe \<in> set fes. venue_event cm (index_by ord_id (fct_orders facts)) fe"
    and "res_fold (book_fill ids') ([], baseline_balances (fct_balances facts)) fes = Inr x"
  shows "\<exists>res. reconcile_paper_state ids now facts cm (Some t) = Inr res
    \<and> sum_replayed_count (rec_summary res) = length (fct_fills facts)
    \<and> rec_has_drift res = (\<not> ((\<forall>r \<in> set (fct_orders facts). order_agrees facts r) \<and> persisted_agrees facts t x))"
  by (rule reconcile_detects [OF assms])

text \<open>
  C22.  A clean report can be trusted.  When a pass reports no drift, there are no issues, every order
  passed its check, every fill belongs to a persisted order and carries the fee of the cost model,
  and every fill was replayed.
\<close>

theorem no_drift_is_sound:
  assumes "reconcile_paper_state ids now facts cm checked_at = Inr res" "\<not> rec_has_drift res"
  shows "rec_issues res = [] \<and> sum_replayed_count (rec_summary res) = length (fct_fills facts)
    \<and> (\<forall>r \<in> set (fct_orders facts).
         check_order (index_by int_id (fct_intents facts)) (fct_fills facts) r = Inr [])
    \<and> (\<forall>f \<in> set (fct_fills facts). (\<exists>r \<in> set (fct_orders facts). ord_id r = fill_order_id f)
         \<and> (\<exists>cost. build_paper_cost_breakdown cm f = Inr cost \<and> fill_fee f = cb_total_fee cost))"
  using reconcile_sound [OF assms] by blast

text \<open>A book of one purchase, for the witnesses.\<close>

definition sample_purchase :: fill_event where
  "sample_purchase = (sample_fill_event 200 BUY)
     \<lparr>fe_fill := (sample_fill 200 BUY)\<lparr>fill_fee := 8\<rparr>,
      fe_cost := \<lparr>cb_currency = ''CNY'', cb_gross_notional = 8000, cb_commission = 8,
        cb_transfer_fee = 0, cb_stamp_duty = 0, cb_total_fee = 8, cb_net_cash_flow = - 8008\<rparr>\<rparr>"

definition sample_bought_position :: position where
  "sample_bought_position = (sample_position 200 0)
     \<lparr>pos_avg_entry_price := Some 40, pos_mark_price := Some 40, pos_realized_pnl := - 8,
      pos_updated_at := sample_time + us_per_second\<rparr>"

definition sample_paid_balance :: balance_snapshot where
  "sample_paid_balance = (sample_balance 91992)
     \<lparr>bal_id := 32, bal_snapshot_time := sample_time + us_per_second,
      bal_created_at := sample_time + us_per_second\<rparr>"

definition sample_facts :: recon_facts where
  "sample_facts =
     \<lparr>fct_account = ''paper_account_001'', fct_exchange = ''cn_equity'',
      fct_trade_date = date_of sample_time, fct_trigger = ''startup'',
      fct_intents = [sample_intent 200 BUY],
      fct_orders = [(sample_order 200 BUY)\<lparr>ord_exchange_order_id := Some ''paper-9'',
         ord_filled_qty := 200, ord_avg_fill_price := Some 40, ord_status := FILLED,
         ord_updated_at := sample_time + us_per_second\<rparr>],
      fct_fills = [fe_fill sample_purchase],
      fct_positions = [sample_bought_position],
      fct_balances = [sample_balance 100000, sample_paid_balance]\<rparr>"

definition sample_books :: books where
  "sample_books = ([(''600036.SH'', sample_bought_position)], [(''CNY'', sample_paid_balance)])"

lemma sample_orders_clean: "check_orders sample_facts = Inr []"
  by code_simp

lemma sample_fills_sorted: "sort_key fill_key (fct_fills sample_facts) = map fe_fill [sample_purchase]"
  by (simp add: sample_facts_def)

lemma sample_purchase_event:
  "\<forall>fe \<in> set [sample_purchase]. venue_event sample_cost_model (index_by ord_id (fct_orders sample_facts)) fe"
proof -
  have "fill_event_ok sample_purchase"
    "build_paper_cost_breakdown sample_cost_model (fe_fill sample_purchase) = Inr (fe_cost sample_purchase)"
    by code_simp+
  then show ?thesis
    by (simp add: venue_event_def sample_facts_def index_by_def sample_purchase_def sample_fill_event_def
        sample_fill_def sample_order_def)
qed

lemma sample_baseline: "baseline_balances (fct_balances sample_facts) = [(''CNY'', sample_balance 100000)]"
  by code_simp

lemma sample_purchase_books:
  "position_matches sample_purchase None"
  "side_fill 21 sample_purchase (position_before sample_purchase None) = Inr (sample_bought_position, - 8)"
  "apply_cash_flow 32 sample_purchase (Some (sample_balance 100000)) = Inr sample_paid_balance"
  by code_simp+

lemma book_fillI:
  assumes "ids (fe_fill fe) = (e, p, b)" "position_matches fe (map_of ps (fe_symbol fe))"
    and "side_fill p fe (position_before fe (map_of ps (fe_symbol fe))) = Inr (q, d)"
    and "apply_cash_flow b fe (map_of bs (cb_currency (fe_cost fe))) = Inr bal"
  shows "book_fill ids (ps, bs) fe = Inr (AList.update (fe_symbol fe) q ps, AList.update (bal_asset bal) bal bs)"
  using ledger_stepI [OF assms(2-4)] assms(1) by (auto simp: ledger_step.simps)

lemma sample_books_booked:
  "res_fold (book_fill (\<lambda>_. (1, 21, 32))) ([], baseline_balances (fct_balances sample_facts)) [sample_purchase]
     = Inr sample_books"
proof -
  have f: "fe_symbol sample_purchase = ''600036.SH''" "cb_currency (fe_cost sample_purchase) = ''CNY''"
    "bal_asset sample_paid_balance = ''CNY''"
    by (simp_all add: sample_purchase_def sample_fill_event_def sample_paid_balance_def sample_balance_def)
  have "book_fill (\<lambda>_. (1, 21, 32)) ([], [(''CNY'', sample_balance 100000)]) sample_purchase = Inr sample_books"
    using book_fillI [of "\<lambda>_. (1, 21, 32)" sample_purchase 1 21 32 "[]" _ _ "[(''CNY'', sample_balance 100000)]"]
      sample_purchase_books
    by (simp add: f sample_books_def)
  then show ?thesis
    by (simp add: sample_baseline del: book_fill.simps)
qed

lemma sample_agrees: "persisted_agrees sample_facts (sample_time + us_per_second) sample_books"
proof -
  have r: "rel_position (release_position_sellable_qty sample_bought_position (fct_trade_date sample_facts) t)
      = sample_bought_position" for t
  proof -
    have "\<not> date_of (pos_updated_at sample_bought_position) < fct_trade_date sample_facts"
      by code_simp
    then show ?thesis
      by (simp add: release_position_sellable_qty_def)
  qed
  have "latest_balances (fct_balances sample_facts) = [(''CNY'', sample_paid_balance)]"
    "index_by pos_symbol (fct_positions sample_facts) = [(''600036.SH'', sample_bought_position)]"
    by code_simp+
  then show ?thesis
    by (simp add: persisted_agrees_def sample_books_def r)
qed

lemma sample_orders_agree: "\<forall>r \<in> set (fct_orders sample_facts). order_agrees sample_facts r"
  using check_orders_iff [of sample_facts] sample_orders_clean by auto

theorem drift_iff_books_disagree_witness:
  "\<exists>res. reconcile_paper_state (\<lambda>_. (1, 21, 32)) 0 sample_facts sample_cost_model
       (Some (sample_time + us_per_second)) = Inr res
     \<and> \<not> rec_has_drift res \<and> sum_replayed_count (rec_summary res) = length (fct_fills sample_facts)"
  using drift_iff_books_disagree [OF sample_fills_sorted sample_purchase_event sample_books_booked,
      of "\<lambda>_. (1, 21, 32)" 0 "sample_time + us_per_second"] sample_orders_agree sample_agrees
  by blast

theorem no_drift_is_sound_witness:
  "\<exists>res. reconcile_paper_state (\<lambda>_. (1, 21, 32)) 0 sample_facts sample_cost_model
       (Some (sample_time + us_per_second)) = Inr res
     \<and> rec_issues res = [] \<and> (\<forall>f \<in> set (fct_fills sample_facts).
          \<exists>cost. build_paper_cost_breakdown sample_cost_model f = Inr cost \<and> fill_fee f = cb_total_fee cost)"
proof -
  obtain res where "reconcile_paper_state (\<lambda>_. (1, 21, 32)) 0 sample_facts sample_cost_model
      (Some (sample_time + us_per_second)) = Inr res" "\<not> rec_has_drift res"
    using reconcile_detects [OF sample_fills_sorted sample_purchase_event sample_books_booked,
        of "\<lambda>_. (1, 21, 32)" 0 "sample_time + us_per_second"] sample_orders_agree sample_agrees by blast
  then show ?thesis
    using no_drift_is_sound by blast
qed

end
