(* ===== verification/Risk.thy ===== *)
theory Risk
  imports Order_Flow Samples
begin

text \<open>
  The pre-trade risk gate of src/src/domain/risk/pretrade.py: the control states and their
  priority, the policy, and the fixed sequence of checks a candidate order passes before it
  becomes an intent.  A result is its decision, reason code and rule name; the message and the
  details, texts for the operator, are not modelled.
\<close>

section \<open>Control states, policy and context\<close>

datatype risk_control_state = CTRL_NORMAL | STRATEGY_PAUSED | KILL_SWITCH | PROTECTION_MODE

definition resolve_risk_control_state :: "bool \<Rightarrow> bool \<Rightarrow> bool \<Rightarrow> risk_control_state" where
  "resolve_risk_control_state strategy_enabled kill_switch_active protection_mode_active =
     (if protection_mode_active then PROTECTION_MODE
      else if kill_switch_active then KILL_SWITCH
      else if \<not> strategy_enabled then STRATEGY_PAUSED
      else CTRL_NORMAL)"

record risk_policy =
  pol_max_single_notional :: rat
  pol_max_total_notional :: rat
  pol_min_order_notional :: rat
  pol_stale_threshold :: int
  pol_duplicate_window :: int

definition make_risk_policy :: "risk_policy \<Rightarrow> risk_policy res" where
  "make_risk_policy p = res_bind (checks
     [(pol_max_single_notional p \<le> 0, ValueError ''max_single_symbol_notional_cny must be positive''),
      (pol_max_total_notional p \<le> 0, ValueError ''max_total_open_notional_cny must be positive''),
      (pol_min_order_notional p \<le> 0, ValueError ''min_order_notional_cny must be positive''),
      (pol_stale_threshold p \<le> 0, ValueError ''market_stale_threshold_seconds must be positive''),
      (pol_duplicate_window p \<le> 0, ValueError ''duplicate_window_seconds must be positive'')])
     (\<lambda>_. Inr p)"

definition default_policy :: risk_policy where
  "default_policy =
     \<lparr>pol_max_single_notional = 200000, pol_max_total_notional = 500000, pol_min_order_notional = 1000,
      pol_stale_threshold = 120, pol_duplicate_window = 60\<rparr>"

record risk_context =
  ctx_signal :: signal
  ctx_decision_price :: "rat option"
  ctx_received_at :: datetime
  ctx_symbol_rule :: "symbol_rule option"
  ctx_market_context :: "market_state option"
  ctx_current_position :: "position option"
  ctx_open_positions :: "position list"
  ctx_recent_intents :: "order_intent list"
  ctx_plan :: "order_plan option"
  ctx_order_type :: order_type
  ctx_price :: "rat option"
  ctx_control_state :: risk_control_state

record risk_result =
  rr_decision :: risk_decision
  rr_code :: string
  rr_rule :: string

definition rr_allowed :: "risk_result \<Rightarrow> bool" where
  "rr_allowed r \<longleftrightarrow> rr_decision r = ALLOW"

definition risk_allow :: "string \<Rightarrow> string \<Rightarrow> risk_result" where
  "risk_allow code rule = \<lparr>rr_decision = ALLOW, rr_code = code, rr_rule = rule\<rparr>"

definition risk_reject :: "string \<Rightarrow> string \<Rightarrow> risk_result" where
  "risk_reject code rule = \<lparr>rr_decision = RISK_REJECT, rr_code = code, rr_rule = rule\<rparr>"

section \<open>The single checks\<close>

definition dec_is_multiple :: "rat \<Rightarrow> rat \<Rightarrow> bool" where
  "dec_is_multiple v step =
     (if step \<le> 0 then False
      else (case dec_div v step of Inl _ \<Rightarrow> False
            | Inr q \<Rightarrow> dec_mul (of_int (round_half_even q)) step = v))"

definition risk_price_within_limits :: "rat \<Rightarrow> market_state \<Rightarrow> bool" where
  "risk_price_within_limits p m \<longleftrightarrow> ms_lower_limit m \<le> p \<and> p \<le> ms_upper_limit m"

definition odd_lot_context :: "symbol_rule \<Rightarrow> order_plan \<Rightarrow> bool" where
  "odd_lot_context rule plan \<longleftrightarrow> plan_raw_delta plan < 0
     \<and> 0 < plan_current_sellable plan \<and> plan_current_sellable plan < rule_lot_size rule"

definition is_true_reduction :: "risk_context \<Rightarrow> order_plan \<Rightarrow> bool" where
  "is_true_reduction c plan =
     (if plan_side plan \<noteq> Some SELL then False
      else
        let current_qty = (case ctx_current_position c of None \<Rightarrow> 0 | Some p \<Rightarrow> pos_qty p);
            current_sellable = (case ctx_current_position c of None \<Rightarrow> 0 | Some p \<Rightarrow> pos_sellable_qty p)
        in if current_qty \<le> 0 then False
           else if current_sellable < plan_qty plan then False
           else max (dec_sub current_qty (plan_qty plan)) 0 < current_qty)"

definition decision_for_non_actionable_plan :: "symbol_rule \<Rightarrow> order_plan \<Rightarrow> risk_result" where
  "decision_for_non_actionable_plan rule plan =
     (if plan_skip_reason plan = Some ''target_position_already_satisfied''
      then risk_allow ''TARGET_POSITION_ALREADY_SATISFIED'' ''target_position_sync''
      else if plan_skip_reason plan = Some ''sellable_qty_exhausted''
      then risk_reject ''SELLABLE_QTY_EXCEEDED'' ''sellable_qty''
      else if plan_skip_reason plan = Some ''normalized_buy_qty_below_min_qty''
      then risk_reject ''MIN_ORDER_QTY_NOT_MET'' ''min_qty''
      else if plan_skip_reason plan = Some ''normalized_sell_qty_below_min_qty''
      then (if odd_lot_context rule plan then risk_reject ''ODD_LOT_SELL_RULE_VIOLATION'' ''odd_lot_sell''
            else risk_reject ''MIN_ORDER_QTY_NOT_MET'' ''min_qty'')
      else risk_reject ''NON_ACTIONABLE_ORDER_PLAN'' ''plan_construction'')"

definition check_control_state :: "risk_context \<Rightarrow> order_plan \<Rightarrow> risk_result option" where
  "check_control_state c plan =
     (if ctx_control_state c \<notin> {KILL_SWITCH, PROTECTION_MODE} then None
      else if is_true_reduction c plan then None
      else Some (risk_reject
        (if ctx_control_state c = KILL_SWITCH then ''KILL_SWITCH_REDUCE_ONLY''
         else ''PROTECTION_MODE_REDUCE_ONLY'') ''control_state''))"

definition check_quantity_rules :: "symbol_rule \<Rightarrow> order_plan \<Rightarrow> risk_result option" where
  "check_quantity_rules rule plan =
     (case plan_side plan of
        None \<Rightarrow> Some (risk_reject ''ORDER_QTY_INVALID'' ''qty'')
      | Some side \<Rightarrow>
          if plan_qty plan \<le> 0 then Some (risk_reject ''ORDER_QTY_INVALID'' ''qty'')
          else if \<not> dec_is_multiple (plan_qty plan) (rule_qty_step rule)
          then Some (risk_reject ''QTY_STEP_VIOLATION'' ''qty_step'')
          else if side = BUY
          then (if plan_qty plan < rule_min_qty rule
                then Some (risk_reject ''MIN_ORDER_QTY_NOT_MET'' ''min_qty'') else None)
          else if plan_current_sellable plan < plan_qty plan
          then Some (risk_reject ''SELLABLE_QTY_EXCEEDED'' ''sellable_qty'')
          else if odd_lot_context rule plan
          then (if \<not> plan_odd_lot_sell plan
                then Some (risk_reject ''ODD_LOT_SELL_RULE_VIOLATION'' ''odd_lot_sell'') else None)
          else if plan_qty plan < rule_min_qty rule
          then Some (risk_reject ''MIN_ORDER_QTY_NOT_MET'' ''min_qty'')
          else None)"

definition check_price_rules ::
  "risk_context \<Rightarrow> symbol_rule \<Rightarrow> market_state \<Rightarrow> rat \<Rightarrow> risk_result option" where
  "check_price_rules c rule m decision_price =
     (let in_band = (\<lambda>reference_price.
            if \<not> risk_price_within_limits reference_price m
            then Some (risk_reject ''PRICE_LIMIT_EXCEEDED'' ''price_limit'') else None)
      in if ctx_order_type c = LIMIT
         then (case ctx_price c of
             None \<Rightarrow> Some (risk_reject ''LIMIT_PRICE_REQUIRED'' ''limit_price'')
           | Some p \<Rightarrow>
               if p \<le> 0 then Some (risk_reject ''LIMIT_PRICE_REQUIRED'' ''limit_price'')
               else if \<not> dec_is_multiple p (rule_price_tick rule)
               then Some (risk_reject ''PRICE_TICK_VIOLATION'' ''price_tick'')
               else in_band p)
         else in_band decision_price)"

definition check_order_notional :: "risk_policy \<Rightarrow> order_plan \<Rightarrow> rat \<Rightarrow> risk_result option" where
  "check_order_notional pol plan decision_price =
     (if dec_mul (plan_qty plan) decision_price < pol_min_order_notional pol
      then Some (risk_reject ''MIN_ORDER_NOTIONAL_NOT_MET'' ''min_order_notional'') else None)"

definition intent_duplicates :: "risk_context \<Rightarrow> order_plan \<Rightarrow> order_intent \<Rightarrow> bool" where
  "intent_duplicates c plan i \<longleftrightarrow> int_signal_id i \<noteq> sig_id (ctx_signal c)
     \<and> int_account i = sig_account (ctx_signal c) \<and> int_exchange i = sig_exchange (ctx_signal c)
     \<and> int_symbol i = sig_symbol (ctx_signal c) \<and> Some (int_side i) = plan_side plan
     \<and> int_type i = ctx_order_type c \<and> int_qty i = plan_qty plan \<and> int_price i = ctx_price c
     \<and> int_decision_price i = ctx_decision_price c \<and> int_reduce_only i = plan_reduce_only plan"

definition check_duplicates :: "risk_context \<Rightarrow> order_plan \<Rightarrow> risk_result option" where
  "check_duplicates c plan =
     (if plan_side plan = None then None
      else if list_ex (intent_duplicates c plan) (ctx_recent_intents c)
      then Some (risk_reject ''DUPLICATE_ORDER_INTENT'' ''duplicate_order_intent'')
      else None)"

text \<open>position.mark_price or position.avg_entry_price\<close>

definition or_price_option :: "rat option \<Rightarrow> rat option \<Rightarrow> rat option" where
  "or_price_option x d = (case x of None \<Rightarrow> d | Some p \<Rightarrow> if p = 0 then d else x)"

text \<open>
  The loop over the open positions: the accumulated notional and whether the symbol of the
  signal was seen, or the rejection the loop returns with.
\<close>

fun account_notional ::
  "string \<Rightarrow> rat \<Rightarrow> rat \<Rightarrow> rat \<Rightarrow> bool \<Rightarrow> position list \<Rightarrow> risk_result + (rat \<times> bool)" where
  "account_notional symbol resulting_qty resulting_notional acc seen [] = Inr (acc, seen)"
| "account_notional symbol resulting_qty resulting_notional acc seen (p # ps) =
     (if pos_qty p \<le> 0 then account_notional symbol resulting_qty resulting_notional acc seen ps
      else if pos_symbol p = symbol
      then account_notional symbol resulting_qty resulting_notional
             (if 0 < resulting_qty then dec_add acc resulting_notional else acc) True ps
      else (case or_price_option (pos_mark_price p) (pos_avg_entry_price p) of
              None \<Rightarrow> Inl (risk_reject ''POSITION_REFERENCE_PRICE_MISSING'' ''max_total_open_notional'')
            | Some price \<Rightarrow>
                account_notional symbol resulting_qty resulting_notional
                  (dec_add acc (dec_mul (dec_abs (pos_qty p)) price)) seen ps))"

definition resulting_qty :: "order_plan \<Rightarrow> rat" where
  "resulting_qty plan =
     max (if plan_side plan = Some BUY then dec_add (plan_current_qty plan) (plan_qty plan)
          else dec_sub (plan_current_qty plan) (plan_qty plan)) 0"

definition check_notional_limits :: "risk_policy \<Rightarrow> risk_context \<Rightarrow> order_plan \<Rightarrow> rat \<Rightarrow> risk_result option" where
  "check_notional_limits pol c plan decision_price =
     (if plan_side plan = None then None
      else
        let result_qty = resulting_qty plan;
            notional = dec_mul (dec_abs result_qty) decision_price
        in if pol_max_single_notional pol < notional
           then Some (risk_reject ''MAX_POSITION_EXCEEDED'' ''max_single_symbol_notional'')
           else (case account_notional (sig_symbol (ctx_signal c)) result_qty notional 0 False
                        (ctx_open_positions c) of
               Inl r \<Rightarrow> Some r
             | Inr (acc, seen) \<Rightarrow>
                 let account = (if \<not> seen \<and> 0 < result_qty then dec_add acc notional else acc)
                 in if pol_max_total_notional pol < account
                    then Some (risk_reject ''MAX_OPEN_NOTIONAL_EXCEEDED'' ''max_total_open_notional'')
                    else None))"

section \<open>The gate\<close>

text \<open>The first check that objects decides.\<close>

fun first_objection :: "risk_result option list \<Rightarrow> risk_result \<Rightarrow> risk_result" where
  "first_objection [] allowed = allowed"
| "first_objection (d # ds) allowed = (case d of Some r \<Rightarrow> r | None \<Rightarrow> first_objection ds allowed)"

definition market_age_seconds :: "risk_context \<Rightarrow> int" where
  "market_age_seconds c = max (ctx_received_at c - sig_event_time (ctx_signal c)) 0 div us_per_second"

definition risk_evaluate :: "risk_policy \<Rightarrow> risk_context \<Rightarrow> risk_result res" where
  "risk_evaluate pol c =
     (case ctx_decision_price c of
        None \<Rightarrow> Inr (risk_reject ''INVALID_DECISION_PRICE'' ''decision_price'')
      | Some decision_price \<Rightarrow>
      if decision_price \<le> 0 then Inr (risk_reject ''INVALID_DECISION_PRICE'' ''decision_price'')
      else (case ctx_symbol_rule c of
        None \<Rightarrow> Inr (risk_reject ''SYMBOL_RULE_MISSING'' ''symbol_rule'')
      | Some rule \<Rightarrow>
      if (case ctx_plan c of None \<Rightarrow> False | Some plan \<Rightarrow> \<not> plan_actionable plan)
      then Inr (decision_for_non_actionable_plan rule (the (ctx_plan c)))
      else (case ctx_market_context c of
        None \<Rightarrow> Inr (risk_reject (if ctx_order_type c = LIMIT then ''LIMIT_REQUIRES_MARKET_STATE''
                                  else ''MARKET_STATE_REQUIRED'') ''market_state'')
      | Some m \<Rightarrow>
      res_bind (timeframe_to_timedelta (sig_timeframe (ctx_signal c))) (\<lambda>delta.
      if max (delta * 2 div us_per_second) (pol_stale_threshold pol) < market_age_seconds c
      then Inr (risk_reject ''MARKET_DATA_STALE'' ''market_staleness'')
      else if ms_suspension m \<noteq> ACTIVE then Inr (risk_reject ''SECURITY_SUSPENDED'' ''suspension'')
      else if ms_phase m \<noteq> CONTINUOUS_AUCTION
      then Inr (risk_reject ''TRADING_SESSION_UNSUPPORTED'' ''trading_phase'')
      else (case ctx_plan c of
        None \<Rightarrow> Inr (risk_reject ''ORDER_PLAN_MISSING'' ''plan_construction'')
      | Some plan \<Rightarrow>
      Inr (first_objection
        [check_control_state c plan,
         check_quantity_rules rule plan,
         check_price_rules c rule m decision_price,
         check_order_notional pol plan decision_price,
         check_duplicates c plan,
         check_notional_limits pol c plan decision_price]
        (risk_allow ''ALLOWED'' ''pre_trade_risk_gate'')))))))"

section \<open>Step alignment\<close>

text \<open>On values of at most 27 digits the alignment test is the divisibility it stands for.\<close>

lemma dec_is_multiple_iff:
  assumes "sized e v" "sized e s" "0 \<le> v" "0 < s"
  shows "dec_is_multiple v s \<longleftrightarrow> is_multiple v s"
proof -
  obtain a where a: "v = of_int a * pow10 e" "\<bar>a\<bar> \<le> 10 ^ 27"
    using assms(1) by (rule sizedE)
  obtain b where b: "s = of_int b * pow10 e" "\<bar>b\<bar> \<le> 10 ^ 27"
    using assms(2) by (rule sizedE)
  have ab: "0 \<le> a" "a \<le> 10 ^ 27" "0 < b" "b \<le> 10 ^ 27"
    using a b assms pow10_pos [of e] by (auto simp: zero_less_mult_iff zero_le_mult_iff)
  let ?q = "of_int a / of_int b :: rat"
  have q: "v / s = ?q"
    by (simp add: a(1) b(1))
  have q0: "0 \<le> ?q"
    using ab by simp
  have unfold: "dec_is_multiple v s \<longleftrightarrow> ctx (of_int (round_half_even (ctx ?q)) * s) = v"
    using assms(4) by (simp add: dec_is_multiple_def dec_div_def dec_mul_def q)
  show ?thesis
  proof
    assume "is_multiple v s"
    then obtain k where k: "v = of_int k * s"
      using assms(4) by (auto elim: is_multipleE)
    then have "of_int a * pow10 e = of_int (k * b) * pow10 e"
      by (simp add: a(1) b(1))
    then have "a = k * b"
      by (simp only: mult_cancel_right pow10_nz of_int_eq_iff simp_thms)
    then have k_bounds: "0 \<le> k" "k \<le> a"
      using ab mult_left_mono [of 1 b k] by (auto simp: zero_le_mult_iff)
    have "?q = of_int k"
      using \<open>a = k * b\<close> ab by simp
    moreover have "ctx (of_int k) = of_int k"
      using ctx_exact [OF on_gridI [of k 0]] k_bounds ab by simp
    ultimately show "dec_is_multiple v s"
      unfolding unfold using k ctx_sized [OF assms(1)] by simp
  next
    let ?n = "round_half_even (ctx ?q)"
    assume "dec_is_multiple v s"
    then have v: "ctx (of_int ?n * s) = v"
      unfolding unfold .
    have ctx_q: "ctx ?q \<le> 2 * ?q"
    proof (cases "?q = 0")
      case False
      then have "0 < ?q"
        using q0 by linarith
      then have "\<bar>ctx ?q - ?q\<bar> \<le> ?q / (2 * 10 ^ 27)"
        by (rule ctx_error)
      moreover have "?q / (2 * 10 ^ 27) \<le> ?q / 1"
        using q0 by (intro divide_left_mono) simp_all
      ultimately show ?thesis
        by linarith
    next
      case True
      show ?thesis
        unfolding True by simp
    qed
    have "0 \<le> ctx ?q"
      using q0 by simp
    then have n: "\<bar>of_int ?n\<bar> \<le> 2 * ?q + 1 / 2"
      using ctx_q round_half_even_error [of "ctx ?q"] by linarith
    have "\<bar>of_int ?n\<bar> * of_int b \<le> (2 * ?q + 1 / 2) * of_int b"
      using n ab by (intro mult_right_mono) auto
    also have "\<dots> = of_int (2 * a) + of_int b / 2"
      using ab by (simp add: field_simps)
    also have "\<dots> \<le> of_int (2 * a) + of_int (10 ^ 27) / 2"
    proof -
      have "of_int b \<le> (of_int (10 ^ 27) :: rat)"
        using ab by (simp only: of_int_le_iff)
      then show ?thesis
        by simp
    qed
    finally have "of_int \<bar>?n * b\<bar> \<le> (of_int (2 * a) + of_int (10 ^ 27) / 2 :: rat)"
      using ab by (simp add: abs_mult)
    moreover have "of_int (2 * a) \<le> (of_int (2 * 10 ^ 27) :: rat)"
      using ab by (simp only: of_int_le_iff)
    ultimately have "of_int \<bar>?n * b\<bar> \<le> (of_int (10 ^ 28) :: rat)"
      by simp
    then have "\<bar>?n * b\<bar> \<le> 10 ^ 28"
      by (simp only: of_int_le_iff)
    from ctx_exact [OF on_gridI [OF this]] have "v = of_int ?n * s"
      using v by (simp add: b(1) mult.assoc)
    then show "is_multiple v s"
      using assms(4) by (auto intro: is_multipleI)
  qed
qed

section \<open>Sizing and the quantity rules\<close>

lemma sized_multiple:
  assumes "sized e v" "sized e s" "0 < s" "is_multiple r s" "\<bar>r\<bar> \<le> \<bar>v\<bar>"
  shows "sized e r"
proof -
  obtain k where "r = of_int k * s"
    using assms by (auto elim: is_multipleE)
  moreover obtain b where "s = of_int b * pow10 e"
    using assms(2) by (rule sizedE)
  ultimately have r: "r = of_int (k * b) * pow10 e"
    by simp
  have "\<bar>v\<bar> \<le> 10 ^ 27 * pow10 e"
    using assms(1) by (simp add: sized_def)
  moreover have "\<bar>r\<bar> = of_int \<bar>k * b\<bar> * pow10 e"
    unfolding r by (simp only: abs_mult of_int_abs of_int_mult abs_of_pos pow10_pos)
  ultimately have "of_int \<bar>k * b\<bar> * pow10 e \<le> of_int (10 ^ 27) * pow10 e"
    using assms(5) by (simp only: of_int_power of_int_numeral)
  then have "of_int \<bar>k * b\<bar> \<le> (of_int (10 ^ 27) :: rat)"
    by (rule mult_right_le_imp_le) simp
  then have "\<bar>k * b\<bar> \<le> 10 ^ 27"
    by (simp only: of_int_le_iff)
  then show ?thesis
    unfolding r by (rule sizedI)
qed

lemma plan_qty_sized:
  assumes plan: "build_signal_order_intent_plan s rule current dp ctxt otype price = Inr p"
    and inputs: "sizing_inputs e s rule current" and "plan_side p \<noteq> None"
  shows "sized e (plan_qty p)" "0 < plan_qty p"
proof -
  note d = sizing_inputsD [OF inputs] and f = plan_contract_holds [OF plan inputs]
  have pos: "0 < plan_qty p"
    using plan_actionable_iff [OF plan inputs] assms(3) by (simp add: plan_actionable_def)
  have "sized e (plan_qty p)"
  proof (cases "plan_side p = Some SELL \<and> plan_odd_lot_sell p")
    case True
    then show ?thesis
      using f d(7) by (simp add: plan_contract_def)
  next
    case False
    then have m: "is_multiple (plan_qty p) (rule_qty_step rule)"
      using f assms(3) by (cases "plan_side p" rule: option.exhaust; cases "the (plan_side p)")
        (auto simp: plan_contract_def)
    have "plan_qty p \<le> sig_target s \<or> plan_qty p \<le> held_sellable current"
      using f assms(3) d(8) by (cases "plan_side p" rule: option.exhaust; cases "the (plan_side p)")
        (auto simp: plan_contract_def)
    then show ?thesis
      using sized_multiple [OF d(2) d(3) d(4) m] sized_multiple [OF d(7) d(3) d(4) m] pos by auto
  qed
  then show "sized e (plan_qty p)" "0 < plan_qty p"
    using pos by auto
qed

text \<open>
  A sized order passes the quantity rules exactly when it is no odd-lot sale, or an odd-lot sale
  whose quantity happens to be a multiple of the step.
\<close>

lemma sized_plan_quantity:
  assumes plan: "build_signal_order_intent_plan s rule current dp ctxt otype price = Inr p"
    and inputs: "sizing_inputs e s rule current" and "plan_side p \<noteq> None"
  shows "check_quantity_rules rule p =
     (if is_multiple (plan_qty p) (rule_qty_step rule) then None
      else Some (risk_reject ''QTY_STEP_VIOLATION'' ''qty_step''))"
proof -
  note d = sizing_inputsD [OF inputs] and f = plan_contract_holds [OF plan inputs]
  have min: "rule_lot_size rule \<le> rule_min_qty rule"
    using inputs by (simp add: sizing_inputs_def symbol_rule_ok_def)
  have iff: "dec_is_multiple (plan_qty p) (rule_qty_step rule) \<longleftrightarrow> is_multiple (plan_qty p) (rule_qty_step rule)"
    using plan_qty_sized [OF assms] d by (intro dec_is_multiple_iff) auto
  show ?thesis
    using assms(3) plan_qty_sized(2) [OF assms] f min plan_fields(4,5) [OF plan] d(11)
    by (cases "plan_side p" rule: option.exhaust; cases "the (plan_side p)")
      (auto simp: check_quantity_rules_def iff plan_contract_def odd_lot_context_def split: if_splits)
qed

lemma not_multiple_below:
  assumes "0 < x" "x < y"
  shows "\<not> is_multiple x y"
proof
  assume "is_multiple x y"
  then obtain k where k: "x = of_int k * y"
    using assms by (auto elim: is_multipleE)
  then have "0 < k"
    using assms by (auto simp: zero_less_mult_iff)
  then have "1 * y \<le> of_int k * y"
    using assms by (intro mult_right_mono) auto
  then show False
    using k assms by linarith
qed

section \<open>What the gate lets through\<close>

lemma first_objection_allowed:
  assumes "rr_decision allowed = ALLOW" "\<forall>d \<in> set ds. \<forall>r. d = Some r \<longrightarrow> rr_decision r = RISK_REJECT"
  shows "rr_allowed (first_objection ds allowed) \<longleftrightarrow> (\<forall>d \<in> set ds. d = None)"
  using assms by (induction ds) (auto simp: rr_allowed_def split: option.splits)

lemma account_notional_rejects:
  "account_notional symb rq rn acc seen ps = Inl r \<Longrightarrow> rr_decision r = RISK_REJECT"
  by (induction symb rq rn acc seen ps rule: account_notional.induct)
    (auto simp: risk_reject_def split: if_splits option.splits)

lemma objections_reject:
  "check_control_state c p = Some r \<Longrightarrow> rr_decision r = RISK_REJECT"
  "check_quantity_rules rule p = Some r \<Longrightarrow> rr_decision r = RISK_REJECT"
  "check_price_rules c rule m dp = Some r \<Longrightarrow> rr_decision r = RISK_REJECT"
  "check_duplicates c p = Some r \<Longrightarrow> rr_decision r = RISK_REJECT"
  "check_notional_limits pol c p dp = Some r \<Longrightarrow> rr_decision r = RISK_REJECT"
  by (auto simp: check_control_state_def check_quantity_rules_def check_price_rules_def
      check_duplicates_def check_notional_limits_def risk_reject_def Let_def
      split: if_splits option.splits order_side.splits sum.splits dest: account_notional_rejects)

text \<open>The conditions under which an order is admitted, as the checks enforce them.\<close>

definition risk_admits ::
  "risk_policy \<Rightarrow> risk_context \<Rightarrow> symbol_rule \<Rightarrow> market_state \<Rightarrow> rat \<Rightarrow> order_plan \<Rightarrow> bool" where
  "risk_admits pol c rule m dp plan \<longleftrightarrow>
     0 < dp \<and> ms_suspension m = ACTIVE \<and> ms_phase m = CONTINUOUS_AUCTION
     \<and> (ctx_control_state c \<in> {KILL_SWITCH, PROTECTION_MODE} \<longrightarrow> is_true_reduction c plan)
     \<and> check_quantity_rules rule plan = None
     \<and> check_price_rules c rule m dp = None
     \<and> pol_min_order_notional pol \<le> dec_mul (plan_qty plan) dp
     \<and> (\<forall>i \<in> set (ctx_recent_intents c). \<not> intent_duplicates c plan i)
     \<and> check_notional_limits pol c plan dp = None"

lemma risk_evaluate_cases:
  assumes "risk_evaluate pol c = Inr r" "rr_allowed r" "ctx_plan c = Some plan" "plan_actionable plan"
  obtains dp rule m where "ctx_decision_price c = Some dp" "ctx_symbol_rule c = Some rule"
    "ctx_market_context c = Some m" "risk_admits pol c rule m dp plan"
    "market_age_seconds c \<le> max (the (case timeframe_to_timedelta (sig_timeframe (ctx_signal c)) of
        Inl _ \<Rightarrow> None | Inr d \<Rightarrow> Some d) * 2 div us_per_second) (pol_stale_threshold pol)"
proof -
  have side: "plan_side plan \<noteq> None"
    using assms(4) by (simp add: plan_actionable_def)
  have no: "\<not> rr_allowed (risk_reject code rl)" for code rl
    by (simp add: rr_allowed_def risk_reject_def)
  note u = assms(1) [unfolded risk_evaluate_def assms(3)]
  obtain dp where dp: "ctx_decision_price c = Some dp" "0 < dp"
    using u assms(2) no by (auto split: option.splits if_splits)
  obtain rule where rule: "ctx_symbol_rule c = Some rule"
    using u assms(2) no dp by (auto split: option.splits)
  obtain m where m: "ctx_market_context c = Some m"
    using u assms(2,4) no dp rule by (auto split: option.splits)
  obtain delta where delta: "timeframe_to_timedelta (sig_timeframe (ctx_signal c)) = Inr delta"
    using u assms(4) dp rule m by auto
  have rest: "\<not> max (delta * 2 div us_per_second) (pol_stale_threshold pol) < market_age_seconds c"
    "ms_suspension m = ACTIVE" "ms_phase m = CONTINUOUS_AUCTION"
    using u assms(2,4) no dp rule m delta by (auto split: if_splits)
  let ?ds = "[check_control_state c plan, check_quantity_rules rule plan, check_price_rules c rule m dp,
         check_order_notional pol plan dp,
         check_duplicates c plan, check_notional_limits pol c plan dp]"
  have r: "r = first_objection ?ds (risk_allow ''ALLOWED'' ''pre_trade_risk_gate'')"
    using u assms(4) dp rule m delta rest by (simp del: first_objection.simps split: if_splits)
  have "\<forall>d \<in> set ?ds. \<forall>r. d = Some r \<longrightarrow> rr_decision r = RISK_REJECT"
    using objections_reject by (auto simp: check_order_notional_def risk_reject_def split: if_splits)
  from first_objection_allowed [OF _ this, of "risk_allow ''ALLOWED'' ''pre_trade_risk_gate''"] assms(2)
  have "\<forall>d \<in> set ?ds. d = None"
    unfolding r by (simp add: risk_allow_def)
  then have "risk_admits pol c rule m dp plan"
    using dp rest side unfolding risk_admits_def
    by (auto simp: check_control_state_def check_order_notional_def check_duplicates_def list_ex_iff split: if_splits)
  then show thesis
    using that dp rule m delta rest by simp
qed

text \<open>A halted system admits nothing but sales that reduce the position that is held.\<close>

lemma is_true_reduction_iff:
  assumes "ctx_current_position c = Some p" "position_ok p" "0 < plan_qty plan"
    and "sized e (pos_qty p)" "sized e (plan_qty plan)"
  shows "is_true_reduction c plan \<longleftrightarrow> plan_side plan = Some SELL \<and> plan_qty plan \<le> pos_sellable_qty p"
proof -
  have "dec_sub (pos_qty p) (plan_qty plan) = pos_qty p - plan_qty plan"
    using sized_diff [OF assms(4,5)] assms(3) position_okD(1) [OF assms(2)]
    by (simp add: dec_sub_def ctx_sized)
  then show ?thesis
    using assms position_okD(1,3) [OF assms(2)] by (auto simp: is_true_reduction_def Let_def)
qed

section \<open>The exposure of the account\<close>

text \<open>
  Rounding to 28 digits never lowers a sum of multiples of 10^e below the exact sum capped at
  10^(28+e): the accumulated notional cannot slip under a limit below that cap.
\<close>

definition covers :: "int \<Rightarrow> rat \<Rightarrow> rat \<Rightarrow> bool" where
  "covers e a s \<longleftrightarrow> 0 \<le> s \<and> is_multiple s (pow10 e) \<and> min s (10 ^ 28 * pow10 e) \<le> a"

lemma is_multiple_pow10E:
  assumes "is_multiple x (pow10 e)"
  obtains k where "x = of_int k * pow10 e"
  using assms by (rule is_multipleE) auto

lemma cap_on_grid:
  assumes "0 \<le> s" "is_multiple s (pow10 e)"
  shows "ctx (min s (10 ^ 28 * pow10 e)) = min s (10 ^ 28 * pow10 e)"
proof -
  obtain k where k: "s = of_int k * pow10 e"
    using assms(2) by (rule is_multiple_pow10E)
  then have "0 \<le> k"
    using assms(1) pow10_pos [of e] by (auto simp: zero_le_mult_iff)
  show ?thesis
  proof (cases "k \<le> 10 ^ 28")
    case True
    then have "of_int k \<le> (of_int (10 ^ 28) :: rat)"
      by (simp only: of_int_le_iff)
    then have "s \<le> 10 ^ 28 * pow10 e"
      unfolding k by (intro mult_right_mono) simp_all
    moreover have "ctx s = s"
      unfolding k by (rule ctx_exact, rule on_gridI) (use True \<open>0 \<le> k\<close> in simp)
    ultimately show ?thesis
      by (simp only: min_absorb1)
  next
    case False
    then have "of_int (10 ^ 28) \<le> (of_int k :: rat)"
      by (simp only: of_int_le_iff)
    then have "10 ^ 28 * pow10 e \<le> s"
      unfolding k by (intro mult_right_mono) simp_all
    moreover have "ctx (of_int (10 ^ 28) * pow10 e) = of_int (10 ^ 28) * pow10 e"
      by (rule ctx_exact, rule on_gridI) simp
    ultimately show ?thesis
      by (simp only: min_absorb2 of_int_power of_int_numeral)
  qed
qed

lemma covers_ctx:
  assumes "0 \<le> s" "is_multiple s (pow10 e)" "min s (10 ^ 28 * pow10 e) \<le> x"
  shows "covers e (ctx x) s"
  using assms dec.rnd_ge_exact [OF cap_on_grid [OF assms(1,2)] assms(3)] by (simp add: covers_def)

lemma covers_0 [simp]: "covers e 0 0"
  by (simp add: covers_def is_multiple_def)

lemma min_add_le:
  fixes s t b x y :: rat
  shows "0 \<le> s \<Longrightarrow> 0 \<le> t \<Longrightarrow> min s b \<le> x \<Longrightarrow> min t b \<le> y \<Longrightarrow> 0 \<le> b \<Longrightarrow> min (s + t) b \<le> x + y"
  by (auto simp: min_def split: if_splits)

lemma covers_add:
  assumes "covers e a s" "covers e b t"
  shows "covers e (dec_add a b) (s + t)"
proof -
  obtain j k where "s = of_int j * pow10 e" "t = of_int k * pow10 e"
    using assms unfolding covers_def by (metis is_multiple_pow10E)
  then have "s + t = of_int (j + k) * pow10 e"
    by (simp add: algebra_simps)
  then have mult: "is_multiple (s + t) (pow10 e)"
    by (rule is_multipleI [rotated]) simp
  have "0 \<le> s" "0 \<le> t" "min s (10 ^ 28 * pow10 e) \<le> a" "min t (10 ^ 28 * pow10 e) \<le> b"
    using assms by (simp_all add: covers_def)
  moreover have "0 \<le> 10 ^ 28 * pow10 e"
    by simp
  ultimately have "min (s + t) (10 ^ 28 * pow10 e) \<le> a + b"
    by (intro min_add_le)
  moreover have "0 \<le> s + t"
    using assms by (simp add: covers_def)
  ultimately show ?thesis
    unfolding dec_add_def using mult by (intro covers_ctx) simp_all
qed

lemma covers_mul:
  assumes "0 \<le> x" "0 \<le> y" "is_multiple x (pow10 e)" "is_multiple y (pow10 e)"
  shows "covers (e + e) (dec_mul x y) (x * y)"
proof -
  obtain j k where "x = of_int j * pow10 e" "y = of_int k * pow10 e"
    using assms by (metis is_multiple_pow10E)
  then have "x * y = of_int (j * k) * pow10 (e + e)"
    by (simp only: pow10_add of_int_mult mult_ac)
  then have "is_multiple (x * y) (pow10 (e + e))"
    by (rule is_multipleI [rotated]) simp
  then show ?thesis
    using assms unfolding dec_mul_def by (intro covers_ctx) simp_all
qed

lemma covers_limit:
  assumes "covers e a s" "a \<le> t" "t < 10 ^ 28 * pow10 e"
  shows "s \<le> t"
  using assms by (auto simp: covers_def min_def split: if_splits)

definition reference_price :: "position \<Rightarrow> rat option" where
  "reference_price p = or_price_option (pos_mark_price p) (pos_avg_entry_price p)"

definition exposure :: "position \<Rightarrow> rat" where
  "exposure p = \<bar>pos_qty p\<bar> * (case reference_price p of None \<Rightarrow> 0 | Some r \<Rightarrow> r)"

definition other_exposure :: "string \<Rightarrow> position list \<Rightarrow> rat" where
  "other_exposure symb ps =
     sum_list (map exposure (filter (\<lambda>p. 0 < pos_qty p \<and> pos_symbol p \<noteq> symb) ps))"

text \<open>What a row of the positions table holds: ten decimals and no negative price.\<close>

definition stored_position :: "position \<Rightarrow> bool" where
  "stored_position p \<longleftrightarrow> position_ok p \<and> on_grid (- 10) (pos_qty p)
     \<and> (\<forall>r \<in> set_option (reference_price p). 0 \<le> r \<and> on_grid (- 10) r)"

lemma on_grid_multiple: "on_grid e x \<Longrightarrow> is_multiple x (pow10 e)"
  by (auto elim!: on_gridE intro: is_multipleI)

lemma stored_exposure:
  assumes "stored_position p" "reference_price p = Some r"
  shows "covers (- 20) (dec_mul (dec_abs (pos_qty p)) r) (exposure p)"
proof -
  have q: "0 \<le> pos_qty p" "on_grid (- 10) (pos_qty p)" "0 \<le> r" "on_grid (- 10) r"
    using assms position_okD(1) by (auto simp: stored_position_def)
  then have "dec_abs (pos_qty p) = pos_qty p"
    by (simp add: dec_abs_def ctx_exact)
  then show ?thesis
    using covers_mul [OF q(1,3) on_grid_multiple on_grid_multiple, OF q(2,4)] q assms(2)
    by (simp add: exposure_def)
qed

lemma account_notional_covers:
  assumes "account_notional symb rq rn acc seen ps = Inr (acc', seen')"
    and "\<forall>p \<in> set ps. stored_position p"
    and "covers (- 20) acc s" "covers (- 20) rn t"
  shows "\<exists>n. covers (- 20) acc' (s + other_exposure symb ps + of_nat n * t)
    \<and> (seen' \<longrightarrow> seen \<or> rq \<le> 0 \<or> 0 < n)"
  using assms
proof (induction symb rq rn acc seen ps arbitrary: s rule: account_notional.induct)
  case (1 symb rq rn acc seen)
  then show ?case
    by (intro exI [of _ 0]) (simp add: other_exposure_def)
next
  case (2 symb rq rn acc seen p ps)
  have ps: "\<forall>p \<in> set ps. stored_position p" and p: "stored_position p"
    using "2.prems"(2) by auto
  consider "pos_qty p \<le> 0" | "0 < pos_qty p" "pos_symbol p = symb" "rq \<le> 0"
    | "0 < pos_qty p" "pos_symbol p = symb" "0 < rq" | "0 < pos_qty p" "pos_symbol p \<noteq> symb"
    by linarith
  then show ?case
  proof cases
    case 1
    then show ?thesis
      using "2.IH"(1) "2.prems" ps by (simp add: other_exposure_def)
  next
    case 2
    then show ?thesis
      using "2.IH"(2) [OF _ _ _ ps _ "2.prems"(4), of s] "2.prems" by (simp add: other_exposure_def)
  next
    case 3
    then obtain n where "covers (- 20) acc' (s + t + other_exposure symb ps + of_nat n * t)"
      using "2.IH"(2) [OF _ _ _ ps _ "2.prems"(4), of "s + t"] covers_add [OF "2.prems"(3,4)] "2.prems"(1)
      by auto
    then show ?thesis
      using 3 by (intro exI [of _ "Suc n"]) (simp add: other_exposure_def algebra_simps)
  next
    case 4
    then obtain r where r: "reference_price p = Some r"
      using "2.prems"(1) by (auto simp: reference_price_def split: option.splits)
    note c = covers_add [OF "2.prems"(3) stored_exposure [OF p r]]
    have "other_exposure symb (p # ps) = exposure p + other_exposure symb ps"
      using 4 by (simp add: other_exposure_def)
    then show ?thesis
      using "2.IH"(3) [OF _ _ _ _ ps c "2.prems"(4)] 4 r "2.prems"(1)
      by (simp add: reference_price_def add.assoc)
  qed
qed

text \<open>The quantity held once the order has filled.\<close>

definition held_after :: "order_plan \<Rightarrow> rat" where
  "held_after plan =
     (if plan_side plan = Some BUY then plan_current_qty plan + plan_qty plan
      else plan_current_qty plan - plan_qty plan)"

lemma sized_add_on_grid:
  assumes "sized e x" "sized e y"
  shows "on_grid e (x + y)"
proof (rule on_grid_add)
  have "\<bar>x\<bar> \<le> 10 ^ 27 * pow10 e" "\<bar>y\<bar> \<le> 10 ^ 27 * pow10 e"
    using assms by (simp_all add: sized_def)
  then have "\<bar>x\<bar> + \<bar>y\<bar> \<le> 2 * 10 ^ 27 * pow10 e"
    by simp
  also have "\<dots> \<le> 10 ^ 28 * pow10 e"
    by (intro mult_right_mono) simp_all
  finally show "\<bar>x + y\<bar> \<le> 10 ^ 28 * pow10 e"
    using abs_triangle_ineq [of x y] by linarith
qed (use assms in \<open>auto simp: sized_def\<close>)

lemma resulting_qty_exact:
  assumes "sized e (plan_current_qty plan)" "sized e (plan_qty plan)" "0 \<le> held_after plan"
  shows "resulting_qty plan = held_after plan" "on_grid e (held_after plan)"
proof -
  show grid: "on_grid e (held_after plan)"
    using sized_add_on_grid [OF assms(1,2)] sized_add_on_grid [of e _ "- plan_qty plan", OF assms(1)] assms(2)
    by (simp add: held_after_def)
  have "ctx (held_after plan) = held_after plan"
    by (rule ctx_exact) (rule grid)
  then show "resulting_qty plan = held_after plan"
    using assms(3)
    by (auto simp: resulting_qty_def held_after_def dec_add_def dec_sub_def split: if_splits)
qed

lemma notional_limits_hold:
  assumes "check_notional_limits pol c plan dp = None" "plan_side plan \<noteq> None"
    and "sized (- 10) (plan_current_qty plan)" "sized (- 10) (plan_qty plan)" "0 \<le> held_after plan"
    and "on_grid (- 10) dp" "0 < dp" "\<forall>p \<in> set (ctx_open_positions c). stored_position p"
    and "pol_max_single_notional pol < 10 ^ 8" "pol_max_total_notional pol < 10 ^ 8"
  shows "held_after plan * dp \<le> pol_max_single_notional pol"
    "other_exposure (sig_symbol (ctx_signal c)) (ctx_open_positions c) + held_after plan * dp
       \<le> pol_max_total_notional pol"
proof -
  let ?h = "held_after plan" and ?ps = "ctx_open_positions c" and ?symb = "sig_symbol (ctx_signal c)"
  let ?n = "dec_mul (dec_abs ?h) dp"
  note h = resulting_qty_exact [OF assms(3,4,5)]
  have cap: "10 ^ 28 * pow10 (- 20) = 10 ^ 8"
    by (simp add: pow10_minus pow10_of_nat [of 20, simplified])
  have "dec_abs ?h = ?h"
    using h assms(5) by (simp add: dec_abs_def ctx_exact)
  then have n: "covers (- 20) ?n (?h * dp)"
    using covers_mul [OF assms(5) _ on_grid_multiple [OF h(2)] on_grid_multiple [OF assms(6)]] assms(7)
    by simp
  have single: "?n \<le> pol_max_single_notional pol"
    using assms(1,2) by (auto simp: check_notional_limits_def Let_def h(1) split: if_splits)
  show "?h * dp \<le> pol_max_single_notional pol"
    by (rule covers_limit [OF n single]) (simp only: cap assms(9))
  obtain acc seen where acc: "account_notional ?symb ?h ?n 0 False ?ps = Inr (acc, seen)"
    and total: "(if \<not> seen \<and> 0 < ?h then dec_add acc ?n else acc) \<le> pol_max_total_notional pol"
    using assms(1,2) by (auto simp: check_notional_limits_def Let_def h(1) split: if_splits sum.splits)
  obtain k where k: "covers (- 20) acc (0 + other_exposure ?symb ?ps + of_nat k * (?h * dp))"
    "seen \<longrightarrow> False \<or> ?h \<le> 0 \<or> 0 < k"
    using account_notional_covers [OF acc assms(8) covers_0 n] by blast
  show "other_exposure ?symb ?ps + ?h * dp \<le> pol_max_total_notional pol"
  proof (cases "seen \<or> ?h \<le> 0")
    case True
    have "other_exposure ?symb ?ps + of_nat k * (?h * dp) \<le> pol_max_total_notional pol"
      by (rule covers_limit [OF _ _ assms(10) [folded cap], of acc]) (use k(1) total True in auto)
    moreover have "?h * dp \<le> of_nat k * (?h * dp)"
    proof (cases "?h = 0")
      case False
      then have "1 * (?h * dp) \<le> of_nat k * (?h * dp)"
        using True k(2) assms(5,7) by (intro mult_right_mono) (auto simp: Suc_le_eq)
      then show ?thesis
        by simp
    qed simp
    ultimately show ?thesis
      by linarith
  next
    case False
    then have "covers (- 20) (dec_add acc ?n) (other_exposure ?symb ?ps + of_nat k * (?h * dp) + ?h * dp)"
      using covers_add [OF k(1) n] by simp
    then have "other_exposure ?symb ?ps + of_nat k * (?h * dp) + ?h * dp \<le> pol_max_total_notional pol"
      by (rule covers_limit [OF _ _ assms(10) [folded cap]]) (use total False in auto)
    moreover have "0 \<le> of_nat k * (?h * dp)"
      using assms(5,7) by simp
    ultimately show ?thesis
      by linarith
  qed
qed

section \<open>Properties\<close>

definition sample_risk_context ::
  "rat \<Rightarrow> rat \<Rightarrow> order_plan \<Rightarrow> risk_control_state \<Rightarrow> risk_context" where
  "sample_risk_context target qty plan ctrl =
     \<lparr>ctx_signal = sample_signal target, ctx_decision_price = Some 40,
      ctx_received_at = sample_time + 2 * us_per_second, ctx_symbol_rule = Some sample_rule,
      ctx_market_context = Some sample_market, ctx_current_position = Some (sample_position qty qty),
      ctx_open_positions = [sample_position qty qty], ctx_recent_intents = [],
      ctx_plan = Some plan, ctx_order_type = MARKET, ctx_price = None, ctx_control_state = ctrl\<rparr>"

lemma sample_plan_actionable [simp]:
  "plan_actionable (sample_plan 550 200 BUY 300)" "plan_actionable (sample_plan 0 50 SELL 50)"
  "plan_actionable (sample_plan 0 200 SELL 200)"
  by (simp_all add: plan_actionable_def sample_plan_def)

lemma sample_risk_allowed:
  "risk_evaluate default_policy (sample_risk_context 550 200 (sample_plan 550 200 BUY 300) CTRL_NORMAL)
     = Inr (risk_allow ''ALLOWED'' ''pre_trade_risk_gate'')"
  "risk_evaluate default_policy (sample_risk_context 0 200 (sample_plan 0 200 SELL 200)
       (resolve_risk_control_state True True False))
     = Inr (risk_allow ''ALLOWED'' ''pre_trade_risk_gate'')"
  by code_simp+

text \<open>
  C14.  The halt.  While the kill switch or protection mode is on, whatever else is set, the gate
  allows no actionable order but a sale of a position that is held, of at most its sellable quantity.
\<close>

theorem halt_only_reduces:
  assumes "risk_evaluate pol c = Inr r" "rr_allowed r" "ctx_plan c = Some plan" "plan_actionable plan"
    and "ctx_control_state c = resolve_risk_control_state enabled kill protection" "kill \<or> protection"
  shows "\<exists>p. ctx_current_position c = Some p \<and> plan_side plan = Some SELL
    \<and> 0 < plan_qty plan \<and> plan_qty plan \<le> pos_sellable_qty p \<and> 0 < pos_qty p"
proof -
  obtain dp rule m where "risk_admits pol c rule m dp plan"
    using risk_evaluate_cases [OF assms(1-4)] by metis
  moreover have "ctx_control_state c \<in> {KILL_SWITCH, PROTECTION_MODE}"
    using assms(5,6) by (auto simp: resolve_risk_control_state_def)
  ultimately have "is_true_reduction c plan"
    by (auto simp: risk_admits_def)
  then show ?thesis
    using assms(4)
    by (auto simp: is_true_reduction_def Let_def plan_actionable_def split: if_splits option.splits)
qed

theorem halt_only_reduces_witness:
  "\<exists>p. ctx_current_position (sample_risk_context 0 200 (sample_plan 0 200 SELL 200)
        (resolve_risk_control_state True True False)) = Some p
     \<and> plan_side (sample_plan 0 200 SELL 200) = Some SELL \<and> 0 < plan_qty (sample_plan 0 200 SELL 200)
     \<and> plan_qty (sample_plan 0 200 SELL 200) \<le> pos_sellable_qty p \<and> 0 < pos_qty p"
  by (rule halt_only_reduces [OF sample_risk_allowed(2), where enabled = True and kill = True and protection = False])
    (simp_all add: rr_allowed_def risk_allow_def sample_risk_context_def)

text \<open>
  C10.  What the gate lets through.  An allowed actionable order has a positive decision price, an
  active security in continuous auction, a reference price within the daily limits (a LIMIT price
  positive and on the tick), a notional of at least the minimum, and no active intent it duplicates;
  a purchase has at least the minimum quantity, a sale is covered by the sellable quantity and, when less
  than a lot is sellable, planned as the one-shot sale of an odd lot, or else of the minimum quantity.
\<close>

theorem allowed_order_admissible:
  assumes "risk_evaluate pol c = Inr r" "rr_allowed r" "ctx_plan c = Some plan" "plan_actionable plan"
  shows "\<exists>dp rule m. ctx_decision_price c = Some dp \<and> ctx_symbol_rule c = Some rule
    \<and> ctx_market_context c = Some m \<and> 0 < dp \<and> ms_suspension m = ACTIVE \<and> ms_phase m = CONTINUOUS_AUCTION
    \<and> (case ctx_order_type c of
         MARKET \<Rightarrow> ms_lower_limit m \<le> dp \<and> dp \<le> ms_upper_limit m
       | LIMIT \<Rightarrow> (case ctx_price c of None \<Rightarrow> False
           | Some p \<Rightarrow> 0 < p \<and> dec_is_multiple p (rule_price_tick rule)
               \<and> ms_lower_limit m \<le> p \<and> p \<le> ms_upper_limit m))
    \<and> pol_min_order_notional pol \<le> dec_mul (plan_qty plan) dp
    \<and> dec_is_multiple (plan_qty plan) (rule_qty_step rule)
    \<and> (if plan_side plan = Some BUY then rule_min_qty rule \<le> plan_qty plan
       else plan_qty plan \<le> plan_current_sellable plan
         \<and> (if plan_raw_delta plan < 0 \<and> 0 < plan_current_sellable plan
                \<and> plan_current_sellable plan < rule_lot_size rule
             then plan_odd_lot_sell plan else rule_min_qty rule \<le> plan_qty plan))
    \<and> \<not> list_ex (intent_duplicates c plan) (ctx_recent_intents c)"
proof -
  obtain dp rule m where cs: "ctx_decision_price c = Some dp" "ctx_symbol_rule c = Some rule"
    "ctx_market_context c = Some m" and a: "risk_admits pol c rule m dp plan"
    using risk_evaluate_cases [OF assms] by metis
  have price: "case ctx_order_type c of
         MARKET \<Rightarrow> ms_lower_limit m \<le> dp \<and> dp \<le> ms_upper_limit m
       | LIMIT \<Rightarrow> (case ctx_price c of None \<Rightarrow> False
           | Some p \<Rightarrow> 0 < p \<and> dec_is_multiple p (rule_price_tick rule)
               \<and> ms_lower_limit m \<le> p \<and> p \<le> ms_upper_limit m)"
    using a by (auto simp: risk_admits_def check_price_rules_def risk_price_within_limits_def Let_def
        split: order_type.splits option.splits if_splits)
  have qty: "dec_is_multiple (plan_qty plan) (rule_qty_step rule)"
    "if plan_side plan = Some BUY then rule_min_qty rule \<le> plan_qty plan
       else plan_qty plan \<le> plan_current_sellable plan
         \<and> (if plan_raw_delta plan < 0 \<and> 0 < plan_current_sellable plan
                \<and> plan_current_sellable plan < rule_lot_size rule
             then plan_odd_lot_sell plan else rule_min_qty rule \<le> plan_qty plan)"
    using a by (auto simp: risk_admits_def check_quantity_rules_def odd_lot_context_def
        split: option.splits if_splits order_side.splits)
  show ?thesis
    using cs a price qty by (intro exI [of _ dp] exI [of _ rule] exI [of _ m])
      (simp add: risk_admits_def list_ex_iff)
qed

theorem allowed_order_admissible_witness:
  "\<exists>dp. ctx_decision_price (sample_risk_context 550 200 (sample_plan 550 200 BUY 300) CTRL_NORMAL) = Some dp
     \<and> pol_min_order_notional default_policy \<le> dec_mul (plan_qty (sample_plan 550 200 BUY 300)) dp"
  using allowed_order_admissible [OF sample_risk_allowed(1), of "sample_plan 550 200 BUY 300"]
  by (simp add: rr_allowed_def risk_allow_def) (auto simp: sample_risk_context_def)

text \<open>
  C13.  Exposure limits.  When a sized order passes the gate, the position it leads to, priced at the
  decision price, stays within the single-symbol limit, and together with all other open positions
  within the account limit: in exact arithmetic, for positions stored with ten decimals and limits
  below 10^8, whatever the 28-digit context rounds.
\<close>

theorem allowed_order_within_limits:
  assumes "build_signal_order_intent_plan s rule current dp market otype price = Inr plan"
    and "sizing_inputs (- 10) s rule current" "plan_actionable plan"
    and "risk_evaluate pol c = Inr r" "rr_allowed r"
    and "ctx_plan c = Some plan" "ctx_decision_price c = Some dp" "ctx_signal c = s"
    and "on_grid (- 10) dp" "\<forall>p \<in> set (ctx_open_positions c). stored_position p"
    and "pol_max_single_notional pol < 10 ^ 8" "pol_max_total_notional pol < 10 ^ 8"
  shows "0 \<le> held_after plan \<and> held_after plan * dp \<le> pol_max_single_notional pol
    \<and> other_exposure (sig_symbol s) (ctx_open_positions c) + held_after plan * dp
        \<le> pol_max_total_notional pol"
proof -
  note f = plan_fields [OF assms(1)] and d = sizing_inputsD [OF assms(2)]
  have side: "plan_side plan \<noteq> None"
    using assms(3) by (simp add: plan_actionable_def)
  have con: "plan_contract s rule current plan"
    by (rule plan_contract_holds [OF assms(1,2)])
  have pos: "0 \<le> held_after plan"
    using con side plan_qty_sized(2) [OF assms(1,2) side] f(3) d(1,8)
    by (cases "plan_side plan" rule: option.exhaust; cases "the (plan_side plan)")
      (auto simp: held_after_def plan_contract_def)
  obtain dp' rule' m where "ctx_decision_price c = Some dp'" "risk_admits pol c rule' m dp' plan"
    using risk_evaluate_cases [OF assms(4,5,6,3)] by metis
  then have n: "check_notional_limits pol c plan dp = None"
    using assms(7) by (simp add: risk_admits_def)
  have sz: "sized (- 10) (plan_current_qty plan)"
    using d(6) f(3) by simp
  show ?thesis
    using notional_limits_hold [OF n side sz plan_qty_sized(1) [OF assms(1,2) side] pos assms(9) f(10) assms(10-12)]
      pos assms(8) by simp
qed

theorem allowed_order_within_limits_witness:
  "0 \<le> held_after (sample_plan 550 200 BUY 300)
   \<and> held_after (sample_plan 550 200 BUY 300) * 40 \<le> pol_max_single_notional default_policy
   \<and> other_exposure (sig_symbol (sample_signal 550))
       (ctx_open_positions (sample_risk_context 550 200 (sample_plan 550 200 BUY 300) CTRL_NORMAL))
     + held_after (sample_plan 550 200 BUY 300) * 40 \<le> pol_max_total_notional default_policy"
proof (rule allowed_order_within_limits [OF sample_plan_built(1) sample_inputs(1) _ sample_risk_allowed(1)])
  show "on_grid (- 10) 40" "\<forall>p \<in> set (ctx_open_positions (sample_risk_context 550 200
      (sample_plan 550 200 BUY 300) CTRL_NORMAL)). stored_position p"
    by code_simp+
qed (simp_all add: rr_allowed_def risk_allow_def sample_risk_context_def default_policy_def)

text \<open>
  Sizing and the gate disagree about odd lots: a sized order passes the quantity rules of the
  gate exactly when its quantity is a multiple of the step; every purchase and every ordinary sale
  does, so what the rules refuse is the odd-lot sales that sizing plans.
\<close>

lemma sized_order_quantity_check:
  assumes "build_signal_order_intent_plan s rule current dp market otype price = Inr p"
    and "sizing_inputs e s rule current" "plan_actionable p"
  shows "check_quantity_rules rule p =
     (if is_multiple (plan_qty p) (rule_qty_step rule) then None
      else Some (risk_reject ''QTY_STEP_VIOLATION'' ''qty_step''))
   \<and> (plan_odd_lot_sell p \<or> is_multiple (plan_qty p) (rule_qty_step rule))"
proof -
  have side: "plan_side p \<noteq> None"
    using assms(3) by (simp add: plan_actionable_def)
  have "plan_odd_lot_sell p \<or> is_multiple (plan_qty p) (rule_qty_step rule)"
    using plan_contract_holds [OF assms(1,2)] side
    by (cases "plan_side p" rule: option.exhaust; cases "the (plan_side p)")
      (auto simp: plan_contract_def split: if_splits)
  then show ?thesis
    using sized_plan_quantity [OF assms(1,2) side] by blast
qed

text \<open>
  C30.  No odd lot is ever sold.  With a quantity step equal to the lot size, as src/configs/base.yaml
  sets for every symbol, the gate refuses every odd-lot sale that sizing plans, although the rule
  allows odd-lot sales and the gate has a branch to accept them.
\<close>

theorem odd_lot_never_allowed:
  assumes "build_signal_order_intent_plan s rule current dp market otype price = Inr p"
    and "sizing_inputs e s rule current" "plan_actionable p" "plan_odd_lot_sell p"
    and "rule_qty_step rule = rule_lot_size rule"
    and "risk_evaluate pol c = Inr r" "ctx_plan c = Some p" "ctx_symbol_rule c = Some rule"
  shows "\<not> rr_allowed r"
proof
  assume "rr_allowed r"
  then obtain dp' rule' m where "ctx_symbol_rule c = Some rule'" "risk_admits pol c rule' m dp' p"
    using risk_evaluate_cases [OF assms(6) _ assms(7,3)] by metis
  then have q: "check_quantity_rules rule p = None"
    using assms(8) by (simp add: risk_admits_def)
  have side: "plan_side p \<noteq> None"
    using assms(3) by (simp add: plan_actionable_def)
  have "plan_qty p < rule_lot_size rule"
    using assms(1,2) by (cases rule: plan_cases) (use side assms(4) in auto)
  then have "\<not> is_multiple (plan_qty p) (rule_qty_step rule)"
    using assms(5) plan_qty_sized(2) [OF assms(1,2) side] by (simp add: not_multiple_below)
  then show False
    using q sized_plan_quantity [OF assms(1,2) side] by simp
qed

theorem odd_lot_never_allowed_witness:
  "\<not> rr_allowed (risk_reject ''QTY_STEP_VIOLATION'' ''qty_step'')"
proof (rule odd_lot_never_allowed [OF sample_plan_built(2) sample_inputs(2)])
  show "risk_evaluate (default_policy\<lparr>pol_min_order_notional := 1\<rparr>)
      (sample_risk_context 0 50 (sample_plan 0 50 SELL 50) CTRL_NORMAL)
      = Inr (risk_reject ''QTY_STEP_VIOLATION'' ''qty_step'')"
    by code_simp
qed (simp, simp_all add: sample_risk_context_def sample_plan_def sample_rule_def)

section \<open>The priority of the control states\<close>

fun severity :: "risk_control_state \<Rightarrow> nat" where
  "severity CTRL_NORMAL = 0"
| "severity STRATEGY_PAUSED = 1"
| "severity KILL_SWITCH = 2"
| "severity PROTECTION_MODE = 3"

lemma severity_inj: "severity x = severity y \<longleftrightarrow> x = y"
  by (cases x; cases y) simp_all

instantiation risk_control_state :: linorder
begin

definition less_eq_risk_control_state :: "risk_control_state \<Rightarrow> risk_control_state \<Rightarrow> bool" where
  "less_eq_risk_control_state x y \<longleftrightarrow> severity x \<le> severity y"

definition less_risk_control_state :: "risk_control_state \<Rightarrow> risk_control_state \<Rightarrow> bool" where
  "less_risk_control_state x y \<longleftrightarrow> severity x < severity y"

instance
  by standard (auto simp: less_eq_risk_control_state_def less_risk_control_state_def severity_inj)

end

text \<open>
  The effective control state is the most severe of those that are set, in the order normal,
  paused, kill switch, protection mode.
\<close>

lemma control_state_is_most_severe:
  "resolve_risk_control_state enabled kill protection =
     Max ({CTRL_NORMAL} \<union> (if enabled then {} else {STRATEGY_PAUSED})
          \<union> (if kill then {KILL_SWITCH} else {}) \<union> (if protection then {PROTECTION_MODE} else {}))"
  by (cases enabled; cases kill; cases protection)
    (simp_all add: resolve_risk_control_state_def max_def less_eq_risk_control_state_def)

end
