(* ===== verification/Control_Store.thy ===== *)
theory Control_Store
  imports Risk
begin

text \<open>
  The control plane in the database (TraderControlPlaneStore of src/apps/trader/control_plane.py):
  the operator's switches, the single-active lease of an account with its fencing token, the last
  runtime status of the trader, the settings of the research page and the requests for runtime
  symbols.  Every method of the class is one transaction here: a function from the tables to a
  result and the tables afterwards, behind the schema check of the store object.  The tables are
  maps from their primary keys; timestamps are instants, so the conversion of what the database
  returns to Shanghai time is the identity.
\<close>

section \<open>Tables\<close>

definition control_table_names :: "string list" where
  "control_table_names =
     [''research_ai_settings'', ''runtime_symbol_requests'', ''trader_account_leases'',
      ''trader_controls'', ''trader_runtime_status'']"

record control_record =
  cr_account :: string
  cr_strategy_enabled :: bool
  cr_kill_switch :: bool
  cr_protection_mode :: bool
  cr_cancel_all_token :: int
  cr_last_cancel_all_at :: "datetime option"
  cr_created_at :: datetime
  cr_updated_at :: datetime

record lease_record =
  lr_account :: string
  lr_owner :: "string option"
  lr_expires_at :: "datetime option"
  lr_last_heartbeat_at :: "datetime option"
  lr_fencing_token :: "int option"
  lr_updated_at :: datetime

text \<open>
  What a timestamp column holds or returns: a datetime without a time zone, or one with its UTC offset,
  each with its own clock reading in microseconds.  _shanghai_datetime reads a naive one as Shanghai
  time and converts an aware one.
\<close>

datatype column_time = Naive int | Aware int int

definition shanghai_offset :: int where
  "shanghai_offset = 8 * 60 * us_per_minute"

fun to_shanghai :: "column_time \<Rightarrow> datetime" where
  "to_shanghai (Naive wall) = wall"
| "to_shanghai (Aware wall off) = wall - off + shanghai_offset"

definition shanghai_datetime :: "column_time option \<Rightarrow> datetime option" where
  "shanghai_datetime value = map_option to_shanghai value"

text \<open>A datetime of the program, as it is assigned to a column.\<close>

definition aware_shanghai :: "datetime \<Rightarrow> column_time" where
  "aware_shanghai t = Aware t shanghai_offset"

record status_record =
  sr_account :: string
  sr_run_id :: string
  sr_instance :: string
  sr_lifecycle :: string
  sr_health :: string
  sr_readiness :: string
  sr_control_state :: string
  sr_strategy_enabled :: bool
  sr_kill_switch :: bool
  sr_protection_mode :: bool
  sr_market_data_fresh :: bool
  sr_latest_final_bar_time :: "column_time option"
  sr_trading_phase :: "string option"
  sr_last_strategy_id :: "string option"
  sr_last_strategy_decision_at :: "column_time option"
  sr_last_strategy_audit_json :: json
  sr_last_seen_bars_json :: json
  sr_last_strategy_bars_json :: json
  sr_fencing_token :: "int option"
  sr_last_status_message :: "string option"
  sr_updated_at :: column_time

record ai_settings_record =
  ar_account :: string
  ar_provider :: string
  ar_model :: string
  ar_base_url :: string
  ar_api_key :: "string option"
  ar_created_at :: datetime
  ar_updated_at :: datetime

record symbol_request_record =
  qr_account :: string
  qr_symbol :: string
  qr_requested_action :: string
  qr_status :: string
  qr_apply_mode :: string
  qr_requested_at :: datetime
  qr_updated_at :: datetime

text \<open>
  db_time is what a timestamp column returns for what was assigned to it: some databases keep the
  offset or convert to UTC, others drop the offset.  Only the times of the runtime status, which
  the program reads back, go through it; the other tables keep their times as instants.
\<close>

record control_db =
  db_tables :: "string list"
  db_time :: "column_time \<Rightarrow> column_time"
  db_controls :: "string \<Rightarrow> control_record option"
  db_leases :: "string \<Rightarrow> lease_record option"
  db_statuses :: "string \<Rightarrow> status_record option"
  db_ai_settings :: "string \<Rightarrow> ai_settings_record option"
  db_symbol_requests :: "string \<times> string \<Rightarrow> symbol_request_record option"

section \<open>Snapshots\<close>

record control_snapshot =
  ctl_account :: string
  ctl_strategy_enabled :: bool
  ctl_kill_switch :: bool
  ctl_protection_mode :: bool
  ctl_cancel_all_token :: int
  ctl_last_cancel_all_at :: "datetime option"
  ctl_updated_at :: "datetime option"

definition default_control_snapshot :: "string \<Rightarrow> control_snapshot" where
  "default_control_snapshot account =
     \<lparr>ctl_account = account, ctl_strategy_enabled = True, ctl_kill_switch = False,
      ctl_protection_mode = False, ctl_cancel_all_token = 0, ctl_last_cancel_all_at = None,
      ctl_updated_at = None\<rparr>"

definition ctl_control_state :: "control_snapshot \<Rightarrow> risk_control_state" where
  "ctl_control_state s =
     resolve_risk_control_state (ctl_strategy_enabled s) (ctl_kill_switch s) (ctl_protection_mode s)"

record lease_snapshot =
  ls_account :: string
  ls_owner :: "string option"
  ls_expires_at :: "datetime option"
  ls_last_heartbeat_at :: "datetime option"
  ls_fencing_token :: "int option"

definition no_lease :: "string \<Rightarrow> lease_snapshot" where
  "no_lease account =
     \<lparr>ls_account = account, ls_owner = None, ls_expires_at = None, ls_last_heartbeat_at = None,
      ls_fencing_token = None\<rparr>"

definition ls_is_held_by :: "lease_snapshot \<Rightarrow> string \<Rightarrow> datetime \<Rightarrow> bool" where
  "ls_is_held_by s instance_id as_of \<longleftrightarrow> ls_owner s = Some instance_id
     \<and> (case ls_expires_at s of None \<Rightarrow> False | Some t \<Rightarrow> as_of < t)"

definition ls_expired :: "lease_snapshot \<Rightarrow> datetime \<Rightarrow> bool" where
  "ls_expired s as_of \<longleftrightarrow> (case ls_expires_at s of None \<Rightarrow> True | Some t \<Rightarrow> t \<le> as_of)"

record runtime_status =
  rs_account :: string
  rs_run_id :: string
  rs_instance :: string
  rs_lifecycle :: string
  rs_health :: string
  rs_readiness :: string
  rs_control_state :: risk_control_state
  rs_strategy_enabled :: bool
  rs_kill_switch :: bool
  rs_protection_mode :: bool
  rs_market_data_fresh :: bool
  rs_latest_final_bar_time :: "datetime option"
  rs_trading_phase :: "string option"
  rs_fencing_token :: "int option"
  rs_last_status_message :: "string option"
  rs_updated_at :: datetime
  rs_last_strategy_id :: "string option"
  rs_last_strategy_decision_at :: "datetime option"
  rs_last_strategy_audit :: "json_object option"
  rs_last_seen_bars :: "(string \<times> json_object) list"
  rs_last_strategy_bars :: "(string \<times> json_object) list"

record ai_settings =
  ai_account :: string
  ai_provider :: string
  ai_model :: string
  ai_base_url :: string
  ai_api_key :: "string option"
  ai_created_at :: "datetime option"
  ai_updated_at :: "datetime option"

definition ai_has_api_key :: "ai_settings \<Rightarrow> bool" where
  "ai_has_api_key s \<longleftrightarrow> (case ai_api_key s of None \<Rightarrow> False | Some k \<Rightarrow> k \<noteq> [])"

record symbol_request =
  req_account :: string
  req_symbol :: string
  req_requested_action :: string
  req_status :: string
  req_apply_mode :: string
  req_requested_at :: "datetime option"
  req_updated_at :: "datetime option"

record lease_result =
  la_accepted :: bool
  la_snapshot :: lease_snapshot
  la_message :: string

record submission_guard =
  sg_account :: string
  sg_instance :: string
  sg_fencing_token :: int

definition control_snapshot_from_record :: "control_record \<Rightarrow> control_snapshot" where
  "control_snapshot_from_record r =
     \<lparr>ctl_account = cr_account r, ctl_strategy_enabled = cr_strategy_enabled r,
      ctl_kill_switch = cr_kill_switch r, ctl_protection_mode = cr_protection_mode r,
      ctl_cancel_all_token = cr_cancel_all_token r, ctl_last_cancel_all_at = cr_last_cancel_all_at r,
      ctl_updated_at = Some (cr_updated_at r)\<rparr>"

definition lease_snapshot_from_record :: "lease_record \<Rightarrow> lease_snapshot" where
  "lease_snapshot_from_record r =
     \<lparr>ls_account = lr_account r, ls_owner = lr_owner r, ls_expires_at = lr_expires_at r,
      ls_last_heartbeat_at = lr_last_heartbeat_at r, ls_fencing_token = lr_fencing_token r\<rparr>"

text \<open>RiskControlState.value and RiskControlState(value).\<close>

fun risk_control_value :: "risk_control_state \<Rightarrow> string" where
  "risk_control_value CTRL_NORMAL = ''normal''"
| "risk_control_value STRATEGY_PAUSED = ''strategy_paused''"
| "risk_control_value KILL_SWITCH = ''kill_switch''"
| "risk_control_value PROTECTION_MODE = ''protection_mode''"

definition risk_control_of_value :: "string \<Rightarrow> risk_control_state res" where
  "risk_control_of_value v =
     (case filter (\<lambda>c. risk_control_value c = v)
             [CTRL_NORMAL, STRATEGY_PAUSED, KILL_SWITCH, PROTECTION_MODE] of
        [] \<Rightarrow> Inl (ValueError ''not a valid RiskControlState'')
      | c # _ \<Rightarrow> Inr c)"

lemma risk_control_of_value_value [simp]: "risk_control_of_value (risk_control_value c) = Inr c"
  by (cases c) (simp_all add: risk_control_of_value_def)

text \<open>The row a first save inserts, and the assignments of a later save to the row that is there.\<close>

definition new_status_record :: "runtime_status \<Rightarrow> status_record" where
  "new_status_record s =
     \<lparr>sr_account = rs_account s,
      sr_run_id = rs_run_id s,
      sr_instance = rs_instance s,
      sr_lifecycle = rs_lifecycle s,
      sr_health = rs_health s,
      sr_readiness = rs_readiness s,
      sr_control_state = risk_control_value (rs_control_state s),
      sr_strategy_enabled = rs_strategy_enabled s,
      sr_kill_switch = rs_kill_switch s,
      sr_protection_mode = rs_protection_mode s,
      sr_market_data_fresh = rs_market_data_fresh s,
      sr_latest_final_bar_time = map_option aware_shanghai (rs_latest_final_bar_time s),
      sr_trading_phase = rs_trading_phase s,
      sr_last_strategy_id = rs_last_strategy_id s,
      sr_last_strategy_decision_at = map_option aware_shanghai (rs_last_strategy_decision_at s),
      sr_last_strategy_audit_json = object_json (rs_last_strategy_audit s),
      sr_last_seen_bars_json = objects_json (rs_last_seen_bars s),
      sr_last_strategy_bars_json = objects_json (rs_last_strategy_bars s),
      sr_fencing_token = rs_fencing_token s,
      sr_last_status_message = rs_last_status_message s,
      sr_updated_at = aware_shanghai (rs_updated_at s)\<rparr>"

definition update_status_record :: "runtime_status \<Rightarrow> status_record \<Rightarrow> status_record" where
  "update_status_record s r = r
     \<lparr>sr_run_id := rs_run_id s,
      sr_instance := rs_instance s,
      sr_lifecycle := rs_lifecycle s,
      sr_health := rs_health s,
      sr_readiness := rs_readiness s,
      sr_control_state := risk_control_value (rs_control_state s),
      sr_strategy_enabled := rs_strategy_enabled s,
      sr_kill_switch := rs_kill_switch s,
      sr_protection_mode := rs_protection_mode s,
      sr_market_data_fresh := rs_market_data_fresh s,
      sr_latest_final_bar_time := map_option aware_shanghai (rs_latest_final_bar_time s),
      sr_trading_phase := rs_trading_phase s,
      sr_last_strategy_id := rs_last_strategy_id s,
      sr_last_strategy_decision_at := map_option aware_shanghai (rs_last_strategy_decision_at s),
      sr_last_strategy_audit_json := object_json (rs_last_strategy_audit s),
      sr_last_seen_bars_json := objects_json (rs_last_seen_bars s),
      sr_last_strategy_bars_json := objects_json (rs_last_strategy_bars s),
      sr_fencing_token := rs_fencing_token s,
      sr_last_status_message := rs_last_status_message s,
      sr_updated_at := aware_shanghai (rs_updated_at s)\<rparr>"

text \<open>The column of updated_at is not nullable, so the fallback to the clock is never taken.\<close>

definition runtime_status_from_record :: "status_record \<Rightarrow> runtime_status res" where
  "runtime_status_from_record r =
     res_map (\<lambda>control_state.
       \<lparr>rs_account = sr_account r, rs_run_id = sr_run_id r, rs_instance = sr_instance r,
        rs_lifecycle = sr_lifecycle r, rs_health = sr_health r, rs_readiness = sr_readiness r,
        rs_control_state = control_state, rs_strategy_enabled = sr_strategy_enabled r,
        rs_kill_switch = sr_kill_switch r, rs_protection_mode = sr_protection_mode r,
        rs_market_data_fresh = sr_market_data_fresh r,
        rs_latest_final_bar_time = shanghai_datetime (sr_latest_final_bar_time r), rs_trading_phase = sr_trading_phase r,
        rs_fencing_token = sr_fencing_token r, rs_last_status_message = sr_last_status_message r,
        rs_updated_at = to_shanghai (sr_updated_at r), rs_last_strategy_id = sr_last_strategy_id r,
        rs_last_strategy_decision_at = shanghai_datetime (sr_last_strategy_decision_at r),
        rs_last_strategy_audit = json_single_object (sr_last_strategy_audit_json r),
        rs_last_seen_bars = json_object_mapping (sr_last_seen_bars_json r),
        rs_last_strategy_bars = json_object_mapping (sr_last_strategy_bars_json r)\<rparr>)
       (risk_control_of_value (sr_control_state r))"

lemma to_shanghai_aware [simp]: "to_shanghai (aware_shanghai t) = t"
  by (simp add: aware_shanghai_def)

lemma shanghai_datetime_aware [simp]: "shanghai_datetime (map_option aware_shanghai v) = v"
  by (cases v) (simp_all add: shanghai_datetime_def)

lemma runtime_status_from_new [simp]: "runtime_status_from_record (new_status_record s) = Inr s"
  by (simp add: runtime_status_from_record_def new_status_record_def)

lemma update_overwrites: "sr_account r = rs_account s \<Longrightarrow> update_status_record s r = new_status_record s"
  by (cases r) (simp add: update_status_record_def new_status_record_def)

definition ai_settings_from_record :: "ai_settings_record \<Rightarrow> ai_settings" where
  "ai_settings_from_record r =
     \<lparr>ai_account = ar_account r, ai_provider = ar_provider r, ai_model = ar_model r,
      ai_base_url = ar_base_url r, ai_api_key = ar_api_key r,
      ai_created_at = Some (ar_created_at r), ai_updated_at = Some (ar_updated_at r)\<rparr>"

definition symbol_request_from_record :: "symbol_request_record \<Rightarrow> symbol_request" where
  "symbol_request_from_record r =
     \<lparr>req_account = qr_account r, req_symbol = qr_symbol r,
      req_requested_action = qr_requested_action r, req_status = qr_status r,
      req_apply_mode = qr_apply_mode r, req_requested_at = Some (qr_requested_at r),
      req_updated_at = Some (qr_updated_at r)\<rparr>"

section \<open>The store object and its transactions\<close>

text \<open>
  A store object belongs to one process: it remembers that it has seen the migrated tables, and
  knows its host and which local processes are alive.  A transaction whose body raises leaves the
  tables as they were.
\<close>

record control_store =
  st_schema_ready :: bool
  st_hostname :: string
  st_pid_exists :: "int \<Rightarrow> bool"

definition ensure_schema :: "control_store \<Rightarrow> control_db \<Rightarrow> control_store res" where
  "ensure_schema st db =
     (if st_schema_ready st then Inr st
      else let missing = filter (\<lambda>t. t \<notin> set (db_tables db)) control_table_names
           in if missing \<noteq> [] then Inl (MissingControlPlaneSchemaError missing)
              else Inr (st\<lparr>st_schema_ready := True\<rparr>))"

definition transact_res ::
  "(control_db \<Rightarrow> ('a \<times> control_db) res) \<Rightarrow> control_store \<Rightarrow> control_db
     \<Rightarrow> 'a res \<times> control_store \<times> control_db" where
  "transact_res tx st db =
     (case ensure_schema st db of
        Inl e \<Rightarrow> (Inl e, st, db)
      | Inr st' \<Rightarrow> (case tx db of
            Inl e \<Rightarrow> (Inl e, st', db)
          | Inr (x, db') \<Rightarrow> (Inr x, st', db')))"

definition transact ::
  "(control_db \<Rightarrow> 'a \<times> control_db) \<Rightarrow> control_store \<Rightarrow> control_db
     \<Rightarrow> 'a res \<times> control_store \<times> control_db" where
  "transact tx = transact_res (\<lambda>db. Inr (tx db))"

section \<open>Operator switches\<close>

definition fresh_control :: "string \<Rightarrow> datetime \<Rightarrow> control_record" where
  "fresh_control account now =
     \<lparr>cr_account = account, cr_strategy_enabled = True, cr_kill_switch = False,
      cr_protection_mode = False, cr_cancel_all_token = 0, cr_last_cancel_all_at = None,
      cr_created_at = now, cr_updated_at = now\<rparr>"

definition control_row :: "control_db \<Rightarrow> string \<Rightarrow> datetime \<Rightarrow> control_record" where
  "control_row db account now =
     (case db_controls db account of None \<Rightarrow> fresh_control account now | Some r \<Rightarrow> r)"

definition put_control :: "control_db \<Rightarrow> string \<Rightarrow> control_record \<Rightarrow> control_db" where
  "put_control db account r = db\<lparr>db_controls := (db_controls db)(account \<mapsto> r)\<rparr>"

definition get_control :: "string \<Rightarrow> datetime \<Rightarrow> control_db \<Rightarrow> control_snapshot \<times> control_db" where
  "get_control account now db =
     (let r = control_row db account now
      in (control_snapshot_from_record r, put_control db account r))"

definition mutate_control ::
  "string \<Rightarrow> (control_record \<Rightarrow> control_record) \<Rightarrow> datetime \<Rightarrow> datetime \<Rightarrow> control_db
     \<Rightarrow> control_snapshot \<times> control_db" where
  "mutate_control account mutation created now db =
     (let r = (mutation (control_row db account created))\<lparr>cr_updated_at := now\<rparr>
      in (control_snapshot_from_record r, put_control db account r))"

definition set_strategy_enabled where
  "set_strategy_enabled account enabled =
     mutate_control account (\<lambda>r. r\<lparr>cr_strategy_enabled := enabled\<rparr>)"

definition set_kill_switch where
  "set_kill_switch account active = mutate_control account (\<lambda>r. r\<lparr>cr_kill_switch := active\<rparr>)"

definition set_protection_mode where
  "set_protection_mode account active =
     mutate_control account (\<lambda>r. r\<lparr>cr_protection_mode := active\<rparr>)"

definition mark_cancel_all_requested where
  "mark_cancel_all_requested account created now =
     mutate_control account
       (\<lambda>r. r\<lparr>cr_cancel_all_token := cr_cancel_all_token r + 1, cr_last_cancel_all_at := Some now\<rparr>)
       created now"

section \<open>The lease\<close>

definition read_lease :: "string \<Rightarrow> control_db \<Rightarrow> lease_snapshot" where
  "read_lease account db =
     (case db_leases db account of None \<Rightarrow> no_lease account | Some r \<Rightarrow> lease_snapshot_from_record r)"

definition put_lease :: "string \<Rightarrow> lease_record \<Rightarrow> control_db \<Rightarrow> control_db" where
  "put_lease account r db = db\<lparr>db_leases := (db_leases db)(account \<mapsto> r)\<rparr>"

definition grant :: "lease_record \<Rightarrow> string \<Rightarrow> lease_result" where
  "grant r message =
     \<lparr>la_accepted = True, la_snapshot = lease_snapshot_from_record r, la_message = message\<rparr>"

text \<open>
  _split_instance_id: an instance is named host:pid, split at the last colon.
\<close>

definition rpartition_colon :: "string \<Rightarrow> (string \<times> string) option" where
  "rpartition_colon s =
     (if CHR '':'' \<in> set s
      then Some (rev (tl (dropWhile (\<lambda>c. c \<noteq> CHR '':'') (rev s))),
                 rev (takeWhile (\<lambda>c. c \<noteq> CHR '':'') (rev s)))
      else None)"

definition split_instance_id :: "string option \<Rightarrow> string option \<times> int option" where
  "split_instance_id instance_id =
     (case instance_id of
        None \<Rightarrow> (None, None)
      | Some s \<Rightarrow> (case rpartition_colon s of
            None \<Rightarrow> (None, None)
          | Some (host, pid_text) \<Rightarrow> if host = [] then (None, None) else (Some host, py_int pid_text)))"

definition is_stale_local_owner :: "control_store \<Rightarrow> string option \<Rightarrow> bool" where
  "is_stale_local_owner st owner =
     (let (host, pid) = split_instance_id owner
      in host = Some (st_hostname st)
         \<and> (case pid of None \<Rightarrow> False | Some p \<Rightarrow> \<not> st_pid_exists st p))"

text \<open>The token a takeover stores: a missing or zero token counts as 0.\<close>

definition next_token :: "int option \<Rightarrow> int" where
  "next_token token = (case token of None \<Rightarrow> 1 | Some k \<Rightarrow> k + 1)"

text \<open>
  acquire_lease decides on the row it has read, and then writes its decision: None when it leaves
  the table alone.
\<close>

definition decide_acquire ::
  "control_store \<Rightarrow> string \<Rightarrow> string \<Rightarrow> int \<Rightarrow> datetime \<Rightarrow> lease_record option
     \<Rightarrow> lease_record option \<times> lease_result" where
  "decide_acquire st account instance_id ttl now row =
     (let expires = now + seconds ttl in
      case row of
        None \<Rightarrow>
          let r = \<lparr>lr_account = account, lr_owner = Some instance_id, lr_expires_at = Some expires,
                   lr_last_heartbeat_at = Some now, lr_fencing_token = Some 1, lr_updated_at = now\<rparr>
          in (Some r, grant r ''lease_acquired'')
      | Some r \<Rightarrow>
          let current = lease_snapshot_from_record r;
              renewed = r\<lparr>lr_expires_at := Some expires, lr_last_heartbeat_at := Some now,
                          lr_updated_at := now\<rparr>;
              taken = renewed\<lparr>lr_owner := Some instance_id,
                              lr_fencing_token := Some (next_token (lr_fencing_token r))\<rparr>
          in if ls_is_held_by current instance_id now then (Some renewed, grant renewed ''lease_renewed'')
             else if ls_expired current now \<or> ls_owner current = None
             then (Some taken, grant taken ''lease_taken_over'')
             else if is_stale_local_owner st (ls_owner current)
             then (Some taken, grant taken ''lease_taken_over_stale_local_owner'')
             else (None, \<lparr>la_accepted = False, la_snapshot = current,
                          la_message = ''lease_held_by_other_instance''\<rparr>))"

definition write_lease :: "string \<Rightarrow> lease_record option \<Rightarrow> control_db \<Rightarrow> control_db" where
  "write_lease account w db = (case w of None \<Rightarrow> db | Some r \<Rightarrow> put_lease account r db)"

definition acquire_lease ::
  "control_store \<Rightarrow> string \<Rightarrow> string \<Rightarrow> int \<Rightarrow> datetime \<Rightarrow> control_db \<Rightarrow> lease_result \<times> control_db" where
  "acquire_lease st account instance_id ttl now db =
     (let (w, res) = decide_acquire st account instance_id ttl now (db_leases db account)
      in (res, write_lease account w db))"

text \<open>heartbeat_lease and release_lease are conditional updates; the result says whether a row matched.\<close>

definition conditional_result :: "string \<Rightarrow> control_db \<Rightarrow> bool \<Rightarrow> string \<Rightarrow> string \<Rightarrow> lease_result" where
  "conditional_result account db matched yes no =
     \<lparr>la_accepted = matched, la_snapshot = read_lease account db,
      la_message = (if matched then yes else no)\<rparr>"

definition heartbeat_lease ::
  "string \<Rightarrow> string \<Rightarrow> int \<Rightarrow> int \<Rightarrow> datetime \<Rightarrow> control_db \<Rightarrow> lease_result \<times> control_db" where
  "heartbeat_lease account instance_id token ttl now db =
     (let (matched, db') = (case db_leases db account of
            None \<Rightarrow> (False, db)
          | Some r \<Rightarrow>
              if lr_owner r = Some instance_id \<and> lr_fencing_token r = Some token
                 \<and> (case lr_expires_at r of None \<Rightarrow> False | Some t \<Rightarrow> now < t)
              then (True, put_lease account
                      (r\<lparr>lr_expires_at := Some (now + seconds ttl), lr_last_heartbeat_at := Some now,
                         lr_updated_at := now\<rparr>) db)
              else (False, db))
      in (conditional_result account db' matched ''lease_heartbeat_accepted'' ''lease_heartbeat_rejected'', db'))"

definition release_lease ::
  "string \<Rightarrow> string \<Rightarrow> int option \<Rightarrow> datetime \<Rightarrow> control_db \<Rightarrow> lease_result \<times> control_db" where
  "release_lease account instance_id token now db =
     (let (matched, db') = (case db_leases db account of
            None \<Rightarrow> (False, db)
          | Some r \<Rightarrow>
              if lr_owner r = Some instance_id \<and> (token = None \<or> lr_fencing_token r = token)
              then (True, put_lease account
                      (r\<lparr>lr_owner := None, lr_expires_at := Some now, lr_last_heartbeat_at := Some now,
                         lr_updated_at := now\<rparr>) db)
              else (False, db))
      in (conditional_result account db' matched ''lease_released'' ''lease_release_skipped'', db'))"

definition validate_submission_lease ::
  "string \<Rightarrow> string \<Rightarrow> int \<Rightarrow> datetime \<Rightarrow> control_db \<Rightarrow> lease_result" where
  "validate_submission_lease account instance_id token now db =
     (let snapshot = read_lease account db;
          answer = (\<lambda>accepted message.
            \<lparr>la_accepted = accepted, la_snapshot = snapshot, la_message = message\<rparr>)
      in if ls_fencing_token snapshot \<noteq> Some token then answer False ''fencing_token_mismatch''
         else if \<not> ls_is_held_by snapshot instance_id now then answer False ''lease_not_held_by_instance''
         else answer True ''lease_valid_for_submission'')"

section \<open>Runtime status, symbol requests, research settings\<close>

definition store_status_record :: "(column_time \<Rightarrow> column_time) \<Rightarrow> status_record \<Rightarrow> status_record" where
  "store_status_record col r = r
     \<lparr>sr_latest_final_bar_time := map_option col (sr_latest_final_bar_time r),
      sr_last_strategy_decision_at := map_option col (sr_last_strategy_decision_at r),
      sr_updated_at := col (sr_updated_at r)\<rparr>"

definition save_runtime_status :: "runtime_status \<Rightarrow> control_db \<Rightarrow> (runtime_status \<times> control_db) res" where
  "save_runtime_status s db =
     (let r = (case db_statuses db (rs_account s) of
            None \<Rightarrow> new_status_record s
          | Some r \<Rightarrow> update_status_record s r)
      in res_map (\<lambda>saved.
           (saved, db\<lparr>db_statuses := (db_statuses db)(rs_account s \<mapsto> store_status_record (db_time db) r)\<rparr>))
           (runtime_status_from_record r))"

definition load_runtime_status :: "string \<Rightarrow> control_db \<Rightarrow> (runtime_status option \<times> control_db) res" where
  "load_runtime_status account db =
     (case db_statuses db account of
        None \<Rightarrow> Inr (None, db)
      | Some r \<Rightarrow> res_map (\<lambda>s. (Some s, db)) (runtime_status_from_record r))"

definition get_runtime_symbol_request ::
  "string \<Rightarrow> string \<Rightarrow> control_db \<Rightarrow> symbol_request option \<times> control_db" where
  "get_runtime_symbol_request account symbol db =
     (map_option symbol_request_from_record (db_symbol_requests db (account, upper (py_strip symbol))), db)"

definition save_runtime_symbol_request ::
  "string \<Rightarrow> string \<Rightarrow> datetime \<Rightarrow> control_db \<Rightarrow> (symbol_request \<times> control_db) res" where
  "save_runtime_symbol_request account symbol now db =
     (let symbol = upper (py_strip symbol)
      in if symbol = [] then Inl (ValueError ''symbol is required'')
         else
           let r = \<lparr>qr_account = account, qr_symbol = symbol, qr_requested_action = ''enable_runtime'',
                    qr_status = ''pending_reload'', qr_apply_mode = ''requires_reload'',
                    qr_requested_at = now, qr_updated_at = now\<rparr>
           in Inr (symbol_request_from_record r,
                   db\<lparr>db_symbol_requests := (db_symbol_requests db)((account, symbol) \<mapsto> r)\<rparr>))"

definition fresh_ai_settings :: "string \<Rightarrow> datetime \<Rightarrow> ai_settings_record" where
  "fresh_ai_settings account now =
     \<lparr>ar_account = account, ar_provider = ''openai_compatible'', ar_model = ''gpt-5.4'',
      ar_base_url = ''https://api.openai.com/v1'', ar_api_key = None, ar_created_at = now,
      ar_updated_at = now\<rparr>"

definition ai_settings_row :: "control_db \<Rightarrow> string \<Rightarrow> datetime \<Rightarrow> ai_settings_record" where
  "ai_settings_row db account now =
     (case db_ai_settings db account of None \<Rightarrow> fresh_ai_settings account now | Some r \<Rightarrow> r)"

definition get_research_ai_settings ::
  "string \<Rightarrow> datetime \<Rightarrow> control_db \<Rightarrow> ai_settings \<times> control_db" where
  "get_research_ai_settings account now db =
     (let r = ai_settings_row db account now
      in (ai_settings_from_record r, db\<lparr>db_ai_settings := (db_ai_settings db)(account \<mapsto> r)\<rparr>))"

definition save_research_ai_settings ::
  "string \<Rightarrow> string \<Rightarrow> string \<Rightarrow> string \<Rightarrow> string option \<Rightarrow> bool \<Rightarrow> bool \<Rightarrow> datetime \<Rightarrow> datetime
     \<Rightarrow> control_db \<Rightarrow> (ai_settings \<times> control_db) res" where
  "save_research_ai_settings account provider model base_url api_key replace_key clear_key created now db =
     res_bind (checks
       [(py_strip provider = [], ValueError ''provider is required''),
        (py_strip model = [], ValueError ''model is required''),
        (py_strip base_url = [], ValueError ''base_url is required'')]) (\<lambda>_.
     let r = ai_settings_row db account created;
         r = r\<lparr>ar_provider := py_strip provider, ar_model := py_strip model,
               ar_base_url := py_strip base_url,
               ar_api_key := (if clear_key then None
                 else if replace_key then map_option py_strip api_key else ar_api_key r),
               ar_updated_at := now\<rparr>
     in Inr (ai_settings_from_record r, db\<lparr>db_ai_settings := (db_ai_settings db)(account \<mapsto> r)\<rparr>))"

section \<open>The status view of the API\<close>

record status_view =
  sv_run_id :: "string option"
  sv_instance :: "string option"
  sv_account :: string
  sv_control_state :: string
  sv_strategy_enabled :: bool
  sv_kill_switch :: bool
  sv_protection_mode :: bool
  sv_ready :: bool
  sv_status :: string
  sv_health :: string
  sv_lifecycle :: string
  sv_market_data_fresh :: bool
  sv_market_state_available :: bool
  sv_latest_final_bar_time :: "string option"
  sv_trading_phase :: "string option"
  sv_last_strategy_id :: "string option"
  sv_last_strategy_decision_at :: "string option"
  sv_last_strategy_audit :: "json_object option"
  sv_lease_owner :: "string option"
  sv_lease_expires_at :: "string option"
  sv_last_heartbeat_at :: "string option"
  sv_fencing_token :: "int option"
  sv_last_cancel_all_at :: "string option"
  sv_cancel_all_token :: int
  sv_message :: "string option"
  sv_as_of :: string

text \<open>The age above which the latest final bar counts as stale.\<close>

definition stale_threshold :: "string \<Rightarrow> int \<Rightarrow> int res" where
  "stale_threshold timeframe threshold_seconds =
     res_map (\<lambda>d. max (d * 2) (seconds threshold_seconds)) (timeframe_to_timedelta timeframe)"

definition status_ready :: "lease_snapshot \<Rightarrow> runtime_status \<Rightarrow> bool \<Rightarrow> datetime \<Rightarrow> bool" where
  "status_ready lease s fresh as_of \<longleftrightarrow>
     rs_lifecycle s = ''running'' \<and> rs_health s = ''alive'' \<and> rs_readiness s = ''ready'' \<and> fresh
     \<and> rs_trading_phase s \<noteq> None
     \<and> ls_is_held_by lease (rs_instance s) as_of \<and> ls_fencing_token lease = rs_fencing_token s"

definition build_status_view ::
  "string \<Rightarrow> string \<Rightarrow> int \<Rightarrow> datetime \<Rightarrow> datetime \<Rightarrow> control_db \<Rightarrow> (status_view \<times> control_db) res" where
  "build_status_view account timeframe threshold_seconds as_of now db =
     (let (ctl, db') = get_control account now db;
          lease = read_lease account db' in
      res_bind (load_runtime_status account db') (\<lambda>(status, _).
      res_bind (case status of
                  None \<Rightarrow> Inr False
                | Some s \<Rightarrow> res_map (\<lambda>threshold. case rs_latest_final_bar_time s of
                      None \<Rightarrow> False | Some t \<Rightarrow> as_of - t \<le> threshold)
                    (stale_threshold timeframe threshold_seconds)) (\<lambda>fresh.
      let ready = (case status of None \<Rightarrow> False | Some s \<Rightarrow> status_ready lease s fresh as_of)
      in Inr (\<lparr>sv_run_id = map_option rs_run_id status, sv_instance = map_option rs_instance status,
               sv_account = account, sv_control_state = risk_control_value (ctl_control_state ctl),
               sv_strategy_enabled = ctl_strategy_enabled ctl, sv_kill_switch = ctl_kill_switch ctl,
               sv_protection_mode = ctl_protection_mode ctl, sv_ready = ready,
               sv_status = (if ready then ''ready'' else ''not_ready''),
               sv_health = (case status of None \<Rightarrow> ''unknown'' | Some s \<Rightarrow> rs_health s),
               sv_lifecycle = (case status of None \<Rightarrow> ''stopped'' | Some s \<Rightarrow> rs_lifecycle s),
               sv_market_data_fresh = fresh,
               sv_market_state_available = (Option.bind status rs_trading_phase \<noteq> None),
               sv_latest_final_bar_time = map_option isoformat (Option.bind status rs_latest_final_bar_time),
               sv_trading_phase = Option.bind status rs_trading_phase,
               sv_last_strategy_id = Option.bind status rs_last_strategy_id,
               sv_last_strategy_decision_at =
                 map_option isoformat (Option.bind status rs_last_strategy_decision_at),
               sv_last_strategy_audit = Option.bind status rs_last_strategy_audit,
               sv_lease_owner = ls_owner lease,
               sv_lease_expires_at = map_option isoformat (ls_expires_at lease),
               sv_last_heartbeat_at = map_option isoformat (ls_last_heartbeat_at lease),
               sv_fencing_token = ls_fencing_token lease,
               sv_last_cancel_all_at = map_option isoformat (ctl_last_cancel_all_at ctl),
               sv_cancel_all_token = ctl_cancel_all_token ctl,
               sv_message = Option.bind status rs_last_status_message,
               sv_as_of = isoformat as_of\<rparr>, db'))))"

section \<open>Single-active: the lease under any sequence of calls\<close>

text \<open>
  A call on the lease of one account, by any instance at any time.  An acquisition brings the store
  object of its process: its host and its view of the local processes.
\<close>

datatype lease_call =
    Acquire control_store string int datetime
  | Heartbeat string int int datetime
  | Release string "int option" datetime

fun lease_step :: "string \<Rightarrow> control_db \<Rightarrow> lease_call \<Rightarrow> lease_result \<times> control_db" where
  "lease_step account db (Acquire st i ttl now) = acquire_lease st account i ttl now db"
| "lease_step account db (Heartbeat i token ttl now) = heartbeat_lease account i token ttl now db"
| "lease_step account db (Release i token now) = release_lease account i token now db"

definition lease_run :: "string \<Rightarrow> control_db \<Rightarrow> lease_call list \<Rightarrow> control_db" where
  "lease_run account db calls = foldl (\<lambda>db c. snd (lease_step account db c)) db calls"

text \<open>The instance may submit orders under the token.\<close>

definition may_submit :: "control_db \<Rightarrow> string \<Rightarrow> string \<Rightarrow> int \<Rightarrow> datetime \<Rightarrow> bool" where
  "may_submit db account i token now \<longleftrightarrow> la_accepted (validate_submission_lease account i token now db)"

definition lease_row :: "control_db \<Rightarrow> string \<Rightarrow> string option \<times> int option" where
  "lease_row db account =
     (case db_leases db account of None \<Rightarrow> (None, None) | Some r \<Rightarrow> (lr_owner r, lr_fencing_token r))"

lemma may_submit_iff:
  "may_submit db account i token now \<longleftrightarrow>
     (\<exists>r t. db_leases db account = Some r \<and> lr_owner r = Some i \<and> lr_fencing_token r = Some token
        \<and> lr_expires_at r = Some t \<and> now < t)"
  by (auto simp: may_submit_def validate_submission_lease_def read_lease_def no_lease_def
      lease_snapshot_from_record_def ls_is_held_by_def Let_def split: option.splits)

lemma may_submit_row: "may_submit db account i token now \<Longrightarrow> lease_row db account = (Some i, Some token)"
  by (auto simp: may_submit_iff lease_row_def)

text \<open>
  What calls do to owner and token, once there is a token: they keep it and keep or drop the owner,
  or store a larger one.
\<close>

definition lease_moves :: "string option \<times> int option \<Rightarrow> string option \<times> int option \<Rightarrow> bool" where
  "lease_moves a b \<longleftrightarrow> (case (a, b) of ((i, k), (j, l)) \<Rightarrow>
     (case k of None \<Rightarrow> True
      | Some x \<Rightarrow> (case l of None \<Rightarrow> False | Some y \<Rightarrow> x < y \<or> x = y \<and> (j = i \<or> j = None))))"

lemma lease_step_moves: "lease_moves (lease_row db account) (lease_row (snd (lease_step account db c)) account)"
  by (cases c; cases "db_leases db account")
    (auto simp: lease_moves_def lease_row_def acquire_lease_def decide_acquire_def write_lease_def
      heartbeat_lease_def release_lease_def put_lease_def next_token_def Let_def split: option.splits)

lemma lease_moves_refl [simp]: "lease_moves a a"
  by (auto simp: lease_moves_def split: prod.splits option.splits)

lemma lease_moves_trans: "lease_moves a b \<Longrightarrow> lease_moves b c \<Longrightarrow> lease_moves a c"
  by (auto simp: lease_moves_def split: prod.splits option.splits)

lemma lease_run_append: "lease_run account db (xs @ ys) = lease_run account (lease_run account db xs) ys"
  by (simp add: lease_run_def)

lemma lease_run_moves: "lease_moves (lease_row db account) (lease_row (lease_run account db calls) account)"
proof (induction calls rule: rev_induct)
  case (snoc c calls)
  then show ?case
    using lease_step_moves lease_moves_trans by (simp add: lease_run_def)
qed (simp add: lease_run_def)

lemma may_submit_moves:
  assumes "may_submit db account i k t" "may_submit (lease_run account db calls) account j l t'"
  shows "k \<le> l \<and> (k = l \<longrightarrow> j = i)"
  using lease_run_moves [of db account calls] may_submit_row [OF assms(1)] may_submit_row [OF assms(2)]
  by (auto simp: lease_moves_def)

lemma superseded_stays_superseded:
  assumes "may_submit db account i k t" "may_submit (lease_run account db calls) account j l t'" "j \<noteq> i"
  shows "\<not> may_submit (lease_run account db (calls @ calls')) account i k t''"
proof
  assume "may_submit (lease_run account db (calls @ calls')) account i k t''"
  then show False
    using may_submit_moves [OF assms(1,2)] may_submit_moves [OF assms(2), of calls' i k t''] assms(3)
    by (auto simp: lease_run_append)
qed

definition sample_store :: control_store where
  "sample_store = \<lparr>st_schema_ready = True, st_hostname = ''trader-a'', st_pid_exists = (\<lambda>pid. pid = 4242)\<rparr>"

definition empty_control_db :: control_db where
  "empty_control_db =
     \<lparr>db_tables = control_table_names, db_time = (\<lambda>t. t), db_controls = (\<lambda>_. None), db_leases = (\<lambda>_. None),
      db_statuses = (\<lambda>_. None), db_ai_settings = (\<lambda>_. None), db_symbol_requests = (\<lambda>_. None)\<rparr>"

text \<open>
  C11.  Fencing.  Whatever instances acquire, renew and release the lease of an account, and whatever
  their clocks say, the tokens that allow a submission never decrease and a token belongs to one
  instance: once another instance may submit, the old token is refused for good.
\<close>

theorem lease_fencing:
  assumes "may_submit db account i k t" "may_submit (lease_run account db calls) account j l t'"
  shows "k \<le> l \<and> (k = l \<longrightarrow> j = i)
    \<and> (j \<noteq> i \<longrightarrow> \<not> may_submit (lease_run account db (calls @ calls')) account i k t'')"
  using may_submit_moves [OF assms] superseded_stays_superseded [OF assms] by blast

definition sample_lease_calls :: "lease_call list" where
  "sample_lease_calls = [Acquire sample_store ''trader-b:77'' 30 (seconds 60)]"

theorem lease_fencing_witness:
  "let db = lease_run ''acc'' empty_control_db [Acquire sample_store ''trader-a:4242'' 30 0]
   in may_submit db ''acc'' ''trader-a:4242'' 1 (seconds 10)
      \<and> may_submit (lease_run ''acc'' db sample_lease_calls) ''acc'' ''trader-b:77'' 2 (seconds 70)
      \<and> \<not> may_submit (lease_run ''acc'' db (sample_lease_calls @
             [Heartbeat ''trader-a:4242'' 1 30 (seconds 75)])) ''acc'' ''trader-a:4242'' 1 (seconds 80)"
proof -
  let ?db = "lease_run ''acc'' empty_control_db [Acquire sample_store ''trader-a:4242'' 30 0]"
  have a: "may_submit ?db ''acc'' ''trader-a:4242'' 1 (seconds 10)" by code_simp
  have b: "may_submit (lease_run ''acc'' ?db sample_lease_calls) ''acc'' ''trader-b:77'' 2 (seconds 70)"
    by code_simp
  show ?thesis
    using lease_fencing [OF a b, of "[Heartbeat ''trader-a:4242'' 1 30 (seconds 75)]" "seconds 80"] a b
    by (simp add: Let_def)
qed

text \<open>
  C31.  Acquiring the lease.  An acquisition succeeds exactly when no other instance holds an unexpired
  lease, or its owner is a dead process of the same host; it then lets the instance, and no other,
  submit under the token it returns until the time to live has passed.  A refusal changes nothing.
\<close>

theorem lease_acquisition:
  assumes "acquire_lease st account i ttl now db = (res, db')"
  shows "la_accepted res =
      (case db_leases db account of
         None \<Rightarrow> True
       | Some r \<Rightarrow> lr_owner r = None \<or> lr_owner r = Some i
           \<or> ls_expired (lease_snapshot_from_record r) now \<or> is_stale_local_owner st (lr_owner r))
    \<and> (if la_accepted res
       then \<forall>j l t. may_submit db' account j l t =
              (j = i \<and> Some l = ls_fencing_token (la_snapshot res) \<and> t < now + seconds ttl)
       else db' = db)"
  using assms
  by (cases "db_leases db account")
    (auto simp: acquire_lease_def decide_acquire_def write_lease_def put_lease_def may_submit_iff
      grant_def lease_snapshot_from_record_def ls_is_held_by_def ls_expired_def Let_def
      split: if_splits option.splits)

theorem lease_acquisition_witness:
  "la_accepted (fst (acquire_lease sample_store ''acc'' ''trader-b:77'' 30 0 empty_control_db))
   \<and> may_submit (snd (acquire_lease sample_store ''acc'' ''trader-b:77'' 30 0 empty_control_db))
       ''acc'' ''trader-b:77'' 1 (seconds 29)"
  using lease_acquisition [OF surjective_pairing, of sample_store "''acc''" "''trader-b:77''" 30 0 empty_control_db]
  by (auto simp: empty_control_db_def may_submit_iff acquire_lease_def decide_acquire_def write_lease_def
      put_lease_def grant_def seconds_def us_per_second_def Let_def)

text \<open>
  C32.  Concurrent takeovers.  acquire_lease reads the row and writes it without a condition: two
  instances that both read an expired lease before either has written are both granted the same
  token, each may submit under it once its own write is in, and the later write wins.
\<close>

theorem concurrent_takeovers_share_token:
  assumes "db_leases db account = Some r" "lr_expires_at r = Some e" "e \<le> now" "e \<le> now'"
    and "decide_acquire st account i ttl now (db_leases db account) = (w, res)"
    and "decide_acquire st' account j ttl' now' (db_leases db account) = (w', res')"
    and "i \<noteq> j" "0 < ttl" "0 < ttl'"
  shows "la_accepted res \<and> la_accepted res' \<and> la_snapshot res \<noteq> la_snapshot res'
    \<and> ls_fencing_token (la_snapshot res') = ls_fencing_token (la_snapshot res)
    \<and> (\<exists>k. may_submit (write_lease account w db) account i k now
        \<and> may_submit (write_lease account w' (write_lease account w db)) account j k now')"
  using assms
  by (auto simp: decide_acquire_def write_lease_def put_lease_def may_submit_iff grant_def
      lease_snapshot_from_record_def ls_is_held_by_def ls_expired_def seconds_def us_per_second_def Let_def
      split: if_splits option.splits)

definition expired_lease_db :: control_db where
  "expired_lease_db =
     lease_run ''acc'' empty_control_db [Acquire sample_store ''trader-a:4242'' 30 0]"

theorem concurrent_takeovers_share_token_witness:
  "let row = db_leases expired_lease_db ''acc'';
       res = snd (decide_acquire sample_store ''acc'' ''trader-b:77'' 30 (seconds 60) row);
       res' = snd (decide_acquire sample_store ''acc'' ''trader-c:78'' 30 (seconds 61) row)
   in la_accepted res \<and> la_accepted res'
      \<and> ls_fencing_token (la_snapshot res') = ls_fencing_token (la_snapshot res)"
proof -
  obtain r where r: "db_leases expired_lease_db ''acc'' = Some r" "lr_expires_at r = Some (seconds 30)"
    by (auto simp: expired_lease_db_def lease_run_def empty_control_db_def acquire_lease_def
        decide_acquire_def write_lease_def put_lease_def Let_def)
  show ?thesis
    using concurrent_takeovers_share_token [OF r, of "seconds 60" "seconds 61" sample_store "''trader-b:77''" 30
        _ _ sample_store "''trader-c:78''" 30, OF _ _ surjective_pairing surjective_pairing]
    by (auto simp: seconds_def us_per_second_def Let_def)
qed

section \<open>The runtime status\<close>

definition rows_keyed :: "control_db \<Rightarrow> bool" where
  "rows_keyed db \<longleftrightarrow> (\<forall>account r. db_statuses db account = Some r \<longrightarrow> sr_account r = account)"

text \<open>A timestamp column need not return what was assigned, but a value that denotes the same Shanghai time.\<close>

definition column_keeps_time :: "(column_time \<Rightarrow> column_time) \<Rightarrow> bool" where
  "column_keeps_time col \<longleftrightarrow> (\<forall>t. to_shanghai (col (Aware t shanghai_offset)) = t)"

lemma load_stored:
  "column_keeps_time col \<Longrightarrow> runtime_status_from_record (store_status_record col (new_status_record s)) = Inr s"
  by (cases "rs_latest_final_bar_time s"; cases "rs_last_strategy_decision_at s")
    (simp_all add: runtime_status_from_record_def store_status_record_def new_status_record_def
      shanghai_datetime_def column_keeps_time_def aware_shanghai_def)

lemma save_writes:
  assumes "rows_keyed db"
  shows "save_runtime_status s db = Inr (s, db\<lparr>db_statuses := (db_statuses db)
           (rs_account s \<mapsto> store_status_record (db_time db) (new_status_record s))\<rparr>)"
  using assms by (auto simp: save_runtime_status_def rows_keyed_def update_overwrites split: option.splits)

definition save_status :: "control_db \<Rightarrow> runtime_status \<Rightarrow> control_db res" where
  "save_status db s = res_map snd (save_runtime_status s db)"

lemma save_status_run:
  assumes "rows_keyed db" "column_keeps_time (db_time db)"
  shows "\<exists>db'. res_fold save_status db ss = Inr db' \<and> rows_keyed db' \<and> db_time db' = db_time db
    \<and> db' = db\<lparr>db_statuses := db_statuses db'\<rparr>
    \<and> (\<forall>account. load_runtime_status account db' =
         (case filter (\<lambda>s. rs_account s = account) ss of
            [] \<Rightarrow> res_map (\<lambda>(status, _). (status, db')) (load_runtime_status account db)
          | s # rest \<Rightarrow> Inr (Some (last (s # rest)), db')))"
  using assms
proof (induction ss rule: rev_induct)
  case Nil
  then show ?case
    by (auto simp: load_runtime_status_def res_bind_code split: option.splits sum.splits)
next
  case (snoc s ss)
  from snoc.IH [OF snoc.prems] obtain db1 where db1: "res_fold save_status db ss = Inr db1" "rows_keyed db1" "db_time db1 = db_time db"
      "db1 = db\<lparr>db_statuses := db_statuses db1\<rparr>"
      "\<And>account. load_runtime_status account db1 =
         (case filter (\<lambda>s. rs_account s = account) ss of
            [] \<Rightarrow> res_map (\<lambda>(status, _). (status, db1)) (load_runtime_status account db)
          | s # rest \<Rightarrow> Inr (Some (last (s # rest)), db1))"
    by auto
  let ?row = "store_status_record (db_time db) (new_status_record s)"
  define db' where "db' = db1\<lparr>db_statuses := (db_statuses db1)(rs_account s \<mapsto> ?row)\<rparr>"
  have run: "res_fold save_status db (ss @ [s]) = Inr db'"
    using db1(1,3) save_writes [OF db1(2)] by (simp add: res_fold_append save_status_def db'_def)
  have keyed: "rows_keyed db'"
    using db1(2) by (simp add: rows_keyed_def db'_def store_status_record_def new_status_record_def)
  have others: "load_runtime_status account db' = res_map (\<lambda>(status, _). (status, db')) (load_runtime_status account db1)"
    if "account \<noteq> rs_account s" for account
    using that by (simp add: load_runtime_status_def db'_def res_bind_code split: option.split sum.split)
  have here: "load_runtime_status (rs_account s) db' = Inr (Some s, db')"
    using load_stored [OF snoc.prems(2), of s] by (simp add: load_runtime_status_def db'_def)
  have loads: "load_runtime_status account db' =
      (case filter (\<lambda>s. rs_account s = account) (ss @ [s]) of
         [] \<Rightarrow> res_map (\<lambda>(status, _). (status, db')) (load_runtime_status account db)
       | s # rest \<Rightarrow> Inr (Some (last (s # rest)), db'))" for account
  proof (cases "rs_account s = account")
    case True
    then show ?thesis
      using here by (cases "filter (\<lambda>s. rs_account s = account) ss") auto
  next
    case False
    then show ?thesis
      using others [of account] db1(5) [of account]
      by (cases "filter (\<lambda>s. rs_account s = account) ss")
        (auto simp: res_bind_code split: sum.splits)
  qed
  obtain f where "db1 = db\<lparr>db_statuses := f\<rparr>"
    using db1(4) by blast
  then have same: "db_time db' = db_time db" "db' = db\<lparr>db_statuses := db_statuses db'\<rparr>"
    by (simp_all add: db'_def)
  show ?case
    by (intro exI [of _ db'] conjI allI run keyed same loads)
qed

text \<open>
  C33.  The runtime status survives the database.  However often the statuses of any accounts have been
  saved, and whatever the timestamp columns make of an offset as long as they keep the time it denotes,
  every save is accepted and returns its status; each account loads the status last saved for it,
  or what it had before; and no other table is touched.
\<close>

theorem runtime_status_roundtrip:
  assumes "rows_keyed db" "column_keeps_time (db_time db)"
  shows "\<exists>db'. res_fold save_status db ss = Inr db' \<and> db' = db\<lparr>db_statuses := db_statuses db'\<rparr>
    \<and> (\<forall>s. \<exists>db''. save_runtime_status s db' = Inr (s, db''))
    \<and> (\<forall>account. load_runtime_status account db' =
         (case filter (\<lambda>s. rs_account s = account) ss of
            [] \<Rightarrow> res_map (\<lambda>(status, _). (status, db')) (load_runtime_status account db)
          | s # rest \<Rightarrow> Inr (Some (last (s # rest)), db')))"
proof -
  from save_status_run [OF assms, of ss] obtain db' where run: "res_fold save_status db ss = Inr db'" "rows_keyed db'"
      "db' = db\<lparr>db_statuses := db_statuses db'\<rparr>"
    and loads: "\<forall>account. load_runtime_status account db' =
         (case filter (\<lambda>s. rs_account s = account) ss of
            [] \<Rightarrow> res_map (\<lambda>(status, _). (status, db')) (load_runtime_status account db)
          | s # rest \<Rightarrow> Inr (Some (last (s # rest)), db'))"
    by (elim exE conjE)
  have "\<forall>s. \<exists>db''. save_runtime_status s db' = Inr (s, db'')"
    using save_writes [OF run(2)] by auto
  with run(1,3) loads show ?thesis
    by (intro exI [of _ db'] conjI)
qed

text \<open>A column that drops the offset, and one that converts to UTC.\<close>

fun naive_column :: "column_time \<Rightarrow> column_time" where
  "naive_column (Naive wall) = Naive wall"
| "naive_column (Aware wall off) = Naive wall"

fun utc_column :: "column_time \<Rightarrow> column_time" where
  "utc_column (Naive wall) = Aware wall 0"
| "utc_column (Aware wall off) = Aware (wall - off) 0"

definition sample_status :: "string \<Rightarrow> int \<Rightarrow> runtime_status" where
  "sample_status account token =
     \<lparr>rs_account = account, rs_run_id = ''run'', rs_instance = ''trader-a:4242'', rs_lifecycle = ''running'',
      rs_health = ''alive'', rs_readiness = ''ready'', rs_control_state = CTRL_NORMAL, rs_strategy_enabled = True,
      rs_kill_switch = False, rs_protection_mode = False, rs_market_data_fresh = True,
      rs_latest_final_bar_time = Some (seconds 60), rs_trading_phase = Some ''CONTINUOUS_AUCTION'',
      rs_fencing_token = Some token, rs_last_status_message = None, rs_updated_at = seconds (60 + token),
      rs_last_strategy_id = None, rs_last_strategy_decision_at = None, rs_last_strategy_audit = None,
      rs_last_seen_bars = [], rs_last_strategy_bars = []\<rparr>"

definition sample_saves :: "runtime_status list" where
  "sample_saves = [sample_status ''acc'' 1, sample_status ''other'' 5, sample_status ''acc'' 2]"

theorem runtime_status_roundtrip_witness:
  "\<exists>db' db''. res_fold save_status (empty_control_db\<lparr>db_time := naive_column\<rparr>) sample_saves = Inr db'
     \<and> load_runtime_status ''acc'' db' = Inr (Some (sample_status ''acc'' 2), db')
     \<and> res_fold save_status (empty_control_db\<lparr>db_time := utc_column\<rparr>) sample_saves = Inr db''
     \<and> load_runtime_status ''acc'' db'' = Inr (Some (sample_status ''acc'' 2), db'')
     \<and> load_runtime_status ''third'' db'' = Inr (None, db'')"
proof -
  have empty: "rows_keyed (empty_control_db\<lparr>db_time := col\<rparr>)"
      "load_runtime_status account (empty_control_db\<lparr>db_time := col\<rparr>) = Inr (None, empty_control_db\<lparr>db_time := col\<rparr>)"
    for account col
    by (simp_all add: rows_keyed_def load_runtime_status_def empty_control_db_def)
  have acc: "filter (\<lambda>s. rs_account s = ''acc'') sample_saves = [sample_status ''acc'' 1, sample_status ''acc'' 2]"
      "filter (\<lambda>s. rs_account s = ''third'') sample_saves = []"
    by (simp_all add: sample_saves_def sample_status_def)
  have "column_keeps_time (db_time (empty_control_db\<lparr>db_time := naive_column\<rparr>))"
      "column_keeps_time (db_time (empty_control_db\<lparr>db_time := utc_column\<rparr>))"
    by (simp_all add: column_keeps_time_def)
  then obtain db' db'' where db: "res_fold save_status (empty_control_db\<lparr>db_time := naive_column\<rparr>) sample_saves = Inr db'"
      "res_fold save_status (empty_control_db\<lparr>db_time := utc_column\<rparr>) sample_saves = Inr db''"
    and loads: "\<And>account. load_runtime_status account db' =
         (case filter (\<lambda>s. rs_account s = account) sample_saves of
            [] \<Rightarrow> res_map (\<lambda>(status, _). (status, db'))
                   (load_runtime_status account (empty_control_db\<lparr>db_time := naive_column\<rparr>))
          | s # rest \<Rightarrow> Inr (Some (last (s # rest)), db'))"
      "\<And>account. load_runtime_status account db'' =
         (case filter (\<lambda>s. rs_account s = account) sample_saves of
            [] \<Rightarrow> res_map (\<lambda>(status, _). (status, db''))
                   (load_runtime_status account (empty_control_db\<lparr>db_time := utc_column\<rparr>))
          | s # rest \<Rightarrow> Inr (Some (last (s # rest)), db''))"
    using runtime_status_roundtrip [OF empty(1), of naive_column sample_saves]
      runtime_status_roundtrip [OF empty(1), of utc_column sample_saves] by blast
  have "load_runtime_status ''acc'' db' = Inr (Some (sample_status ''acc'' 2), db')"
      "load_runtime_status ''acc'' db'' = Inr (Some (sample_status ''acc'' 2), db'')"
      "load_runtime_status ''third'' db'' = Inr (None, db'')"
    by (simp_all add: loads acc empty(2))
  with db show ?thesis
    by blast
qed

end
