(* ===== verification/Runtime_State.thy ===== *)
theory Runtime_State
  imports Control_Store "HOL-Library.AList" "HOL-Library.List_Lexorder" "HOL-Library.Char_ord"
    "HOL-Library.Product_Lexorder"
begin

text \<open>
  The state of one trader process (src/apps/trader/runtime.py): lifecycle, health, readiness,
  operator controls, the pipeline that is bound and the single-active lease as last seen, with the
  payloads that health and readiness endpoints return.  The statuses of the source are string
  literals; here each is a datatype with the text of its literal.
\<close>

section \<open>Statuses\<close>

datatype lifecycle_status = LC_created | LC_starting | LC_running | LC_stopping | LC_stopped
datatype health_status = HS_booting | HS_alive | HS_draining | HS_stopped
datatype readiness_status = RD_not_ready | RD_ready | RD_draining
datatype integration_status = Reserved | Bound
datatype single_active_status = SA_unbound | SA_observed | SA_acquired | SA_lost | SA_rejected

fun lifecycle_text :: "lifecycle_status \<Rightarrow> string" where
  "lifecycle_text LC_created = ''created''"
| "lifecycle_text LC_starting = ''starting''"
| "lifecycle_text LC_running = ''running''"
| "lifecycle_text LC_stopping = ''stopping''"
| "lifecycle_text LC_stopped = ''stopped''"

fun health_text :: "health_status \<Rightarrow> string" where
  "health_text HS_booting = ''booting''"
| "health_text HS_alive = ''alive''"
| "health_text HS_draining = ''draining''"
| "health_text HS_stopped = ''stopped''"

fun readiness_text :: "readiness_status \<Rightarrow> string" where
  "readiness_text RD_not_ready = ''not_ready''"
| "readiness_text RD_ready = ''ready''"
| "readiness_text RD_draining = ''draining''"

fun integration_text :: "integration_status \<Rightarrow> string" where
  "integration_text Reserved = ''reserved''"
| "integration_text Bound = ''bound''"

fun single_active_text :: "single_active_status \<Rightarrow> string" where
  "single_active_text SA_unbound = ''unbound''"
| "single_active_text SA_observed = ''observed''"
| "single_active_text SA_acquired = ''acquired''"
| "single_active_text SA_lost = ''lost''"
| "single_active_text SA_rejected = ''rejected''"

fun phase_text :: "trading_phase \<Rightarrow> string" where
  "phase_text PRE_OPEN = ''PRE_OPEN''"
| "phase_text CONTINUOUS_AUCTION = ''CONTINUOUS_AUCTION''"
| "phase_text MIDDAY_BREAK = ''MIDDAY_BREAK''"
| "phase_text PHASE_CLOSED = ''CLOSED''"
| "phase_text PHASE_UNKNOWN = ''UNKNOWN''"

fun source_kind_text :: "bar_source_kind \<Rightarrow> string" where
  "source_kind_text Historical = ''historical''"
| "source_kind_text Realtime = ''realtime''"

definition json_text :: "string option \<Rightarrow> json" where
  "json_text x = (case x of None \<Rightarrow> JNull | Some s \<Rightarrow> JStr s)"

definition json_time :: "datetime option \<Rightarrow> json" where
  "json_time x = json_text (map_option isoformat x)"

definition json_int :: "int option \<Rightarrow> json" where
  "json_int x = (case x of None \<Rightarrow> JNull | Some n \<Rightarrow> JInt n)"

section \<open>Pipeline and lease state\<close>

record integration_point =
  ip_status :: integration_status
  ip_handler_name :: "string option"

definition reserved_point :: integration_point where
  "reserved_point = \<lparr>ip_status = Reserved, ip_handler_name = None\<rparr>"

definition bind_point :: "string \<Rightarrow> integration_point \<Rightarrow> integration_point" where
  "bind_point handler p = p\<lparr>ip_status := Bound, ip_handler_name := Some handler\<rparr>"

definition point_snapshot :: "integration_point \<Rightarrow> json_object" where
  "point_snapshot p =
     [(''status'', JStr (integration_text (ip_status p))), (''handler_name'', json_text (ip_handler_name p))]"

record single_active =
  sa_status :: single_active_status
  sa_owner :: "string option"
  sa_fencing_token :: "int option"
  sa_lease_expires_at :: "datetime option"
  sa_last_heartbeat_at :: "datetime option"

definition sa_observe ::
  "string \<Rightarrow> int \<Rightarrow> datetime \<Rightarrow> datetime \<Rightarrow> single_active_status \<Rightarrow> single_active \<Rightarrow> single_active" where
  "sa_observe owner token expires heartbeat status s =
     s\<lparr>sa_status := status, sa_owner := Some owner, sa_fencing_token := Some token,
       sa_lease_expires_at := Some expires, sa_last_heartbeat_at := Some heartbeat\<rparr>"

definition sa_mark_lost :: "string option \<Rightarrow> single_active \<Rightarrow> single_active" where
  "sa_mark_lost owner s = s\<lparr>sa_status := SA_lost, sa_owner := owner\<rparr>"

definition sa_mark_rejected ::
  "string option \<Rightarrow> int option \<Rightarrow> datetime option \<Rightarrow> datetime option \<Rightarrow> single_active \<Rightarrow> single_active" where
  "sa_mark_rejected owner token expires heartbeat s =
     s\<lparr>sa_status := SA_rejected, sa_owner := owner, sa_fencing_token := token,
       sa_lease_expires_at := expires, sa_last_heartbeat_at := heartbeat\<rparr>"

definition sa_snapshot :: "single_active \<Rightarrow> json_object" where
  "sa_snapshot s =
     [(''status'', JStr (single_active_text (sa_status s))), (''owner_instance_id'', json_text (sa_owner s)),
      (''fencing_token'', json_int (sa_fencing_token s)),
      (''lease_expires_at'', json_time (sa_lease_expires_at s)),
      (''last_heartbeat_at'', json_time (sa_last_heartbeat_at s))]"

record pipeline_state =
  pl_strategy :: integration_point
  pl_risk :: integration_point
  pl_oms :: integration_point

definition pipeline_snapshot :: "pipeline_state \<Rightarrow> json_object" where
  "pipeline_snapshot p =
     [(''strategy'', JDict (point_snapshot (pl_strategy p))), (''risk'', JDict (point_snapshot (pl_risk p))),
      (''oms'', JDict (point_snapshot (pl_oms p)))]"

section \<open>The runtime state\<close>

record runtime_state =
  rt_run_id :: string
  rt_instance :: string
  rt_account :: "string option"
  rt_status :: lifecycle_status
  rt_health :: health_status
  rt_readiness :: readiness_status
  rt_readiness_reason :: "string option"
  rt_control_state :: risk_control_state
  rt_strategy_enabled :: bool
  rt_kill_switch :: bool
  rt_protection_mode :: bool
  rt_market_data_fresh :: bool
  rt_latest_final_bar_time :: "datetime option"
  rt_trading_phase :: "string option"
  rt_started_at :: "datetime option"
  rt_ready_at :: "datetime option"
  rt_stopping_at :: "datetime option"
  rt_stopped_at :: "datetime option"
  rt_stop_reason :: "string option"
  rt_last_event_at :: "datetime option"
  rt_last_event_type :: "string option"
  rt_last_bar_key :: "string option"
  rt_last_strategy_bar_key :: "string option"
  rt_last_strategy_decision_at :: "datetime option"
  rt_last_strategy_id :: "string option"
  rt_last_input_snapshot :: "json_object option"
  rt_last_signal_snapshot :: "json_object option"
  rt_last_reason_summary :: "string option"
  rt_last_strategy_audit :: "json_object option"
  rt_last_ignored_bar_key :: "string option"
  rt_last_ignored_bar_reason :: "string option"
  rt_last_seen_bars :: "(string \<times> json_object) list"
  rt_last_strategy_bars :: "(string \<times> json_object) list"
  rt_pipeline :: pipeline_state
  rt_single_active :: single_active

definition new_runtime_state :: "string \<Rightarrow> string \<Rightarrow> runtime_state" where
  "new_runtime_state run_id instance_id =
     \<lparr>rt_run_id = run_id, rt_instance = instance_id, rt_account = None, rt_status = LC_created,
      rt_health = HS_booting, rt_readiness = RD_not_ready, rt_readiness_reason = None,
      rt_control_state = CTRL_NORMAL, rt_strategy_enabled = True, rt_kill_switch = False,
      rt_protection_mode = False, rt_market_data_fresh = False, rt_latest_final_bar_time = None,
      rt_trading_phase = None, rt_started_at = None, rt_ready_at = None, rt_stopping_at = None,
      rt_stopped_at = None, rt_stop_reason = None, rt_last_event_at = None, rt_last_event_type = None,
      rt_last_bar_key = None, rt_last_strategy_bar_key = None, rt_last_strategy_decision_at = None,
      rt_last_strategy_id = None, rt_last_input_snapshot = None, rt_last_signal_snapshot = None,
      rt_last_reason_summary = None, rt_last_strategy_audit = None, rt_last_ignored_bar_key = None,
      rt_last_ignored_bar_reason = None, rt_last_seen_bars = [], rt_last_strategy_bars = [],
      rt_pipeline = \<lparr>pl_strategy = reserved_point, pl_risk = reserved_point, pl_oms = reserved_point\<rparr>,
      rt_single_active = \<lparr>sa_status = SA_unbound, sa_owner = None, sa_fencing_token = None,
                          sa_lease_expires_at = None, sa_last_heartbeat_at = None\<rparr>\<rparr>"

section \<open>Lifecycle and readiness\<close>

definition mark_starting :: "datetime \<Rightarrow> runtime_state \<Rightarrow> runtime_state" where
  "mark_starting now s =
     s\<lparr>rt_status := LC_starting, rt_health := HS_booting, rt_readiness := RD_not_ready,
       rt_readiness_reason := Some ''starting'', rt_started_at := Some now, rt_ready_at := None,
       rt_stop_reason := None, rt_stopping_at := None, rt_stopped_at := None\<rparr>"

definition mark_running :: "datetime \<Rightarrow> bool \<Rightarrow> runtime_state \<Rightarrow> runtime_state" where
  "mark_running now ready s =
     (let s = s\<lparr>rt_status := LC_running, rt_health := HS_alive\<rparr>
      in if ready
         then s\<lparr>rt_readiness := RD_ready, rt_readiness_reason := None, rt_ready_at := Some now\<rparr>
         else s\<lparr>rt_readiness := RD_not_ready,
                rt_readiness_reason := Some ''runtime_started_waiting_for_order_submission_readiness'',
                rt_ready_at := None\<rparr>)"

definition mark_stopping :: "datetime \<Rightarrow> string \<Rightarrow> runtime_state \<Rightarrow> runtime_state" where
  "mark_stopping now reason s =
     s\<lparr>rt_status := LC_stopping, rt_health := HS_draining, rt_readiness := RD_draining,
       rt_readiness_reason := Some reason, rt_stop_reason := Some reason, rt_stopping_at := Some now\<rparr>"

definition mark_stopped :: "datetime \<Rightarrow> string \<Rightarrow> runtime_state \<Rightarrow> runtime_state" where
  "mark_stopped now reason s =
     s\<lparr>rt_status := LC_stopped, rt_health := HS_stopped, rt_readiness := RD_not_ready,
       rt_readiness_reason := Some reason, rt_stop_reason := Some reason, rt_stopped_at := Some now\<rparr>"

definition set_readiness :: "datetime \<Rightarrow> bool \<Rightarrow> string option \<Rightarrow> runtime_state \<Rightarrow> runtime_state" where
  "set_readiness now ready reason s =
     (if ready
      then s\<lparr>rt_readiness := RD_ready, rt_readiness_reason := None,
             rt_ready_at := (case rt_ready_at s of None \<Rightarrow> Some now | Some t \<Rightarrow> Some t)\<rparr>
      else s\<lparr>rt_readiness := RD_not_ready, rt_readiness_reason := reason, rt_ready_at := None\<rparr>)"

definition apply_control_state :: "bool \<Rightarrow> bool \<Rightarrow> bool \<Rightarrow> runtime_state \<Rightarrow> runtime_state" where
  "apply_control_state enabled kill protection s =
     s\<lparr>rt_strategy_enabled := enabled, rt_kill_switch := kill, rt_protection_mode := protection,
       rt_control_state := resolve_risk_control_state enabled kill protection\<rparr>"

definition update_market_observation ::
  "datetime option \<Rightarrow> string option \<Rightarrow> bool \<Rightarrow> runtime_state \<Rightarrow> runtime_state" where
  "update_market_observation latest phase fresh s =
     s\<lparr>rt_latest_final_bar_time := latest, rt_trading_phase := phase, rt_market_data_fresh := fresh\<rparr>"

section \<open>What the trader last did\<close>

text \<open>
  The JSON image of a bar.  float is the conversion of a decimal to a binary floating-point number.
\<close>

definition bar_audit_snapshot :: "(rat \<Rightarrow> rat) \<Rightarrow> bar_event \<Rightarrow> json_object" where
  "bar_audit_snapshot float e =
     [(''stream_key'', JStr (build_bar_stream_key (be_exchange e) (be_symbol e) (be_timeframe e))),
      (''bar_key'', JStr (be_bar_key e)), (''exchange'', JStr (be_exchange e)),
      (''symbol'', JStr (be_symbol e)), (''timeframe'', JStr (be_timeframe e)),
      (''bar_start_time'', JStr (isoformat (be_start e))),
      (''bar_end_time'', JStr (isoformat (be_end e))),
      (''event_time'', JStr (isoformat (be_event_time e))),
      (''ingest_time'', JStr (isoformat (be_ingest e))),
      (''open'', JFloat (float (be_open e))), (''high'', JFloat (float (be_high e))),
      (''low'', JFloat (float (be_low e))), (''close'', JFloat (float (be_close e))),
      (''volume'', JFloat (float (be_volume e))),
      (''quote_volume'', case be_quote_volume e of None \<Rightarrow> JNull | Some v \<Rightarrow> JFloat (float v)),
      (''trade_count'', json_int (be_trade_count e)), (''closed'', JBool (be_closed e)),
      (''final'', JBool (be_final e)),
      (''source_kind'', json_text (map_option source_kind_text (be_source_kind e))),
      (''trade_date'', json_text (map_option (\<lambda>m. date_isoformat (ms_trade_date m)) (be_market_state e))),
      (''trading_phase'', json_text (map_option (\<lambda>m. phase_text (ms_phase m)) (be_market_state e)))]"

definition record_event :: "datetime \<Rightarrow> string \<Rightarrow> string option \<Rightarrow> runtime_state \<Rightarrow> runtime_state" where
  "record_event now event_type bar_key s =
     s\<lparr>rt_last_event_at := Some now, rt_last_event_type := Some event_type,
       rt_last_bar_key := (case bar_key of None \<Rightarrow> rt_last_bar_key s | Some k \<Rightarrow> Some k)\<rparr>"

definition record_seen_bar :: "(rat \<Rightarrow> rat) \<Rightarrow> bar_event \<Rightarrow> runtime_state \<Rightarrow> runtime_state" where
  "record_seen_bar float e s =
     s\<lparr>rt_last_seen_bars :=
         AList.update (build_bar_stream_key (be_exchange e) (be_symbol e) (be_timeframe e))
           (bar_audit_snapshot float e) (rt_last_seen_bars s)\<rparr>"

definition record_strategy_bar :: "(rat \<Rightarrow> rat) \<Rightarrow> bar_event \<Rightarrow> runtime_state \<Rightarrow> runtime_state" where
  "record_strategy_bar float e s =
     s\<lparr>rt_last_strategy_bar_key := Some (be_bar_key e),
       rt_last_strategy_bars :=
         AList.update (build_bar_stream_key (be_exchange e) (be_symbol e) (be_timeframe e))
           (bar_audit_snapshot float e) (rt_last_strategy_bars s)\<rparr>"

definition record_strategy_decision ::
  "string \<Rightarrow> datetime \<Rightarrow> json_object \<Rightarrow> json_object \<Rightarrow> string option \<Rightarrow> json_object option
     \<Rightarrow> runtime_state \<Rightarrow> runtime_state" where
  "record_strategy_decision strategy_id decision_at input signal reason audit s =
     s\<lparr>rt_last_strategy_decision_at := Some decision_at, rt_last_strategy_id := Some strategy_id,
       rt_last_input_snapshot := Some input, rt_last_signal_snapshot := Some signal,
       rt_last_reason_summary := reason, rt_last_strategy_audit := audit\<rparr>"

definition record_ignored_bar :: "bar_event \<Rightarrow> string \<Rightarrow> runtime_state \<Rightarrow> runtime_state" where
  "record_ignored_bar e reason s =
     s\<lparr>rt_last_ignored_bar_key := Some (be_bar_key e), rt_last_ignored_bar_reason := Some reason\<rparr>"

section \<open>Payloads\<close>

definition health_payload :: "int \<Rightarrow> runtime_state \<Rightarrow> json_object" where
  "health_payload pending s =
     [(''status'', JStr (health_text (rt_health s))), (''trader_run_id'', JStr (rt_run_id s)),
      (''instance_id'', JStr (rt_instance s)), (''account_id'', json_text (rt_account s)),
      (''lifecycle'', JStr (lifecycle_text (rt_status s))), (''event_bus_pending_count'', JInt pending),
      (''last_event_at'', json_time (rt_last_event_at s))]"

definition control_payload :: "runtime_state \<Rightarrow> json_object" where
  "control_payload s =
     [(''control_state'', JStr (risk_control_value (rt_control_state s))),
      (''strategy_enabled'', JBool (rt_strategy_enabled s)), (''kill_switch_active'', JBool (rt_kill_switch s)),
      (''protection_mode_active'', JBool (rt_protection_mode s)),
      (''market_data_fresh'', JBool (rt_market_data_fresh s)),
      (''market_state_available'', JBool (rt_trading_phase s \<noteq> None)),
      (''latest_final_bar_time'', json_time (rt_latest_final_bar_time s)),
      (''current_trading_phase'', json_text (rt_trading_phase s))]"

definition strategy_payload :: "runtime_state \<Rightarrow> json_object" where
  "strategy_payload s =
     [(''last_strategy_bar_key'', json_text (rt_last_strategy_bar_key s)),
      (''last_strategy_decision_at'', json_time (rt_last_strategy_decision_at s)),
      (''last_strategy_id'', json_text (rt_last_strategy_id s)),
      (''last_strategy_input_snapshot'', object_json (rt_last_input_snapshot s)),
      (''last_strategy_signal_snapshot'', object_json (rt_last_signal_snapshot s)),
      (''last_strategy_reason_summary'', json_text (rt_last_reason_summary s)),
      (''last_strategy_audit'', object_json (rt_last_strategy_audit s))]"

definition readiness_payload :: "int \<Rightarrow> runtime_state \<Rightarrow> json_object" where
  "readiness_payload pending s =
     [(''status'', JStr (readiness_text (rt_readiness s))), (''trader_run_id'', JStr (rt_run_id s)),
      (''instance_id'', JStr (rt_instance s)), (''account_id'', json_text (rt_account s)),
      (''event_bus_pending_count'', JInt pending)] @ control_payload s @
     [(''reason'', json_text (rt_readiness_reason s)),
      (''pipeline'', JDict (pipeline_snapshot (rt_pipeline s))),
      (''single_active'', JDict (sa_snapshot (rt_single_active s)))] @ strategy_payload s @
     [(''last_ignored_bar_reason'', json_text (rt_last_ignored_bar_reason s))]"

text \<open>The images of the last bars, latest event first, and by stream where the event times agree.\<close>

definition audit_text :: "string \<Rightarrow> json_object \<Rightarrow> string" where
  "audit_text k item = (case map_of item k of Some (JStr s) \<Rightarrow> s | _ \<Rightarrow> [])"

definition sorted_bar_audits :: "(string \<times> json_object) list \<Rightarrow> json_object list" where
  "sorted_bar_audits bars =
     rev (sort_key (\<lambda>item. (audit_text ''event_time'' item, audit_text ''stream_key'' item)) (rev (map snd bars)))"

definition runtime_snapshot :: "int \<Rightarrow> runtime_state \<Rightarrow> json_object" where
  "runtime_snapshot pending s =
     [(''trader_run_id'', JStr (rt_run_id s)), (''instance_id'', JStr (rt_instance s)),
      (''account_id'', json_text (rt_account s)), (''status'', JStr (lifecycle_text (rt_status s))),
      (''health_status'', JStr (health_text (rt_health s))),
      (''readiness_status'', JStr (readiness_text (rt_readiness s))),
      (''readiness_reason'', json_text (rt_readiness_reason s))] @ control_payload s @
     [(''started_at'', json_time (rt_started_at s)), (''ready_at'', json_time (rt_ready_at s)),
      (''stopping_at'', json_time (rt_stopping_at s)), (''stopped_at'', json_time (rt_stopped_at s)),
      (''stop_reason'', json_text (rt_stop_reason s)), (''last_event_at'', json_time (rt_last_event_at s)),
      (''last_event_type'', json_text (rt_last_event_type s)),
      (''last_bar_key'', json_text (rt_last_bar_key s))] @ strategy_payload s @
     [(''last_ignored_bar_key'', json_text (rt_last_ignored_bar_key s)),
      (''last_ignored_bar_reason'', json_text (rt_last_ignored_bar_reason s)),
      (''last_seen_bars'', JList (map JDict (sorted_bar_audits (rt_last_seen_bars s)))),
      (''last_strategy_bars'', JList (map JDict (sorted_bar_audits (rt_last_strategy_bars s)))),
      (''event_bus_pending_count'', JInt pending), (''pipeline'', JDict (pipeline_snapshot (rt_pipeline s))),
      (''single_active'', JDict (sa_snapshot (rt_single_active s)))]"

end
