(* ===== verification/Effects.thy ===== *)
theory Effects
  imports Prelude
begin

text \<open>
  Actions on a state that may raise: what the services of src/apps do when they write to a
  database, keep fields of their own and call each other.  An action maps the state to a result and
  the state afterwards; unlike a failing step of Prelude, an action that raises keeps the changes
  made before it raised.
\<close>

type_synonym ('s, 'a) act = "'s \<Rightarrow> 'a res \<times> 's"

definition pass :: "'a \<Rightarrow> ('s, 'a) act" where
  "pass x = (\<lambda>s. (Inr x, s))"

definition throw :: "fault \<Rightarrow> ('s, 'a) act" where
  "throw e = (\<lambda>s. (Inl e, s))"

definition bind_act :: "('s, 'a) act \<Rightarrow> ('a \<Rightarrow> ('s, 'b) act) \<Rightarrow> ('s, 'b) act" where
  "bind_act m k = (\<lambda>s. case m s of (Inl e, s') \<Rightarrow> (Inl e, s') | (Inr x, s') \<Rightarrow> k x s')"

definition reading :: "('s \<Rightarrow> 'a) \<Rightarrow> ('s, 'a) act" where
  "reading f = (\<lambda>s. (Inr (f s), s))"

definition change :: "('s \<Rightarrow> 's) \<Rightarrow> ('s, unit) act" where
  "change f = (\<lambda>s. (Inr (), f s))"

definition from_res :: "'a res \<Rightarrow> ('s, 'a) act" where
  "from_res r = (\<lambda>s. (r, s))"

text \<open>try: ... except Exception as exc: handler(exc)\<close>

definition try_except :: "('s, 'a) act \<Rightarrow> (fault \<Rightarrow> ('s, 'a) act) \<Rightarrow> ('s, 'a) act" where
  "try_except m h = (\<lambda>s. case m s of (Inl e, s') \<Rightarrow> h e s' | (Inr x, s') \<Rightarrow> (Inr x, s'))"

abbreviation act_when :: "bool \<Rightarrow> ('s, unit) act \<Rightarrow> ('s, unit) act" where
  "act_when b m \<equiv> (if b then m else pass ())"

abbreviation act_seq :: "('s, 'a) act \<Rightarrow> ('s, 'b) act \<Rightarrow> ('s, 'b) act" where
  "act_seq m k \<equiv> bind_act m (\<lambda>_. k)"

text \<open>An action once for every element of a list, left to right.\<close>

fun act_fold :: "('b \<Rightarrow> 'a \<Rightarrow> ('s, 'b) act) \<Rightarrow> 'b \<Rightarrow> 'a list \<Rightarrow> ('s, 'b) act" where
  "act_fold f b [] = pass b"
| "act_fold f b (x # xs) = bind_act (f b x) (\<lambda>c. act_fold f c xs)"

named_theorems act_simps \<open>unfoldings of actions\<close>

lemmas act_defs [act_simps] =
  pass_def throw_def bind_act_def reading_def change_def from_res_def try_except_def

lemma bind_act_ok [simp]:
  "bind_act m k s = (Inr y, t) \<longleftrightarrow> (\<exists>x u. m s = (Inr x, u) \<and> k x u = (Inr y, t))"
  by (auto simp: bind_act_def split: prod.split sum.split)

lemma bind_act_fault:
  "bind_act m k s = (Inl e, t) \<longleftrightarrow>
     m s = (Inl e, t) \<or> (\<exists>x u. m s = (Inr x, u) \<and> k x u = (Inl e, t))"
  by (auto simp: bind_act_def split: prod.split sum.split)

lemma pass_apply [simp]: "pass x s = (Inr x, s)"
  by (simp add: pass_def)

lemma throw_apply [simp]: "throw e s = (Inl e, s)"
  by (simp add: throw_def)

lemma reading_apply [simp]: "reading f s = (Inr (f s), s)"
  by (simp add: reading_def)

lemma change_apply [simp]: "change f s = (Inr (), f s)"
  by (simp add: change_def)

lemma from_res_apply [simp]: "from_res r s = (r, s)"
  by (simp add: from_res_def)

lemma bind_act_step: "m s = (Inr x, u) \<Longrightarrow> bind_act m k s = k x u"
  by (simp add: bind_act_def)

text \<open>What holds of every state an action passes through, whether it returns or raises.\<close>

definition preserves :: "('s \<Rightarrow> bool) \<Rightarrow> ('s, 'a) act \<Rightarrow> bool" where
  "preserves P m \<longleftrightarrow> (\<forall>s. P s \<longrightarrow> P (snd (m s)))"

lemma preserves_bind:
  "preserves P m \<Longrightarrow> (\<And>x. preserves P (k x)) \<Longrightarrow> preserves P (bind_act m k)"
  by (auto simp: preserves_def bind_act_def split: prod.split sum.split)

lemma preserves_try:
  "preserves P m \<Longrightarrow> (\<And>e. preserves P (h e)) \<Longrightarrow> preserves P (try_except m h)"
  by (auto simp: preserves_def try_except_def split: prod.split sum.split)

lemma preserves_simple [simp]:
  "preserves P (pass x)" "preserves P (throw e)" "preserves P (reading f)" "preserves P (from_res r)"
  by (auto simp: preserves_def)

lemma preserves_change: "(\<And>s. P s \<Longrightarrow> P (f s)) \<Longrightarrow> preserves P (change f)"
  by (auto simp: preserves_def)

lemma preserves_fold: "(\<And>b x. x \<in> set xs \<Longrightarrow> preserves P (f b x)) \<Longrightarrow> preserves P (act_fold f b xs)"
  by (induction xs arbitrary: b) (auto intro: preserves_bind)

lemma preservesD: "preserves P m \<Longrightarrow> P s \<Longrightarrow> m s = (r, t) \<Longrightarrow> P t"
  by (force simp: preserves_def)

section \<open>Relations between the states of an action\<close>

text \<open>
  A relation that every action of a component keeps between its first and its last state, whether it
  returns or raises: what the component promises of a whole handler follows from its single writes.
\<close>

locale step_relation =
  fixes R :: "'s \<Rightarrow> 's \<Rightarrow> bool"
  assumes refl: "R s s"
    and trans: "R s t \<Longrightarrow> R t u \<Longrightarrow> R s u"
begin

definition steps :: "('s, 'a) act \<Rightarrow> bool" where
  "steps m \<longleftrightarrow> (\<forall>s. R s (snd (m s)))"

lemma stepsI: "(\<And>s r t. m s = (r, t) \<Longrightarrow> R s t) \<Longrightarrow> steps m"
  by (metis prod.collapse steps_def)

lemma stepsD: "steps m \<Longrightarrow> m s = (r, t) \<Longrightarrow> R s t"
  by (metis snd_conv steps_def)

lemma steps_simple: "steps (pass x)" "steps (throw e)" "steps (reading f)" "steps (from_res r)"
  by (simp_all add: steps_def refl)

lemma steps_change: "(\<And>s. R s (f s)) \<Longrightarrow> steps (change f)"
  by (simp add: steps_def)

lemma steps_bind:
  assumes "steps m" "\<And>x. steps (k x)"
  shows "steps (bind_act m k)"
proof (rule stepsI)
  fix s r t
  assume b: "bind_act m k s = (r, t)"
  obtain r1 s1 where m: "m s = (r1, s1)" by fastforce
  show "R s t"
    using b m stepsD [OF assms(1) m] stepsD [OF assms(2)] trans
    by (cases r1) (auto simp: bind_act_def)
qed

lemma steps_try:
  assumes "steps m" "\<And>e. steps (h e)"
  shows "steps (try_except m h)"
proof (rule stepsI)
  fix s r t
  assume b: "try_except m h s = (r, t)"
  obtain r1 s1 where m: "m s = (r1, s1)" by fastforce
  show "R s t"
    using b m stepsD [OF assms(1) m] stepsD [OF assms(2)] trans
    by (cases r1) (auto simp: try_except_def)
qed

lemma steps_fold: "(\<And>b x. steps (f b x)) \<Longrightarrow> steps (act_fold f b xs)"
  by (induction xs arbitrary: b) (auto intro: steps_simple steps_bind)

lemma steps_if: "steps m \<Longrightarrow> steps k \<Longrightarrow> steps (if c then m else k)"
  by simp

lemma steps_option: "steps m \<Longrightarrow> (\<And>x. steps (k x)) \<Longrightarrow> steps (case opt of None \<Rightarrow> m | Some x \<Rightarrow> k x)"
  by (cases opt) simp_all

lemma steps_pair: "(\<And>x y. steps (k x y)) \<Longrightarrow> steps (case p of (x, y) \<Rightarrow> k x y)"
  by (cases p) simp

lemma steps_let: "(\<And>x. steps (k x)) \<Longrightarrow> steps (Let v k)"
  by simp

lemmas steps_rules = steps_simple steps_bind steps_try steps_fold steps_if steps_option steps_pair steps_let

end

end
