(* ===== verification/Control_Runtime.thy ===== *)
theory Control_Runtime
  imports Runtime_State Effects
begin

text \<open>
  The control loop of a trader process (TraderControlRuntime of src/apps/trader/control_plane.py): it
  acquires the lease when the trader starts, renews it with heartbeats, reads the operator's
  switches, and decides with every bar and every heartbeat whether the trader is ready to submit
  orders.  Its operations are actions on the fields of the object, the runtime state it is bound to,
  the control tables and the alerts it has emitted (name, severity and reason code; the texts and
  details maps are left out).  A method runs without interleaving: it awaits nothing that suspends.
  clk n is what the clock returns at the n-th place of a method that reads it.
\<close>

section \<open>State\<close>

record alert =
  al_event :: string
  al_severity :: string
  al_notify :: bool
  al_bypass_cooldown :: bool
  al_reason_code :: "string option"

record control_runtime =
  crt_account :: string
  crt_timeframe :: string
  crt_stale_threshold_seconds :: int
  crt_lease_ttl_seconds :: int
  crt_control :: control_snapshot
  crt_lease :: lease_snapshot
  crt_latest_final_bar_time :: "datetime option"
  crt_trading_phase :: "string option"
  crt_last_status_message :: "string option"
  crt_not_ready_since :: "datetime option"
  crt_not_ready_alert_emitted :: bool
  crt_market_stale_cycles :: int

definition new_control_runtime :: "string \<Rightarrow> string \<Rightarrow> int \<Rightarrow> int \<Rightarrow> control_runtime" where
  "new_control_runtime account timeframe threshold ttl =
     \<lparr>crt_account = account, crt_timeframe = timeframe, crt_stale_threshold_seconds = threshold,
      crt_lease_ttl_seconds = ttl, crt_control = default_control_snapshot account,
      crt_lease = no_lease account, crt_latest_final_bar_time = None, crt_trading_phase = None,
      crt_last_status_message = None, crt_not_ready_since = None, crt_not_ready_alert_emitted = False,
      crt_market_stale_cycles = 0\<rparr>"

text \<open>The runtime state is None until start has bound it.\<close>

record trader_world =
  tw_store :: control_store
  tw_db :: control_db
  tw_self :: control_runtime
  tw_runtime :: "runtime_state option"
  tw_alerts :: "alert list"

definition change_self :: "(control_runtime \<Rightarrow> control_runtime) \<Rightarrow> (trader_world, unit) act" where
  "change_self f = change (\<lambda>w. w\<lparr>tw_self := f (tw_self w)\<rparr>)"

definition change_runtime :: "(runtime_state \<Rightarrow> runtime_state) \<Rightarrow> (trader_world, unit) act" where
  "change_runtime f = change (\<lambda>w. w\<lparr>tw_runtime := map_option f (tw_runtime w)\<rparr>)"

definition on_store ::
  "(control_store \<Rightarrow> control_db \<Rightarrow> 'a res \<times> control_store \<times> control_db) \<Rightarrow> (trader_world, 'a) act" where
  "on_store op = (\<lambda>w. let (r, st, db) = op (tw_store w) (tw_db w) in (r, w\<lparr>tw_store := st, tw_db := db\<rparr>))"

definition emit :: "string \<Rightarrow> string \<Rightarrow> bool \<Rightarrow> bool \<Rightarrow> string \<Rightarrow> (trader_world, unit) act" where
  "emit event sev notify bypass reason =
     change (\<lambda>w. w\<lparr>tw_alerts := tw_alerts w @
       [\<lparr>al_event = event, al_severity = sev, al_notify = notify, al_bypass_cooldown = bypass,
         al_reason_code = Some reason\<rparr>]\<rparr>)"

section \<open>Small operations\<close>

definition crt_control_state :: "control_runtime \<Rightarrow> risk_control_state" where
  "crt_control_state self = ctl_control_state (crt_control self)"

definition submission_guard :: "datetime \<Rightarrow> trader_world \<Rightarrow> submission_guard option" where
  "submission_guard as_of w =
     (case tw_runtime w of
        None \<Rightarrow> None
      | Some rt \<Rightarrow>
          let lease = crt_lease (tw_self w) in
          (case ls_fencing_token lease of
             None \<Rightarrow> None
           | Some token \<Rightarrow>
               if rt_readiness rt \<noteq> RD_ready \<or> \<not> ls_is_held_by lease (rt_instance rt) as_of then None
               else Some \<lparr>sg_account = crt_account (tw_self w), sg_instance = rt_instance rt,
                          sg_fencing_token = token\<rparr>))"

definition apply_control_snapshot :: "control_snapshot \<Rightarrow> (trader_world, unit) act" where
  "apply_control_snapshot s =
     act_seq (change_self (\<lambda>self. self\<lparr>crt_control := s\<rparr>))
       (change_runtime (apply_control_state (ctl_strategy_enabled s) (ctl_kill_switch s)
                          (ctl_protection_mode s)))"

definition market_data_is_fresh :: "control_runtime \<Rightarrow> datetime \<Rightarrow> bool res" where
  "market_data_is_fresh self as_of =
     (case crt_latest_final_bar_time self of
        None \<Rightarrow> Inr False
      | Some t \<Rightarrow> res_map (\<lambda>threshold. as_of - t \<le> threshold)
                    (stale_threshold (crt_timeframe self) (crt_stale_threshold_seconds self)))"

definition not_ready_reason :: "datetime \<Rightarrow> trader_world \<Rightarrow> string res" where
  "not_ready_reason as_of w =
     (case tw_runtime w of
        None \<Rightarrow> Inr ''runtime_unbound''
      | Some rt \<Rightarrow>
          let self = tw_self w in
          if ls_fencing_token (crt_lease self) = None then Inr ''lease_not_acquired''
          else if \<not> ls_is_held_by (crt_lease self) (rt_instance rt) as_of then Inr ''lease_lost_or_expired''
          else if crt_latest_final_bar_time self = None then Inr ''latest_final_bar_missing''
          else if crt_trading_phase self = None then Inr ''market_state_missing''
          else res_map (\<lambda>fresh. if \<not> fresh then ''market_data_stale'' else ''runtime_not_ready'')
                 (market_data_is_fresh self as_of))"

definition upper_reason :: "string option \<Rightarrow> string" where
  "upper_reason reason = (case reason of None \<Rightarrow> ''NOT_READY'' | Some [] \<Rightarrow> ''NOT_READY'' | Some r \<Rightarrow> upper r)"

definition track_runtime_safety :: "datetime \<Rightarrow> bool \<Rightarrow> string option \<Rightarrow> (trader_world, unit) act" where
  "track_runtime_safety as_of ready reason =
     (if ready
      then change_self (\<lambda>self. self\<lparr>crt_not_ready_since := None, crt_not_ready_alert_emitted := False,
                                    crt_market_stale_cycles := 0\<rparr>)
      else
        act_seq (change_self (\<lambda>self. self\<lparr>crt_not_ready_since :=
          (case crt_not_ready_since self of None \<Rightarrow> Some as_of | Some t \<Rightarrow> Some t)\<rparr>))
        (act_seq
          (if reason = Some ''market_data_stale''
           then act_seq (change_self (\<lambda>self. self\<lparr>crt_market_stale_cycles := crt_market_stale_cycles self + 1\<rparr>))
             (bind_act (reading (\<lambda>w. crt_market_stale_cycles (tw_self w))) (\<lambda>cycles.
                act_when (2 \<le> cycles)
                  (emit ''runtime.market_data_stale_repeated'' ''warning'' True False ''MARKET_DATA_STALE'')))
           else change_self (\<lambda>self. self\<lparr>crt_market_stale_cycles := 0\<rparr>))
        (bind_act (reading tw_self) (\<lambda>self.
          act_when (\<not> crt_not_ready_alert_emitted self
              \<and> (case crt_not_ready_since self of None \<Rightarrow> False | Some t \<Rightarrow> seconds 30 \<le> as_of - t))
            (act_seq (emit ''runtime.not_ready_persisted'' ''error'' True False (upper_reason reason))
              (change_self (\<lambda>self. self\<lparr>crt_not_ready_alert_emitted := True\<rparr>)))))))"

definition runtime_status_of :: "control_runtime \<Rightarrow> runtime_state \<Rightarrow> datetime \<Rightarrow> runtime_status" where
  "runtime_status_of self rt now =
     \<lparr>rs_account = crt_account self, rs_run_id = rt_run_id rt, rs_instance = rt_instance rt,
      rs_lifecycle = lifecycle_text (rt_status rt), rs_health = health_text (rt_health rt),
      rs_readiness = readiness_text (rt_readiness rt), rs_control_state = rt_control_state rt,
      rs_strategy_enabled = rt_strategy_enabled rt, rs_kill_switch = rt_kill_switch rt,
      rs_protection_mode = rt_protection_mode rt, rs_market_data_fresh = rt_market_data_fresh rt,
      rs_latest_final_bar_time = rt_latest_final_bar_time rt, rs_trading_phase = rt_trading_phase rt,
      rs_fencing_token = ls_fencing_token (crt_lease self),
      rs_last_status_message = crt_last_status_message self, rs_updated_at = now,
      rs_last_strategy_id = rt_last_strategy_id rt,
      rs_last_strategy_decision_at = rt_last_strategy_decision_at rt,
      rs_last_strategy_audit = rt_last_strategy_audit rt, rs_last_seen_bars = rt_last_seen_bars rt,
      rs_last_strategy_bars = rt_last_strategy_bars rt\<rparr>"

definition persist_runtime_status :: "datetime \<Rightarrow> (trader_world, unit) act" where
  "persist_runtime_status now =
     bind_act (reading (\<lambda>w. (tw_runtime w, tw_self w))) (\<lambda>(runtime, self).
       case runtime of
         None \<Rightarrow> pass ()
       | Some rt \<Rightarrow> bind_act (on_store (transact_res (save_runtime_status (runtime_status_of self rt now))))
                      (\<lambda>_. pass ()))"

section \<open>Refreshing readiness\<close>

text \<open>The alerts of a changed control state.\<close>

definition announce_control_state :: "risk_control_state \<Rightarrow> (trader_world, unit) act" where
  "announce_control_state previous =
     bind_act (reading (\<lambda>w. map_option rt_control_state (tw_runtime w))) (\<lambda>state.
       case state of
         None \<Rightarrow> pass ()
       | Some c \<Rightarrow>
           act_when (c \<noteq> previous)
             (act_seq (emit ''control.state_changed''
                         (if c \<in> {KILL_SWITCH, PROTECTION_MODE} then ''warning'' else ''info'')
                         False False (upper (risk_control_value c)))
               (act_when (c = PROTECTION_MODE)
                 (emit ''control.protection_mode_entered'' ''critical'' True True
                    ''PROTECTION_MODE_ACTIVE''))))"

text \<open>The lease is renewed or read again, if the runtime believes to have one.\<close>

definition refresh_lease :: "string \<Rightarrow> bool \<Rightarrow> datetime \<Rightarrow> string \<Rightarrow> int option \<Rightarrow> (trader_world, unit) act" where
  "refresh_lease instance_id force_heartbeat as_of reason expected =
     (case expected of
        None \<Rightarrow> pass ()
      | Some token \<Rightarrow>
          bind_act (reading tw_self) (\<lambda>self.
            if force_heartbeat
            then bind_act (on_store (transact (heartbeat_lease (crt_account self) instance_id token
                             (crt_lease_ttl_seconds self) as_of))) (\<lambda>res.
                   change_self (\<lambda>self. self\<lparr>crt_lease := la_snapshot res,
                                             crt_last_status_message := Some (la_message res)\<rparr>))
            else bind_act (on_store (transact (\<lambda>db. (read_lease (crt_account self) db, db)))) (\<lambda>lease.
                   change_self (\<lambda>self. self\<lparr>crt_lease := lease,
                                             crt_last_status_message := Some reason\<rparr>))))"

definition lease_is_valid :: "lease_snapshot \<Rightarrow> string \<Rightarrow> datetime \<Rightarrow> int option \<Rightarrow> bool" where
  "lease_is_valid lease instance_id as_of expected \<longleftrightarrow>
     expected \<noteq> None \<and> ls_fencing_token lease = expected \<and> ls_is_held_by lease instance_id as_of"

text \<open>What the runtime state shows of the lease, and the alert of a lease that was lost.\<close>

definition observe_lease ::
  "string \<Rightarrow> datetime \<Rightarrow> int option \<Rightarrow> bool \<Rightarrow> bool \<Rightarrow> (trader_world, unit) act" where
  "observe_lease instance_id as_of expected was_valid valid =
     bind_act (reading (\<lambda>w. crt_lease (tw_self w))) (\<lambda>lease.
       act_seq (change_runtime (\<lambda>rt. rt\<lparr>rt_single_active :=
           (if valid
            then sa_observe instance_id
                   (case ls_fencing_token lease of
                      None \<Rightarrow> the expected | Some k \<Rightarrow> if k = 0 then the expected else k)
                   (case ls_expires_at lease of None \<Rightarrow> as_of | Some t \<Rightarrow> t)
                   (case ls_last_heartbeat_at lease of None \<Rightarrow> as_of | Some t \<Rightarrow> t)
                   SA_acquired (rt_single_active rt)
            else sa_mark_lost (ls_owner lease) (rt_single_active rt))\<rparr>))
         (act_when (was_valid \<and> \<not> valid)
           (emit ''runtime.lease_lost'' ''critical'' True True
              (if ls_fencing_token lease \<noteq> expected then ''FENCING_TOKEN_INVALID''
               else ''LEASE_LOST_OR_EXPIRED''))))"

definition refresh :: "(nat \<Rightarrow> datetime) \<Rightarrow> string \<Rightarrow> bool \<Rightarrow> (trader_world, unit) act" where
  "refresh clk reason force_heartbeat =
     bind_act (reading (\<lambda>w. (tw_runtime w, tw_self w))) (\<lambda>(runtime, self).
     case runtime of
       None \<Rightarrow> pass ()
     | Some rt \<Rightarrow>
         let as_of = clk 0;
             instance_id = rt_instance rt;
             expected = ls_fencing_token (crt_lease self);
             was_valid = (expected \<noteq> None \<and> sa_status (rt_single_active rt) = SA_acquired
                          \<and> ls_owner (crt_lease self) = Some instance_id)
         in
         bind_act (on_store (transact (get_control (crt_account self) (clk 1)))) (\<lambda>ctl.
         act_seq (apply_control_snapshot ctl)
        (act_seq (announce_control_state (rt_control_state rt))
        (act_seq (refresh_lease instance_id force_heartbeat as_of reason expected)
        (bind_act (reading tw_self) (\<lambda>self.
         bind_act (from_res (market_data_is_fresh self as_of)) (\<lambda>fresh.
         let valid = lease_is_valid (crt_lease self) instance_id as_of expected;
             ready = (rt_status rt = LC_running \<and> valid \<and> fresh \<and> crt_trading_phase self \<noteq> None)
         in
         act_seq (change_runtime (update_market_observation (crt_latest_final_bar_time self)
                    (crt_trading_phase self) fresh))
        (act_seq (observe_lease instance_id as_of expected was_valid valid)
        (bind_act (bind_act (reading (not_ready_reason (clk 2))) (\<lambda>r.
                     if ready then pass None else bind_act (from_res r) (\<lambda>text. pass (Some text)))) (\<lambda>why.
         act_seq (change_runtime (set_readiness (clk 3) ready why))
        (act_seq (track_runtime_safety as_of ready why)
         (persist_runtime_status (clk 4)))))))))))))"

section \<open>Life of the control loop\<close>

definition start_control :: "(nat \<Rightarrow> datetime) \<Rightarrow> runtime_state \<Rightarrow> (trader_world, unit) act" where
  "start_control clk runtime =
     bind_act (reading (\<lambda>w. tw_self w)) (\<lambda>self.
     let account = crt_account self; instance_id = rt_instance runtime in
     act_seq (change (\<lambda>w. w\<lparr>tw_runtime := Some (runtime\<lparr>rt_account := Some account\<rparr>)\<rparr>))
    (bind_act (on_store (transact (get_control account (clk 10)))) (\<lambda>ctl.
     act_seq (apply_control_snapshot ctl)
    (bind_act (reading tw_store) (\<lambda>st.
     bind_act (on_store (transact (acquire_lease st account instance_id (crt_lease_ttl_seconds self) (clk 11)))) (\<lambda>res.
     let lease = la_snapshot res in
     act_seq (change_self (\<lambda>self. self\<lparr>crt_lease := lease\<rparr>))
       (case (la_accepted res, ls_fencing_token lease) of
          (True, Some token) \<Rightarrow>
            act_seq (change_runtime (\<lambda>rt. rt\<lparr>rt_single_active :=
                sa_observe instance_id token
                  (case ls_expires_at lease of None \<Rightarrow> clk 12 | Some t \<Rightarrow> t)
                  (case ls_last_heartbeat_at lease of None \<Rightarrow> clk 13 | Some t \<Rightarrow> t)
                  SA_acquired (rt_single_active rt)\<rparr>))
           (act_seq (emit ''runtime.lease_acquired'' ''info'' False False (upper (la_message res)))
             (refresh clk ''startup'' False))
        | _ \<Rightarrow>
            act_seq (change_runtime (\<lambda>rt. set_readiness (clk 14) False (Some ''single_active_lease_unavailable'')
                (rt\<lparr>rt_single_active := sa_mark_rejected (ls_owner lease) (ls_fencing_token lease)
                      (ls_expires_at lease) (ls_last_heartbeat_at lease) (rt_single_active rt)\<rparr>)))
           (act_seq (change_self (\<lambda>self. self\<lparr>crt_last_status_message := Some (la_message res)\<rparr>))
           (act_seq (emit ''runtime.lease_acquire_rejected'' ''warning'' False False ''LEASE_UNAVAILABLE'')
           (act_seq (persist_runtime_status (clk 15))
             (throw (RuntimeError ''Single-active trader lease is held by another instance''))))))))))))"

definition stop_control :: "(nat \<Rightarrow> datetime) \<Rightarrow> string \<Rightarrow> (trader_world, unit) act" where
  "stop_control clk reason =
     bind_act (reading (\<lambda>w. (tw_runtime w, tw_self w))) (\<lambda>(runtime, self).
     case runtime of
       None \<Rightarrow> pass ()
     | Some rt \<Rightarrow>
         act_seq (if ls_fencing_token (crt_lease self) = None then pass ()
                  else bind_act (on_store (transact (release_lease (crt_account self) (rt_instance rt)
                                   (ls_fencing_token (crt_lease self)) (clk 0)))) (\<lambda>res.
                         change_self (\<lambda>self. self\<lparr>crt_lease := la_snapshot res\<rparr>)))
        (bind_act (reading tw_self) (\<lambda>self.
         act_seq (change_runtime (\<lambda>rt. set_readiness (clk 1) False (Some reason)
                    (rt\<lparr>rt_single_active := sa_mark_lost (ls_owner (crt_lease self)) (rt_single_active rt)\<rparr>)))
        (act_seq (change_self (\<lambda>self. self\<lparr>crt_last_status_message := Some reason\<rparr>))
         (persist_runtime_status (clk 2))))))"

definition observe_bar :: "(rat \<Rightarrow> rat) \<Rightarrow> (nat \<Rightarrow> datetime) \<Rightarrow> bar_event \<Rightarrow> (trader_world, unit) act" where
  "observe_bar float clk e =
     (if \<not> be_closed e \<or> \<not> be_final e then pass ()
      else act_seq (change_runtime (record_seen_bar float e))
          (act_seq (change_self (\<lambda>self. self\<lparr>crt_latest_final_bar_time := Some (be_event_time e),
                      crt_trading_phase := map_option (\<lambda>m. phase_text (ms_phase m)) (be_market_state e)\<rparr>))
            (refresh clk ''bar_observed'' False)))"

text \<open>
  One round of the heartbeat loop after its interval has passed.  The result says whether the loop
  goes on: it ends when not even the downgrade could be stored.
\<close>

definition heartbeat_tick :: "(nat \<Rightarrow> datetime) \<Rightarrow> (trader_world, bool) act" where
  "heartbeat_tick clk =
     try_except (act_seq (refresh clk ''heartbeat'' True) (pass True)) (\<lambda>_.
       act_seq (emit ''runtime.lease_heartbeat_failed'' ''critical'' True True ''LEASE_HEARTBEAT_FAILED'')
      (bind_act (reading tw_runtime) (\<lambda>runtime.
         if runtime = None then pass True
         else
           act_seq (change_self (\<lambda>self. self\<lparr>crt_last_status_message := Some ''lease_heartbeat_failed''\<rparr>))
          (act_seq (change_runtime (set_readiness (clk 5) False (Some ''lease_heartbeat_failed'')))
           (try_except (act_seq (persist_runtime_status (clk 6)) (pass True)) (\<lambda>_. pass False))))))"

section \<open>What a refresh touches\<close>

lemma on_store_ok:
  "on_store op w = (Inr x, w') \<longleftrightarrow>
     (\<exists>st db. op (tw_store w) (tw_db w) = (Inr x, st, db) \<and> w' = w\<lparr>tw_store := st, tw_db := db\<rparr>)"
  by (auto simp: on_store_def split: prod.splits)

lemma transact_ok: "transact tx st db = (Inr x, st', db') \<longleftrightarrow> tx db = (x, db') \<and> ensure_schema st db = Inr st'"
  by (auto simp: transact_def transact_res_def split: sum.splits prod.splits)

lemma transact_res_ok:
  "transact_res tx st db = (Inr x, st', db') \<longleftrightarrow> tx db = Inr (x, db') \<and> ensure_schema st db = Inr st'"
  by (auto simp: transact_res_def split: sum.splits prod.splits)

lemma change_self_apply [simp]: "change_self f w = (Inr (), w\<lparr>tw_self := f (tw_self w)\<rparr>)"
  by (simp add: change_self_def)

lemma change_runtime_apply [simp]:
  "change_runtime f w = (Inr (), w\<lparr>tw_runtime := map_option f (tw_runtime w)\<rparr>)"
  by (simp add: change_runtime_def)

lemma emit_apply:
  "emit e sev n b r w = (Inr (), w\<lparr>tw_alerts := tw_alerts w @
     [\<lparr>al_event = e, al_severity = sev, al_notify = n, al_bypass_cooldown = b, al_reason_code = Some r\<rparr>]\<rparr>)"
  by (simp add: emit_def)

lemma apply_control_snapshot_apply [simp]:
  "apply_control_snapshot s w =
     (Inr (), w\<lparr>tw_self := (tw_self w)\<lparr>crt_control := s\<rparr>,
                tw_runtime := map_option (apply_control_state (ctl_strategy_enabled s) (ctl_kill_switch s)
                   (ctl_protection_mode s)) (tw_runtime w)\<rparr>)"
  by (simp add: apply_control_snapshot_def bind_act_def)

text \<open>The view of a world the readiness of the trader depends on.\<close>

definition core_self :: "control_runtime \<Rightarrow> string \<times> string \<times> int \<times> int \<times> lease_snapshot \<times> datetime option \<times> string option" where
  "core_self s = (crt_account s, crt_timeframe s, crt_stale_threshold_seconds s, crt_lease_ttl_seconds s,
     crt_lease s, crt_latest_final_bar_time s, crt_trading_phase s)"

definition core_runtime :: "runtime_state \<Rightarrow> lifecycle_status \<times> health_status \<times> readiness_status \<times> string" where
  "core_runtime rt = (rt_status rt, rt_health rt, rt_readiness rt, rt_instance rt)"

definition core :: "trader_world \<Rightarrow> _" where
  "core w = (core_self (tw_self w), map_option core_runtime (tw_runtime w), db_leases (tw_db w))"

lemmas core_defs = core_def core_self_def core_runtime_def

lemma core_change_runtime:
  assumes "\<And>rt. core_runtime (f rt) = core_runtime rt"
  shows "core (snd (change_runtime f w)) = core w"
proof -
  have "map_option core_runtime (map_option f x) = map_option core_runtime x" for x
    by (cases x) (simp_all add: assms)
  then show ?thesis
    by (simp add: core_def)
qed

lemma core_apply_control [simp]: "core (snd (apply_control_snapshot ctl w)) = core w"
  using core_change_runtime [of "apply_control_state (ctl_strategy_enabled ctl) (ctl_kill_switch ctl)
      (ctl_protection_mode ctl)" w]
  by (simp add: core_def core_self_def apply_control_state_def core_runtime_def)

lemma core_announce: "announce_control_state c w = (r, w') \<Longrightarrow> core w' = core w \<and> is_ok r"
  by (auto simp: announce_control_state_def bind_act_def emit_apply core_defs split: option.splits if_splits)

lemma core_observe: "observe_lease i t e a b w = (r, w') \<Longrightarrow> core w' = core w \<and> is_ok r"
  by (cases "tw_runtime w")
    (auto simp: observe_lease_def bind_act_def emit_apply core_defs split: if_splits)

lemma core_track: "track_runtime_safety t b r w = (res, w') \<Longrightarrow> core w' = core w \<and> is_ok res"
  by (auto simp: track_runtime_safety_def bind_act_def emit_apply core_defs split: if_splits option.splits)

lemma core_persist: "persist_runtime_status t w = (r, w') \<Longrightarrow> core w' = core w"
  by (auto simp: persist_runtime_status_def bind_act_def on_store_def transact_res_def save_runtime_status_def
      core_defs Let_def split: option.splits sum.splits prod.splits)

lemma core_refresh_lease:
  assumes "refresh_lease i force t reason expected w = (Inr u, w')"
  shows "core_self (tw_self w') = core_self ((tw_self w)\<lparr>crt_lease := crt_lease (tw_self w')\<rparr>)
    \<and> map_option core_runtime (tw_runtime w') = map_option core_runtime (tw_runtime w)
    \<and> (expected \<noteq> None \<longrightarrow> crt_lease (tw_self w') = read_lease (crt_account (tw_self w)) (tw_db w'))"
proof (cases expected)
  case (Some k)
  have "la_snapshot (fst (heartbeat_lease (crt_account (tw_self w)) i k (crt_lease_ttl_seconds (tw_self w)) t (tw_db w)))
      = read_lease (crt_account (tw_self w))
          (snd (heartbeat_lease (crt_account (tw_self w)) i k (crt_lease_ttl_seconds (tw_self w)) t (tw_db w)))"
    by (auto simp: heartbeat_lease_def conditional_result_def Let_def split: prod.splits)
  then show ?thesis
    using assms Some
    by (auto simp: refresh_lease_def on_store_ok transact_ok core_defs split: if_splits)
next
  case None
  then show ?thesis
    using assms by (auto simp: refresh_lease_def core_defs)
qed

lemma core_get_control:
  assumes "on_store (transact (get_control account t)) w = (Inr ctl, w')"
  shows "core w' = core w"
  using assms by (auto simp: on_store_ok transact_ok get_control_def put_control_def core_defs Let_def)

lemma core_self_fresh:
  "core_self s = core_self s' \<Longrightarrow> market_data_is_fresh s t = market_data_is_fresh s' t"
  by (auto simp: market_data_is_fresh_def core_self_def split: option.splits)

lemma lease_is_valid_may_submit:
  "lease_is_valid (read_lease account db) i t (Some k) = may_submit db account i k t"
  by (auto simp: lease_is_valid_def may_submit_iff read_lease_def no_lease_def lease_snapshot_from_record_def
      ls_is_held_by_def split: option.splits)

lemma may_submit_leases: "db_leases db = db_leases db' \<Longrightarrow> may_submit db = may_submit db'"
  by (intro ext) (simp add: may_submit_iff)

text \<open>What a refresh that returns leaves behind.\<close>

lemma refresh_readiness:
  assumes "refresh clk reason force w = (Inr u, w')" "tw_runtime w = Some rt"
    and "ls_fencing_token (crt_lease (tw_self w)) = expected"
  obtains rt' fresh where "tw_runtime w' = Some rt'" "rt_status rt' = rt_status rt" "rt_health rt' = rt_health rt"
    "rt_instance rt' = rt_instance rt" "crt_account (tw_self w') = crt_account (tw_self w)"
    "crt_trading_phase (tw_self w') = crt_trading_phase (tw_self w)"
    "crt_latest_final_bar_time (tw_self w') = crt_latest_final_bar_time (tw_self w)"
    "expected \<noteq> None \<longrightarrow> crt_lease (tw_self w') = read_lease (crt_account (tw_self w)) (tw_db w')"
    "market_data_is_fresh (tw_self w) (clk 0) = Inr fresh"
    "rt_readiness rt' = (if rt_status rt = LC_running \<and> fresh \<and> crt_trading_phase (tw_self w) \<noteq> None
        \<and> lease_is_valid (crt_lease (tw_self w')) (rt_instance rt) (clk 0) expected
      then RD_ready else RD_not_ready)"
proof -
  from assms obtain ctl w1 w2 w3 fresh w4 why w5 w6 where
    a: "on_store (transact (get_control (crt_account (tw_self w)) (clk 1))) w = (Inr ctl, w1)"
    and b: "announce_control_state (rt_control_state rt) (snd (apply_control_snapshot ctl w1)) = (Inr (), w2)"
    and c: "refresh_lease (rt_instance rt) force (clk 0) reason expected w2 = (Inr (), w3)"
    and fresh: "market_data_is_fresh (tw_self w3) (clk 0) = Inr fresh"
    and d: "observe_lease (rt_instance rt) (clk 0) expected
        (expected \<noteq> None \<and> sa_status (rt_single_active rt) = SA_acquired
          \<and> ls_owner (crt_lease (tw_self w)) = Some (rt_instance rt))
        (lease_is_valid (crt_lease (tw_self w3)) (rt_instance rt) (clk 0) expected)
        (snd (change_runtime (update_market_observation (crt_latest_final_bar_time (tw_self w3))
           (crt_trading_phase (tw_self w3)) fresh) w3)) = (Inr (), w4)"
    and e: "track_runtime_safety (clk 0) (rt_status rt = LC_running
          \<and> lease_is_valid (crt_lease (tw_self w3)) (rt_instance rt) (clk 0) expected \<and> fresh
          \<and> crt_trading_phase (tw_self w3) \<noteq> None) why
        (snd (change_runtime (set_readiness (clk 3) (rt_status rt = LC_running
          \<and> lease_is_valid (crt_lease (tw_self w3)) (rt_instance rt) (clk 0) expected \<and> fresh
          \<and> crt_trading_phase (tw_self w3) \<noteq> None) why) w4)) = (Inr (), w5)"
    and f: "persist_runtime_status (clk 4) w5 = (Inr (), w')"
    by (auto simp: refresh_def Let_def split: if_splits)
  let ?ready = "rt_status rt = LC_running
      \<and> lease_is_valid (crt_lease (tw_self w3)) (rt_instance rt) (clk 0) expected \<and> fresh
      \<and> crt_trading_phase (tw_self w3) \<noteq> None"
  have w2: "core w2 = core w"
    using core_get_control [OF a] core_announce [OF b] by (simp del: apply_control_snapshot_apply)
  have w3: "core_self (tw_self w3) = core_self ((tw_self w)\<lparr>crt_lease := crt_lease (tw_self w3)\<rparr>)"
    "map_option core_runtime (tw_runtime w3) = Some (core_runtime rt)"
    "expected \<noteq> None \<longrightarrow> crt_lease (tw_self w3) = read_lease (crt_account (tw_self w)) (tw_db w3)"
    using core_refresh_lease [OF c] w2 assms(2) by (auto simp: core_defs)
  have w4: "core w4 = core w3"
    using core_observe [OF d] core_change_runtime [of "update_market_observation
        (crt_latest_final_bar_time (tw_self w3)) (crt_trading_phase (tw_self w3)) fresh" w3]
    by (simp add: core_runtime_def update_market_observation_def del: change_runtime_apply)
  have w': "core w' = core (snd (change_runtime (set_readiness (clk 3) ?ready why) w4))"
    using core_persist [OF f] core_track [OF e] by simp
  obtain rt4 where rt4: "tw_runtime w4 = Some rt4" "core_runtime rt4 = core_runtime rt"
    using w4 w3(2) by (cases "tw_runtime w4") (auto simp: core_def)
  have rt': "map_option core_runtime (tw_runtime w') = Some (core_runtime (set_readiness (clk 3) ?ready why rt4))"
    using w' rt4 by (simp add: core_def)
  then obtain rt' where r: "tw_runtime w' = Some rt'"
      "core_runtime rt' = core_runtime (set_readiness (clk 3) ?ready why rt4)"
    by auto
  have self: "core_self (tw_self w') = core_self (tw_self w3)" "db_leases (tw_db w') = db_leases (tw_db w3)"
    using w' w4 by (simp_all add: core_def)
  have fr: "market_data_is_fresh (tw_self w) (clk 0) = Inr fresh"
    using fresh w3(1) by (auto simp: market_data_is_fresh_def core_self_def split: option.splits)
  have lease: "expected \<noteq> None \<longrightarrow> crt_lease (tw_self w') = read_lease (crt_account (tw_self w)) (tw_db w')"
    using self w3(3) by (auto simp: core_self_def read_lease_def)
  have fields: "crt_lease (tw_self w3) = crt_lease (tw_self w')" "crt_account (tw_self w') = crt_account (tw_self w)"
    "crt_trading_phase (tw_self w3) = crt_trading_phase (tw_self w)"
    "crt_trading_phase (tw_self w') = crt_trading_phase (tw_self w)"
    "crt_latest_final_bar_time (tw_self w') = crt_latest_final_bar_time (tw_self w)"
    using self w3(1) by (simp_all add: core_self_def)
  show thesis
    using r(2) rt4(2) fields
    by (intro that [OF r(1) _ _ _ fields(2,4,5) lease fr])
      (auto simp: core_runtime_def set_readiness_def split: if_splits)
qed


lemma submission_guard_valid:
  assumes "submission_guard t w = Some g" "tw_runtime w = Some rt"
    and "rt_readiness rt = RD_ready \<Longrightarrow> crt_lease (tw_self w) = read_lease (crt_account (tw_self w)) (tw_db w)"
  shows "may_submit (tw_db w) (sg_account g) (sg_instance g) (sg_fencing_token g) t"
proof -
  obtain k where k: "ls_fencing_token (crt_lease (tw_self w)) = Some k"
      "rt_readiness rt = RD_ready" "ls_is_held_by (crt_lease (tw_self w)) (rt_instance rt) t"
      "g = \<lparr>sg_account = crt_account (tw_self w), sg_instance = rt_instance rt, sg_fencing_token = k\<rparr>"
    using assms(1,2) by (auto simp: submission_guard_def Let_def split: option.splits if_splits)
  then show ?thesis
    using assms(3) lease_is_valid_may_submit [of "crt_account (tw_self w)" "tw_db w" "rt_instance rt" t k]
    by (simp add: lease_is_valid_def)
qed

definition sample_world :: trader_world where
  "sample_world =
     \<lparr>tw_store = sample_store, tw_db = empty_control_db,
      tw_self = (new_control_runtime ''acc'' ''15m'' 120 30)
        \<lparr>crt_latest_final_bar_time := Some 0, crt_trading_phase := Some ''CONTINUOUS_AUCTION''\<rparr>,
      tw_runtime = None, tw_alerts = []\<rparr>"

definition sample_started :: trader_world where
  "sample_started =
     snd (start_control (\<lambda>_. 0) (mark_running 0 False (new_runtime_state ''run'' ''trader-a:4242'')) sample_world)"

text \<open>
  C12.  Readiness.  After a refresh that returns, the trader is ready exactly when it is running, its
  market data is fresh, a trading phase is known, and the lease table lets this instance submit under
  the token it holds.  Every guard it hands out from then on names a lease the table still grants.
\<close>

theorem ready_means_may_submit:
  assumes "refresh clk reason force w = (Inr u, w')" "tw_runtime w = Some rt"
  shows "\<exists>rt'. tw_runtime w' = Some rt'
    \<and> (rt_readiness rt' = RD_ready) =
        (rt_status rt = LC_running \<and> market_data_is_fresh (tw_self w) (clk 0) = Inr True
         \<and> crt_trading_phase (tw_self w) \<noteq> None
         \<and> (\<exists>k. ls_fencing_token (crt_lease (tw_self w)) = Some k
              \<and> may_submit (tw_db w') (crt_account (tw_self w)) (rt_instance rt) k (clk 0)))
    \<and> (\<forall>t g. submission_guard t w' = Some g \<longrightarrow>
         la_accepted (validate_submission_lease (sg_account g) (sg_instance g) (sg_fencing_token g) t (tw_db w')))"
proof -
  obtain expected where e: "ls_fencing_token (crt_lease (tw_self w)) = expected" by simp
  from assms e obtain rt' fresh where r: "tw_runtime w' = Some rt'"
      "rt_instance rt' = rt_instance rt" "crt_account (tw_self w') = crt_account (tw_self w)"
    and lease: "expected \<noteq> None \<longrightarrow> crt_lease (tw_self w') = read_lease (crt_account (tw_self w)) (tw_db w')"
    and fresh: "market_data_is_fresh (tw_self w) (clk 0) = Inr fresh"
    and ready: "rt_readiness rt' = (if rt_status rt = LC_running \<and> fresh \<and> crt_trading_phase (tw_self w) \<noteq> None
        \<and> lease_is_valid (crt_lease (tw_self w')) (rt_instance rt) (clk 0) expected
      then RD_ready else RD_not_ready)"
    by (rule refresh_readiness)
  have valid: "lease_is_valid (crt_lease (tw_self w')) (rt_instance rt) (clk 0) expected
      = (\<exists>k. expected = Some k \<and> may_submit (tw_db w') (crt_account (tw_self w)) (rt_instance rt) k (clk 0))"
    using lease lease_is_valid_may_submit by (cases expected) (auto simp: lease_is_valid_def)
  have "rt_readiness rt' = RD_ready \<Longrightarrow> crt_lease (tw_self w') = read_lease (crt_account (tw_self w')) (tw_db w')"
    using ready valid lease r(3) by (auto split: if_splits)
  then have "submission_guard t w' = Some g \<Longrightarrow>
      la_accepted (validate_submission_lease (sg_account g) (sg_instance g) (sg_fencing_token g) t (tw_db w'))" for t g
    using submission_guard_valid [of t w' g rt'] r(1) by (simp add: may_submit_def)
  then show ?thesis
    using r ready valid fresh e by (auto split: if_splits)
qed

theorem ready_means_may_submit_witness:
  "\<exists>w' g. refresh (\<lambda>_. seconds 5) ''heartbeat'' True sample_started = (Inr (), w')
     \<and> submission_guard (seconds 20) w' = Some g
     \<and> la_accepted (validate_submission_lease (sg_account g) (sg_instance g) (sg_fencing_token g) (seconds 20) (tw_db w'))"
proof -
  let ?r = "refresh (\<lambda>_. seconds 5) ''heartbeat'' True sample_started"
  have a: "?r = (Inr (), snd ?r)"
    by (rule prod_eqI) (code_simp, simp)
  have b: "tw_runtime sample_started \<noteq> None" by code_simp
  have c: "submission_guard (seconds 20) (snd ?r) =
      Some \<lparr>sg_account = ''acc'', sg_instance = ''trader-a:4242'', sg_fencing_token = 1\<rparr>" by code_simp
  from b obtain rt where "tw_runtime sample_started = Some rt" by auto
  from ready_means_may_submit [OF a this] a c show ?thesis by blast
qed

end
