(* ===== verification/Collector.thy ===== *)
theory Collector
  imports Bar_Gate Effects "HOL-Library.AList" "HOL-Library.Sublist"
begin

text \<open>
  The collector (src/apps/collector/service.py and checkpoints.py): it backfills the bars of every
  symbol, follows the live stream, sends every bar through FinalBarGate, records the last final bar
  of each stream in a checkpoint file, and hands the emitted bars to the trader.  The market data
  gateway is an argument: the answer to the n-th historical fetch, and the bars of the n-th live
  session before it ends.  fresh and now give the identity of a bar event and the time of a
  checkpoint.
\<close>

section \<open>Reading timestamps\<close>

text \<open>
  datetime.fromisoformat on texts of the form YYYY-MM-DDTHH:MM:SS, with six digits of microseconds
  or without, and with an offset +HH:MM or -HH:MM or without: the wall-clock time and the offset.
  The other formats that Python accepts are not modelled.
\<close>

definition digits_at :: "nat \<Rightarrow> nat \<Rightarrow> string \<Rightarrow> int option" where
  "digits_at i n s =
     (let d = take n (drop i s)
      in if length d = n \<and> list_all is_digit d then Some (int (read_nat d)) else None)"

definition parse_offset :: "string \<Rightarrow> int option option" where
  "parse_offset s =
     (case s of
        [] \<Rightarrow> Some None
      | c # _ \<Rightarrow>
          (case (digits_at 1 2 s, digits_at 4 2 s) of
             (Some h, Some m) \<Rightarrow>
               if length s = 6 \<and> s ! 3 = CHR '':'' \<and> h < 24 \<and> m < 60
               then (if c = CHR ''+'' then Some (Some ((h * 60 + m) * us_per_minute))
                     else if c = CHR ''-'' then Some (Some (- ((h * 60 + m) * us_per_minute)))
                     else None)
               else None
           | _ \<Rightarrow> None))"

definition parse_date :: "string \<Rightarrow> date option" where
  "parse_date s =
     (case (digits_at 0 4 s, digits_at 5 2 s, digits_at 8 2 s) of
        (Some y, Some m, Some d) \<Rightarrow>
          if length s = 10 \<and> s ! 4 = CHR ''-'' \<and> s ! 7 = CHR ''-'' \<and> 1 \<le> y
             \<and> civil (days_from_civil y m d) = (y, m, d)
          then Some (days_from_civil y m d) else None
      | _ \<Rightarrow> None)"

definition parse_clock :: "string \<Rightarrow> int option" where
  "parse_clock s =
     (case (digits_at 0 2 s, digits_at 3 2 s, digits_at 6 2 s) of
        (Some h, Some m, Some sec) \<Rightarrow>
          if length s = 8 \<and> s ! 2 = CHR '':'' \<and> s ! 5 = CHR '':'' \<and> h < 24 \<and> m < 60 \<and> sec < 60
          then Some (h * 3600 + m * 60 + sec) else None
      | _ \<Rightarrow> None)"

definition from_isoformat :: "string \<Rightarrow> (int \<times> int option) res" where
  "from_isoformat s =
     (let rest = drop 19 s;
          (micros, offset) = (if take 1 rest = ''.'' then (digits_at 1 6 rest, drop 7 rest) else (Some 0, rest))
      in case (parse_date (take 10 s), parse_clock (take 8 (drop 11 s)), micros, parse_offset offset) of
           (Some d, Some c, Some us, Some off) \<Rightarrow>
             if take 1 (drop 10 s) = ''T''
             then Inr (d * us_per_day + c * us_per_second + us, off)
             else Inl (ValueError ''Invalid isoformat string'')
         | _ \<Rightarrow> Inl (ValueError ''Invalid isoformat string''))"

definition ensure_shanghai_datetime :: "string \<Rightarrow> datetime res" where
  "ensure_shanghai_datetime s =
     res_bind (from_isoformat s) (\<lambda>(wall, offset).
       case offset of
         None \<Rightarrow> Inl (ValueError ''checkpoint datetimes must be timezone-aware'')
       | Some off \<Rightarrow> Inr (wall - off + 8 * 60 * us_per_minute))"

lemma digit_char_is_digit: "n < 10 \<Longrightarrow> is_digit (digit_char n)"
  by (simp add: is_digit_def of_char_digit_char)

lemma read_digits:
  "a < 10 \<Longrightarrow> b < 10 \<Longrightarrow> read_nat [digit_char a, digit_char b] = a * 10 + b"
  by (simp add: read_nat_def of_char_digit_char)

lemma foldl_digits:
  "foldl (\<lambda>a c. a * 10 + (of_char c - 48)) (x :: nat) s = x * 10 ^ length s + read_nat s"
  unfolding read_nat_def
proof (induction s arbitrary: x)
  case (Cons c s)
  show ?case
    by (simp add: Cons.IH [of "x * 10 + _"] Cons.IH [of "of_char c - 48"] algebra_simps)
qed simp

lemma read_nat_append: "read_nat (a @ b) = read_nat a * 10 ^ length b + read_nat b"
  by (simp add: read_nat_def foldl_digits [unfolded read_nat_def, symmetric])

definition reads :: "string \<Rightarrow> nat \<Rightarrow> int \<Rightarrow> bool" where
  "reads s n v \<longleftrightarrow> length s = n \<and> list_all is_digit s \<and> int (read_nat s) = v"

lemma reads_pad2: "0 \<le> n \<Longrightarrow> n < 100 \<Longrightarrow> reads (pad2 n) 2 n"
  by (simp add: reads_def pad2_def read_digits digit_char_is_digit nat_div_distrib nat_mod_distrib)

lemma reads_append: "reads a n v \<Longrightarrow> reads b k w \<Longrightarrow> reads (a @ b) (n + k) (v * 10 ^ k + w)"
  by (simp add: reads_def read_nat_append)

lemma reads_pad4: "0 \<le> n \<Longrightarrow> n < 10000 \<Longrightarrow> reads (pad4 n) 4 n"
  using reads_append [OF reads_pad2 reads_pad2, of "n div 100" "n mod 100"] by (simp add: pad4_def)

lemma reads_pad6: "0 \<le> n \<Longrightarrow> n < 1000000 \<Longrightarrow> reads (pad6 n) 6 n"
  using reads_append [OF reads_pad2 reads_pad4, of "n div 10000" "n mod 10000"] by (simp add: pad6_def)

lemma digits_at_reads: "take n (drop i s) = d \<Longrightarrow> reads d n v \<Longrightarrow> digits_at i n s = Some v"
  by (auto simp: digits_at_def reads_def Let_def)

lemma parse_clock_text:
  assumes "0 \<le> h" "h < 24" "0 \<le> m" "m < 60" "0 \<le> x" "x < 60"
  shows "parse_clock (pad2 h @ '':'' @ pad2 m @ '':'' @ pad2 x) = Some (h * 3600 + m * 60 + x)"
proof -
  let ?s = "pad2 h @ '':'' @ pad2 m @ '':'' @ pad2 x"
  have "digits_at 0 2 ?s = Some h" "digits_at 3 2 ?s = Some m" "digits_at 6 2 ?s = Some x"
    using assms by (intro digits_at_reads [OF refl]; simp add: reads_pad2)+
  then show ?thesis
    using assms by (simp add: parse_clock_def nth_append)
qed

lemma parse_date_text:
  assumes "- epoch_days \<le> z" "z < 3652059 - epoch_days"
  shows "parse_date (date_isoformat z) = Some z"
proof -
  obtain y m d where c: "civil z = (y, m, d)" by (cases "civil z") auto
  have y: "1 \<le> y" "y < 10000" using civil_year [OF c assms] by simp_all
  have md: "1 \<le> m" "m \<le> 13" "1 \<le> d" "d \<le> 31" using civil_range [OF c] by simp_all
  let ?s = "pad4 y @ ''-'' @ pad2 m @ ''-'' @ pad2 d"
  have "digits_at 0 4 ?s = Some y" "digits_at 5 2 ?s = Some m" "digits_at 8 2 ?s = Some d"
    using y md by (intro digits_at_reads [OF refl]; simp add: reads_pad2 reads_pad4)+
  then show ?thesis
    using c y days_from_civil_civil [OF c] by (simp add: parse_date_def date_isoformat_def nth_append)
qed

lemma length_date_isoformat [simp]: "length (date_isoformat z) = 10"
  by (simp add: date_isoformat_def split: prod.split)

lemma ensure_shanghai_isoformat:
  assumes "datetime_ok t"
  shows "ensure_shanghai_datetime (isoformat t) = Inr t"
proof -
  let ?s = "time_of t div us_per_second" and ?us = "time_of t mod us_per_second"
  let ?clock = "pad2 (?s div 3600) @ '':'' @ pad2 (?s div 60 mod 60) @ '':'' @ pad2 (?s mod 60)"
  let ?rest = "(if ?us = 0 then '''' else ''.'' @ pad6 ?us) @ ''+08:00''"
  have iso: "isoformat t = date_isoformat (date_of t) @ ''T'' @ ?clock @ ?rest"
    by (simp add: isoformat_def Let_def)
  have tt: "0 \<le> time_of t" "time_of t < 86400000000"
    using time_of_bounds [of t] by (simp_all add: us_defs)
  then have s: "0 \<le> ?s" "?s < 86400" and us: "0 \<le> ?us" "?us < 1000000"
    by (simp_all add: us_defs)
  have clock: "parse_clock ?clock = Some ?s"
  proof -
    have "x div 3600 * 3600 + x div 60 mod 60 * 60 + x mod 60 = x" for x :: int
    proof -
      have "x div 3600 = x div 60 div 60"
        using zdiv_zmult2_eq [of 60 x 60] by simp
      moreover have "x div 60 = 60 * (x div 60 div 60) + x div 60 mod 60" "x = 60 * (x div 60) + x mod 60"
        by simp_all
      ultimately show ?thesis
        by linarith
    qed
    note sum = this [of ?s]
    have h: "0 \<le> x div 3600 \<and> x div 3600 < 24" if "0 \<le> x" "x < 86400" for x :: int
      using that zdiv_mono1 [of x 86399 3600] by (simp add: pos_imp_zdiv_nonneg_iff)
    show ?thesis
      using parse_clock_text [of "?s div 3600" "?s div 60 mod 60" "?s mod 60"] h [OF s]
      by (simp only: sum)
  qed
  have date: "parse_date (date_isoformat (date_of t)) = Some (date_of t)"
    using assms by (simp add: parse_date_text datetime_ok_def)
  have off: "parse_offset ''+08:00'' = Some (Some (8 * 60 * us_per_minute))"
    by (simp add: parse_offset_def digits_at_def is_digit_def read_nat_def)
  have parts: "take 10 (isoformat t) = date_isoformat (date_of t)" "take 1 (drop 10 (isoformat t)) = ''T''"
      "take 8 (drop 11 (isoformat t)) = ?clock" "drop 19 (isoformat t) = ?rest"
    by (simp_all add: iso)
  have micros: "(if take 1 ?rest = ''.'' then (digits_at 1 6 ?rest, drop 7 ?rest) else (Some 0, ?rest))
      = (Some ?us, ''+08:00'')"
    using us by (auto intro!: digits_at_reads [OF refl] simp: reads_pad6)
  have t: "date_of t * us_per_day + ?s * us_per_second + ?us = t"
    by (simp add: date_of_def time_of_def us_defs minus_mod_eq_mult_div)
  show ?thesis
    unfolding ensure_shanghai_datetime_def from_isoformat_def Let_def parts micros clock off date
    by (simp add: t off)
qed

section \<open>Checkpoints\<close>

text \<open>
  The checkpoint file: None when it does not exist, or the JSON value it holds.  The order of the
  keys of a JSON object, which json.dumps sorts, carries no information.
\<close>

type_synonym checkpoint_file = "json option"

definition load_state :: "checkpoint_file \<Rightarrow> (string \<times> json_object) list res" where
  "load_state file =
     (case file of
        None \<Rightarrow> Inr []
      | Some (JDict items) \<Rightarrow> Inr (json_object_mapping (JDict items))
      | Some _ \<Rightarrow> Inl (ValueError ''collector checkpoint file must contain an object''))"

definition next_start_time ::
  "checkpoint_file \<Rightarrow> string \<Rightarrow> string \<Rightarrow> string \<Rightarrow> datetime option res" where
  "next_start_time file exchange symbol timeframe =
     res_bind (load_state file) (\<lambda>state.
       case map_of state (build_bar_stream_key exchange symbol timeframe) of
         None \<Rightarrow> Inr None
       | Some entry \<Rightarrow>
           (case map_of entry ''last_bar_start_time'' of
              Some (JStr text) \<Rightarrow>
                res_bind (ensure_shanghai_datetime text) (\<lambda>t.
                res_map (\<lambda>delta. Some (t + delta)) (timeframe_to_timedelta timeframe))
            | _ \<Rightarrow> Inr None))"

definition checkpoint_entry :: "datetime \<Rightarrow> bar_event \<Rightarrow> json_object" where
  "checkpoint_entry now e =
     [(''exchange'', JStr (be_exchange e)), (''symbol'', JStr (be_symbol e)),
      (''timeframe'', JStr (be_timeframe e)), (''last_bar_key'', JStr (be_bar_key e)),
      (''last_bar_start_time'', JStr (isoformat (be_start e))),
      (''last_bar_end_time'', JStr (isoformat (be_end e))), (''updated_at'', JStr (isoformat now))]"

definition record_checkpoint :: "datetime \<Rightarrow> bar_event \<Rightarrow> checkpoint_file \<Rightarrow> checkpoint_file res" where
  "record_checkpoint now e file =
     res_map (\<lambda>state. Some (objects_json
         (AList.update (build_bar_stream_key (be_exchange e) (be_symbol e) (be_timeframe e))
            (checkpoint_entry now e) state)))
       (load_state file)"

section \<open>The collector\<close>

record collector_config =
  cc_exchange :: string
  cc_symbols :: "string list"
  cc_timeframe :: string
  cc_history_seed_bars :: int

text \<open>
  The gateway: what the n-th call of fetch_historical_bars answers for a symbol, a start time and a
  limit.  The environment of one bar: the identity of its event and the time of its checkpoint.
\<close>

type_synonym historical_gateway =
  "nat \<Rightarrow> string \<Rightarrow> datetime option \<Rightarrow> int option \<Rightarrow> normalized_bar list res"

record collector =
  cl_gate :: final_bar_gate
  cl_file :: checkpoint_file
  cl_fetches :: nat
  cl_ticks :: nat

definition process_bar ::
  "(nat \<Rightarrow> uuid \<times> datetime) \<Rightarrow> normalized_bar \<Rightarrow> (collector, bar_event option) act" where
  "process_bar env b =
     bind_act (reading (\<lambda>c. (cl_gate c, env (cl_ticks c)))) (\<lambda>(gate, fresh, now).
     act_seq (change (\<lambda>c. c\<lparr>cl_ticks := Suc (cl_ticks c)\<rparr>))
    (bind_act (from_res (gate_process gate fresh b)) (\<lambda>(decision, gate').
     act_seq (change (\<lambda>c. c\<lparr>cl_gate := gate'\<rparr>))
      (if bd_status decision \<noteq> Emit then pass None
       else bind_act (reading cl_file) (\<lambda>file.
            bind_act (from_res (record_checkpoint now (bd_event decision) file)) (\<lambda>file'.
            act_seq (change (\<lambda>c. c\<lparr>cl_file := file'\<rparr>)) (pass (Some (bd_event decision)))))))))"

definition keep_event ::
  "(nat \<Rightarrow> uuid \<times> datetime) \<Rightarrow> bar_event list \<Rightarrow> normalized_bar \<Rightarrow> (collector, bar_event list) act" where
  "keep_event env events b =
     bind_act (process_bar env b) (\<lambda>event.
       case event of None \<Rightarrow> pass events | Some e \<Rightarrow> pass (events @ [e]))"

definition backfill_symbol ::
  "collector_config \<Rightarrow> historical_gateway \<Rightarrow> (nat \<Rightarrow> uuid \<times> datetime) \<Rightarrow> bar_event list \<Rightarrow> string
     \<Rightarrow> (collector, bar_event list) act" where
  "backfill_symbol cfg fetch env events symbol =
     bind_act (reading (\<lambda>c. (cl_file c, cl_fetches c))) (\<lambda>(file, n).
     bind_act (from_res (next_start_time file (cc_exchange cfg) symbol (cc_timeframe cfg))) (\<lambda>start_time.
     act_seq (change (\<lambda>c. c\<lparr>cl_fetches := Suc n\<rparr>))
    (bind_act (from_res (fetch n symbol start_time
                 (if start_time = None then Some (cc_history_seed_bars cfg) else None))) (\<lambda>bars.
     act_fold (keep_event env) events bars))))"

definition backfill ::
  "collector_config \<Rightarrow> historical_gateway \<Rightarrow> (nat \<Rightarrow> uuid \<times> datetime) \<Rightarrow> (collector, bar_event list) act" where
  "backfill cfg fetch env = act_fold (backfill_symbol cfg fetch env) [] (cc_symbols cfg)"

text \<open>_backfill_with_retry tries until an attempt succeeds; None when none ever does.\<close>

partial_function (option) backfill_with_retry ::
  "collector_config \<Rightarrow> historical_gateway \<Rightarrow> (nat \<Rightarrow> uuid \<times> datetime) \<Rightarrow> collector
     \<Rightarrow> (bar_event list \<times> collector) option" where
  "backfill_with_retry cfg fetch env c =
     (case backfill cfg fetch env c of
        (Inl e, c') \<Rightarrow> backfill_with_retry cfg fetch env c'
      | (Inr events, c') \<Rightarrow> Some (events, c'))"

text \<open>
  A live session: the bars of the stream until it ends or a bar raises.  Both are logged and
  followed by a pause and a recovery backfill.
\<close>

fun live_session :: "(nat \<Rightarrow> uuid \<times> datetime) \<Rightarrow> normalized_bar list \<Rightarrow> collector \<Rightarrow> bar_event list \<times> collector" where
  "live_session env [] c = ([], c)"
| "live_session env (b # bs) c =
     (case process_bar env b c of
        (Inl e, c') \<Rightarrow> ([], c')
      | (Inr event, c') \<Rightarrow>
          (let (events, c'') = live_session env bs c'
           in (case event of None \<Rightarrow> events | Some e \<Rightarrow> e # events, c'')))"

text \<open>
  collect_actionable_bars: the bootstrap backfill, then sessions that each end in a recovery
  backfill; the events it has yielded after the given live sessions.  A limit cuts the yields off.
\<close>

fun recover_sessions ::
  "collector_config \<Rightarrow> historical_gateway \<Rightarrow> (nat \<Rightarrow> uuid \<times> datetime) \<Rightarrow> normalized_bar list list
     \<Rightarrow> collector \<Rightarrow> (bar_event list \<times> collector) option" where
  "recover_sessions cfg fetch env [] c = Some ([], c)"
| "recover_sessions cfg fetch env (bars # sessions) c =
     (let (live, c1) = live_session env bars c in
      case backfill_with_retry cfg fetch env c1 of
        None \<Rightarrow> None
      | Some (recovered, c2) \<Rightarrow>
          map_option (\<lambda>(events, c3). (live @ recovered @ events, c3))
            (recover_sessions cfg fetch env sessions c2))"

definition collect_actionable_bars ::
  "collector_config \<Rightarrow> historical_gateway \<Rightarrow> (nat \<Rightarrow> uuid \<times> datetime) \<Rightarrow> normalized_bar list list
     \<Rightarrow> collector \<Rightarrow> (bar_event list \<times> collector) option" where
  "collect_actionable_bars cfg fetch env sessions c =
     (case backfill_with_retry cfg fetch env c of
        None \<Rightarrow> None
      | Some (boot, c1) \<Rightarrow>
          map_option (\<lambda>(events, c2). (boot @ events, c2)) (recover_sessions cfg fetch env sessions c1))"

section \<open>What a run delivers\<close>

text \<open>
  From c to c' the collector has handed out these events.  While the gate has room it forgets no
  key, and the keys of the events are among those it has added.
\<close>

definition delivers :: "collector \<Rightarrow> bar_event list \<Rightarrow> collector \<Rightarrow> bool" where
  "delivers c events c' \<longleftrightarrow> (gate_ok (cl_gate c) \<longrightarrow>
     gate_ok (cl_gate c') \<and> fg_capacity (cl_gate c') = fg_capacity (cl_gate c)
     \<and> length (fg_keys (cl_gate c)) \<le> length (fg_keys (cl_gate c'))
     \<and> list_all be_actionable events
     \<and> (length (fg_keys (cl_gate c')) < fg_capacity (cl_gate c) \<longrightarrow>
          (\<exists>ks. fg_keys (cl_gate c') = fg_keys (cl_gate c) @ ks \<and> subseq (map be_bar_key events) ks)))"

lemma delivers_refl [simp]: "delivers c [] c"
  by (auto simp: delivers_def)

lemma delivers_trans: "delivers c xs c1 \<Longrightarrow> delivers c1 ys c2 \<Longrightarrow> delivers c (xs @ ys) c2"
  by (auto simp: delivers_def intro: list_emb_append_mono)

lemma delivers_drop: "delivers c xs c' \<Longrightarrow> delivers c [] c'"
  by (auto simp: delivers_def)

lemma delivers_same_gate: "cl_gate c' = cl_gate c \<Longrightarrow> delivers c [] c'"
  by (auto simp: delivers_def)

lemma delivers_offer:
  assumes "cl_gate c' = snd (final_gate_offer (cl_gate c) e)"
  shows "delivers c (if fst (final_gate_offer (cl_gate c) e) then [e] else []) c'"
proof -
  have "gate_ok (cl_gate c) \<Longrightarrow> length (fg_keys (cl_gate c)) \<le> fg_capacity (cl_gate c) \<and> 0 < fg_capacity (cl_gate c)"
    by (simp add: gate_ok_def)
  then show ?thesis
    using final_gate_offer_simps [of "cl_gate c" e] assms
    by (auto simp: delivers_def Suc_diff_le)
qed

lemma gate_process_offer:
  assumes "gate_process g fresh b = Inr (d, g')"
  shows "g' = snd (final_gate_offer g (bd_event d))"
    and "(bd_status d = Emit) = fst (final_gate_offer g (bd_event d))"
  using assms by (auto simp: gate_process_def final_gate_offer_def process_event_def Let_def split: if_splits)

lemma process_bar_delivers:
  "process_bar env b c = (r, c') \<Longrightarrow>
     delivers c (case r of Inr (Some e) \<Rightarrow> [e] | _ \<Rightarrow> []) c'"
proof -
  assume p: "process_bar env b c = (r, c')"
  obtain fresh now where env: "env (cl_ticks c) = (fresh, now)" by fastforce
  show ?thesis
  proof (cases "gate_process (cl_gate c) fresh b")
    case (Inl f)
    then show ?thesis
      using p env by (auto simp: process_bar_def bind_act_def intro!: delivers_same_gate)
  next
    case (Inr dg)
    obtain d g' where dg: "dg = (d, g')" by fastforce
    have g: "delivers c (if bd_status d = Emit then [bd_event d] else []) x" if "cl_gate x = g'" for x
      using delivers_offer [of x c "bd_event d"] gate_process_offer [OF Inr [unfolded dg]] that by simp
    show ?thesis
      using p env Inr dg g
      by (auto simp: process_bar_def bind_act_def intro!: g delivers_drop [OF g] split: sum.splits if_splits)
  qed
qed

text \<open>An accumulating action adds what it delivers to its argument.\<close>

definition accumulates :: "(bar_event list \<Rightarrow> (collector, bar_event list) act) \<Rightarrow> bool" where
  "accumulates f \<longleftrightarrow> (\<forall>events c r c'. f events c = (r, c') \<longrightarrow>
     (\<exists>new. delivers c new c' \<and> (\<forall>out. r = Inr out \<longrightarrow> out = events @ new)))"

lemma accumulatesE:
  assumes "accumulates f" "f events c = (r, c')"
  obtains new where "delivers c new c'" "\<And>out. r = Inr out \<Longrightarrow> out = events @ new"
proof -
  from assms(1) [unfolded accumulates_def, rule_format, OF assms(2)]
  show thesis using that by blast
qed

lemma accumulates_keep_event: "accumulates (\<lambda>events. keep_event env events b)"
  unfolding accumulates_def
proof (intro allI impI)
  fix events c r c'
  assume k: "keep_event env events b c = (r, c')"
  obtain r1 c1 where p: "process_bar env b c = (r1, c1)" by fastforce
  show "\<exists>new. delivers c new c' \<and> (\<forall>out. r = Inr out \<longrightarrow> out = events @ new)"
    using k p process_bar_delivers [OF p]
    by (auto simp: keep_event_def bind_act_def split: sum.splits option.splits)
qed

lemma accumulates_fold:
  assumes "\<And>x. accumulates (\<lambda>events. f events x)"
  shows "accumulates (\<lambda>events. act_fold f events xs)"
  unfolding accumulates_def
proof (intro allI impI)
  fix events c r c'
  assume "act_fold f events xs c = (r, c')"
  then show "\<exists>new. delivers c new c' \<and> (\<forall>out. r = Inr out \<longrightarrow> out = events @ new)"
  proof (induction xs arbitrary: events c)
    case (Cons x xs)
    obtain r1 c1 where p: "f events x c = (r1, c1)" by fastforce
    obtain new where new: "delivers c new c1" "\<And>out. r1 = Inr out \<Longrightarrow> out = events @ new"
      using accumulatesE [OF assms p] by blast
    show ?case
    proof (cases r1)
      case (Inl e)
      then show ?thesis
        using Cons.prems p new by (auto simp: bind_act_def)
    next
      case (Inr out)
      then show ?thesis
        using Cons.prems p new Cons.IH [of out c1]
        by (auto simp: bind_act_def dest: delivers_trans)
    qed
  qed (auto intro: delivers_refl)
qed

lemma accumulates_backfill_symbol:
  "accumulates (\<lambda>events. backfill_symbol cfg fetch env events symbol)"
  unfolding accumulates_def
proof (intro allI impI)
  fix events r and c c' :: collector
  let ?c1 = "c\<lparr>cl_fetches := Suc (cl_fetches c)\<rparr>"
  assume b: "backfill_symbol cfg fetch env events symbol c = (r, c')"
  have c1: "delivers c [] ?c1" by (simp add: delivers_same_gate)
  have c0: "\<exists>new. delivers c new c" "\<exists>new. delivers c new ?c1"
    using c1 delivers_refl by blast+
  have fold: "accumulates (\<lambda>events. act_fold (keep_event env) events bars)" for bars
    by (intro accumulates_fold accumulates_keep_event)
  show "\<exists>new. delivers c new c' \<and> (\<forall>out. r = Inr out \<longrightarrow> out = events @ new)"
    using b c1 delivers_trans [OF c1] c0
    by (auto simp: backfill_symbol_def bind_act_def elim!: accumulatesE [OF fold] split: sum.splits)
qed

lemma accumulates_backfill: "accumulates (\<lambda>events. act_fold (backfill_symbol cfg fetch env) events symbols)"
  by (intro accumulates_fold accumulates_backfill_symbol)

lemma backfill_delivers:
  "backfill cfg fetch env c = (r, c') \<Longrightarrow> delivers c (case r of Inr events \<Rightarrow> events | Inl _ \<Rightarrow> []) c'"
  unfolding backfill_def
  by (erule accumulatesE [OF accumulates_backfill]) (auto split: sum.split intro: delivers_drop)

lemma backfill_with_retry_delivers:
  "backfill_with_retry cfg fetch env c = Some y \<Longrightarrow> delivers c (fst y) (snd y)"
proof (induction rule: backfill_with_retry.raw_induct
    [where P = "\<lambda>cfg fetch env c y. delivers c (fst y) (snd y)", rotated, consumes 1])
  case (1 retry cfg fetch env c y)
  obtain r c1 where b: "backfill cfg fetch env c = (r, c1)" by fastforce
  show ?case
  proof (cases r)
    case (Inl e)
    then have "retry cfg fetch env c1 = Some y"
      using 1 b by simp
    then have "delivers c1 (fst y) (snd y)"
      using 1 by blast
    then show ?thesis
      using backfill_delivers [OF b] Inl delivers_trans [of c "[]" c1 "fst y" "snd y"] by simp
  next
    case (Inr events)
    then show ?thesis
      using 1 b backfill_delivers [OF b] by auto
  qed
qed

lemma live_session_delivers:
  "live_session env bars c = (events, c') \<Longrightarrow> delivers c events c'"
proof (induction bars arbitrary: c events c')
  case (Cons b bs)
  obtain r c1 where p: "process_bar env b c = (r, c1)" by fastforce
  obtain rest c2 where l: "live_session env bs c1 = (rest, c2)" by fastforce
  show ?case
    using Cons.prems p process_bar_delivers [OF p] l Cons.IH [OF l] delivers_trans
    by (fastforce split: sum.splits option.splits)
qed simp

lemma recover_sessions_delivers:
  "recover_sessions cfg fetch env sessions c = Some (events, c') \<Longrightarrow> delivers c events c'"
proof (induction sessions arbitrary: c events)
  case (Cons bars sessions)
  obtain live c1 where l: "live_session env bars c = (live, c1)" by fastforce
  obtain rec c2 where r: "backfill_with_retry cfg fetch env c1 = Some (rec, c2)"
    using Cons.prems l by (auto split: option.splits)
  obtain rest where rest: "recover_sessions cfg fetch env sessions c2 = Some (rest, c')" "events = live @ rec @ rest"
    using Cons.prems l r by auto
  show ?case
    using delivers_trans [OF live_session_delivers [OF l]
        delivers_trans [OF backfill_with_retry_delivers [OF r] Cons.IH]] rest by simp
qed simp

lemma collect_delivers:
  assumes "collect_actionable_bars cfg fetch env sessions c = Some (events, c')"
  shows "delivers c events c'"
  using assms
  by (auto simp: collect_actionable_bars_def split: option.splits
      dest!: backfill_with_retry_delivers recover_sessions_delivers intro: delivers_trans)

section \<open>What collecting guarantees\<close>

lemma subseq_distinct: "subseq xs ys \<Longrightarrow> distinct ys \<Longrightarrow> distinct xs"
  by (induction rule: list_emb.induct) (auto dest: list_emb_set)

lemma delivers_keys:
  assumes "delivers c events c'" "gate_ok (cl_gate c)" "length (fg_keys (cl_gate c')) < fg_capacity (cl_gate c)"
  shows "list_all be_actionable events" "distinct (map be_bar_key events)"
    "be_bar_key ` set events \<subseteq> set (fg_keys (cl_gate c')) - set (fg_keys (cl_gate c))"
proof -
  obtain ks where ks: "gate_ok (cl_gate c')" "list_all be_actionable events"
      "fg_keys (cl_gate c') = fg_keys (cl_gate c) @ ks" "subseq (map be_bar_key events) ks"
    using assms unfolding delivers_def by blast
  have d: "distinct (fg_keys (cl_gate c) @ ks)"
    using ks(1,3) by (simp add: gate_ok_def)
  have sub: "be_bar_key ` set events \<subseteq> set ks"
    using list_emb_set [OF ks(4)] by (auto simp: subset_iff)
  show "list_all be_actionable events" by (fact ks(2))
  show "distinct (map be_bar_key events)"
    using subseq_distinct [OF ks(4)] d by simp
  show "be_bar_key ` set events \<subseteq> set (fg_keys (cl_gate c')) - set (fg_keys (cl_gate c))"
    using sub d ks(3) by auto
qed

text \<open>
  C34.  Every bar at most once.  Whatever the gateway and the live stream deliver, in whatever order and after whatever
  failures, every bar that is yielded is closed and final, no two of them are the same bar, and none
  was yielded before, as long as the gate has not started to forget keys.
\<close>

theorem collected_at_most_once:
  assumes "collect_actionable_bars cfg fetch env sessions c = Some (events, c')"
    and "gate_ok (cl_gate c)" "length (fg_keys (cl_gate c')) < fg_capacity (cl_gate c)"
  shows "list_all be_actionable events \<and> distinct (map be_bar_key events)
     \<and> be_bar_key ` set events \<inter> set (fg_keys (cl_gate c)) = {}
     \<and> be_bar_key ` set events \<subseteq> set (fg_keys (cl_gate c'))"
  using delivers_keys [OF collect_delivers [OF assms(1)] assms(2,3)] by auto

lemma collect_after_failure:
  "backfill cfg fetch env c = (Inl e, c1) \<Longrightarrow>
     collect_actionable_bars cfg fetch env sessions c = collect_actionable_bars cfg fetch env sessions c1"
  by (simp add: collect_actionable_bars_def backfill_with_retry.simps [of cfg fetch env c])

text \<open>
  C35.  when an attempt of the first backfill fails, the bars that it had already accepted from the
  symbols before are never yielded: they are in the gate and in the checkpoint file, so the attempts
  that follow take them for duplicates.
\<close>

theorem failed_backfill_loses_bars:
  assumes "backfill cfg fetch env c = (Inl e, c1)" "gate_ok (cl_gate c)"
    and "collect_actionable_bars cfg fetch env sessions c = Some (events, c')"
    and "length (fg_keys (cl_gate c')) < fg_capacity (cl_gate c)"
  shows "be_bar_key ` set events \<inter> set (fg_keys (cl_gate c1)) = {}"
proof -
  have c1: "gate_ok (cl_gate c1)" "fg_capacity (cl_gate c1) = fg_capacity (cl_gate c)"
    using backfill_delivers [OF assms(1)] assms(2) by (simp_all add: delivers_def)
  show ?thesis
    using delivers_keys(3) [OF collect_delivers [OF assms(3) [unfolded collect_after_failure [OF assms(1)]]] c1(1)]
      assms(4) c1(2) by auto
qed

section \<open>What the checkpoint keeps\<close>

lemma load_state_objects: "load_state (Some (objects_json m)) = Inr m"
  using json_object_mapping_objects [of m] by (simp add: load_state_def objects_json_def)

lemma start_time_entry: "map_of (checkpoint_entry now e) ''last_bar_start_time'' = Some (JStr (isoformat (be_start e)))"
  by (simp add: checkpoint_entry_def)

text \<open>
  C36.  after a checkpoint of a bar, the next backfill of its stream starts right after it, one
  timeframe later, and the backfills of the other streams start where they did.
\<close>

theorem checkpoint_resumes_after_last_bar:
  assumes "record_checkpoint now e file = Inr file'" "datetime_ok (be_start e)"
  shows "next_start_time file' (be_exchange e) (be_symbol e) (be_timeframe e)
       = res_map (\<lambda>delta. Some (be_start e + delta)) (timeframe_to_timedelta (be_timeframe e))
     \<and> (\<forall>exchange symbol timeframe. build_bar_stream_key exchange symbol timeframe \<noteq> be_stream_key e \<longrightarrow>
       next_start_time file' exchange symbol timeframe = next_start_time file exchange symbol timeframe)"
proof (intro conjI allI impI)
  obtain state where s: "load_state file = Inr state" "file' = Some (objects_json
      (AList.update (be_stream_key e) (checkpoint_entry now e) state))"
    using assms(1) by (cases "load_state file") (auto simp: record_checkpoint_def be_stream_key_def)
  show "next_start_time file' (be_exchange e) (be_symbol e) (be_timeframe e)
       = res_map (\<lambda>delta. Some (be_start e + delta)) (timeframe_to_timedelta (be_timeframe e))"
    by (simp add: next_start_time_def s(2) load_state_objects update_conv' be_stream_key_def
        start_time_entry ensure_shanghai_isoformat [OF assms(2)])
  fix exchange symbol timeframe
  assume "build_bar_stream_key exchange symbol timeframe \<noteq> be_stream_key e"
  then show "next_start_time file' exchange symbol timeframe = next_start_time file exchange symbol timeframe"
    by (simp add: next_start_time_def s load_state_objects update_conv')
qed

section \<open>Witnesses\<close>

definition sample_collector :: collector where
  "sample_collector = \<lparr>cl_gate = \<lparr>fg_capacity = 10, fg_keys = [], fg_lookup = {}, fg_last = Map.empty\<rparr>,
     cl_file = None, cl_fetches = 0, cl_ticks = 0\<rparr>"

definition sample_env :: "nat \<Rightarrow> uuid \<times> datetime" where
  "sample_env n = (1, 0)"

definition two_symbols :: collector_config where
  "two_symbols = \<lparr>cc_exchange = ''cn_equity'', cc_symbols = [''600036.SH'', ''000001.SZ''],
     cc_timeframe = ''15m'', cc_history_seed_bars = 200\<rparr>"

definition quarter_bar :: "string \<Rightarrow> normalized_bar" where
  "quarter_bar symbol =
     \<lparr>nb_exchange = ''cn_equity'', nb_symbol = symbol, nb_timeframe = ''15m'',
      nb_start = 0, nb_end = 15 * us_per_minute, nb_ingest = 15 * us_per_minute,
      nb_open = 39, nb_high = 40, nb_low = 38, nb_close = 3950 / 100, nb_volume = 1000,
      nb_quote_volume = None, nb_trade_count = None, nb_closed = True, nb_final = True,
      nb_source_kind = Realtime, nb_market_state = None, nb_payload = JNull\<rparr>"

text \<open>The second fetch fails; every other fetch answers the bar of its symbol.\<close>

definition flaky_gateway :: historical_gateway where
  "flaky_gateway n symbol start_time max_bars =
     (if n = 1 then Inl (ExternalError ''timeout'') else Inr [quarter_bar symbol])"

definition flaky_run :: "bool \<times> nat \<times> string list \<times> string list" where
  "flaky_run =
     (let (failed, c1) = backfill two_symbols flaky_gateway sample_env sample_collector
      in case backfill two_symbols flaky_gateway sample_env c1 of
           (Inr events, c2) \<Rightarrow> (failed = Inl (ExternalError ''timeout''), length (fg_keys (cl_gate c2)),
              map be_bar_key events, fg_keys (cl_gate c1))
         | _ \<Rightarrow> (False, 0, [], []))"

lemma flaky_keys:
  "flaky_run = (True, 2, [''cn_equity:000001.SZ:15m:1970-01-01T00:00:00+08:00''],
     [''cn_equity:600036.SH:15m:1970-01-01T00:00:00+08:00''])"
  by code_simp

lemma flaky_collect:
  obtains c1 events c2 where
    "backfill two_symbols flaky_gateway sample_env sample_collector = (Inl (ExternalError ''timeout''), c1)"
    "collect_actionable_bars two_symbols flaky_gateway sample_env [] sample_collector = Some (events, c2)"
    "length (fg_keys (cl_gate c2)) = 2"
    "map be_bar_key events = [''cn_equity:000001.SZ:15m:1970-01-01T00:00:00+08:00'']"
    "fg_keys (cl_gate c1) = [''cn_equity:600036.SH:15m:1970-01-01T00:00:00+08:00'']"
proof -
  obtain r1 c1 where b1: "backfill two_symbols flaky_gateway sample_env sample_collector = (r1, c1)" by fastforce
  obtain r2 c2 where b2: "backfill two_symbols flaky_gateway sample_env c1 = (r2, c2)" by fastforce
  have "r1 = Inl (ExternalError ''timeout'')" and r2: "\<exists>events. r2 = Inr events"
    using flaky_keys b1 b2 by (auto simp: flaky_run_def split: sum.splits)
  then obtain events where "r2 = Inr events" by blast
  with flaky_keys b1 b2 \<open>r1 = _\<close> show thesis
    by (intro that [of c1 events c2])
      (simp_all add: flaky_run_def collect_actionable_bars_def
        backfill_with_retry.simps [of _ _ _ sample_collector] backfill_with_retry.simps [of _ _ _ c1])
qed

lemma sample_collector_ok: "gate_ok (cl_gate sample_collector)" "fg_capacity (cl_gate sample_collector) = 10"
  by (simp_all add: sample_collector_def gate_ok_def)

theorem collected_at_most_once_witness:
  "\<exists>events c'. collect_actionable_bars two_symbols flaky_gateway sample_env [] sample_collector = Some (events, c')
     \<and> events \<noteq> [] \<and> list_all be_actionable events"
proof -
  obtain events c2 where c: "collect_actionable_bars two_symbols flaky_gateway sample_env [] sample_collector = Some (events, c2)"
      "length (fg_keys (cl_gate c2)) = 2" "events \<noteq> []"
    using flaky_collect by (metis list.simps(8) not_Cons_self2)
  then have "list_all be_actionable events"
    using collected_at_most_once [OF c(1)] by (simp add: sample_collector_ok)
  with c show ?thesis by blast
qed

theorem failed_backfill_loses_bars_witness:
  "\<exists>c1 events c2. backfill two_symbols flaky_gateway sample_env sample_collector = (Inl (ExternalError ''timeout''), c1)
     \<and> fg_keys (cl_gate c1) = [''cn_equity:600036.SH:15m:1970-01-01T00:00:00+08:00'']
     \<and> collect_actionable_bars two_symbols flaky_gateway sample_env [] sample_collector = Some (events, c2)
     \<and> be_bar_key ` set events \<inter> set (fg_keys (cl_gate c1)) = {}"
proof -
  obtain c1 events c2 where c:
      "backfill two_symbols flaky_gateway sample_env sample_collector = (Inl (ExternalError ''timeout''), c1)"
      "collect_actionable_bars two_symbols flaky_gateway sample_env [] sample_collector = Some (events, c2)"
      "length (fg_keys (cl_gate c2)) = 2"
      "fg_keys (cl_gate c1) = [''cn_equity:600036.SH:15m:1970-01-01T00:00:00+08:00'']"
    using flaky_collect by metis
  then have "be_bar_key ` set events \<inter> set (fg_keys (cl_gate c1)) = {}"
    using failed_backfill_loses_bars [OF c(1) _ c(2)] by (simp add: sample_collector_ok)
  with c show ?thesis by blast
qed

theorem checkpoint_resumes_after_last_bar_witness:
  "\<exists>file'. record_checkpoint 0 (sample_bar 0 True) None = Inr file'
     \<and> next_start_time file' ''cn_equity'' ''600036.SH'' ''15m'' = Inr (Some (15 * us_per_minute))"
proof -
  obtain file' where f: "record_checkpoint 0 (sample_bar 0 True) None = Inr file'"
    by (simp add: record_checkpoint_def load_state_def)
  have s: "be_exchange (sample_bar 0 True) = ''cn_equity''" "be_symbol (sample_bar 0 True) = ''600036.SH''"
      "be_timeframe (sample_bar 0 True) = ''15m''" "be_start (sample_bar 0 True) = 0"
    by (simp_all add: sample_bar_def)
  have "datetime_ok 0" by code_simp
  moreover have "timeframe_to_timedelta ''15m'' = Inr (15 * us_per_minute)" by code_simp
  ultimately show ?thesis
    using checkpoint_resumes_after_last_bar [OF f] f by (simp add: s)
qed

end
