(* ===== verification/Observability.thy ===== *)
theory Observability
  imports Calendar "HOL-Library.Sublist"
begin

text \<open>
  Alert delivery and repeated occurrences: src/src/infra/observability/service.py.  An event is its
  name, severity, scope and reason code (the message and the details map are left out).  A sink is an
  argument: whether the n-th send through it succeeds.
\<close>

section \<open>Events and the alert router\<close>

record observed_event =
  oe_name :: string
  oe_severity :: string
  oe_account :: "string option"
  oe_symbol :: "string option"
  oe_reason_code :: "string option"

definition or_dash :: "string option \<Rightarrow> string" where
  "or_dash x = (case x of None \<Rightarrow> ''-'' | Some s \<Rightarrow> if s = [] then ''-'' else s)"

definition cooldown_key :: "observed_event \<Rightarrow> string" where
  "cooldown_key e = oe_name e @ ''|'' @ or_dash (oe_account e) @ ''|'' @ or_dash (oe_symbol e)
     @ ''|'' @ or_dash (oe_reason_code e)"

record alert_router =
  ar_sinks :: "(nat \<Rightarrow> bool) list"
  ar_cooldown :: int
  ar_last_sent :: "string \<Rightarrow> datetime option"
  ar_sent :: nat

record dispatch_result =
  dr_attempted :: bool
  dr_delivered :: bool
  dr_suppressed :: bool
  dr_failures :: nat

definition new_alert_router :: "(nat \<Rightarrow> bool) list \<Rightarrow> int \<Rightarrow> alert_router" where
  "new_alert_router sinks cooldown_seconds =
     \<lparr>ar_sinks = sinks, ar_cooldown = cooldown_seconds * us_per_second, ar_last_sent = Map.empty, ar_sent = 0\<rparr>"

text \<open>An alert of the same key was delivered less than the cooldown before now.\<close>

definition in_cooldown :: "alert_router \<Rightarrow> observed_event \<Rightarrow> datetime \<Rightarrow> bool" where
  "in_cooldown r e now =
     (case ar_last_sent r (cooldown_key e) of None \<Rightarrow> False | Some t \<Rightarrow> now - t < ar_cooldown r)"

definition dispatch ::
  "observed_event \<Rightarrow> bool \<Rightarrow> datetime \<Rightarrow> alert_router \<Rightarrow> dispatch_result \<times> alert_router" where
  "dispatch e bypass_cooldown now r =
     (if ar_sinks r = []
      then (\<lparr>dr_attempted = False, dr_delivered = False, dr_suppressed = False, dr_failures = 0\<rparr>, r)
      else if \<not> bypass_cooldown \<and> in_cooldown r e now
      then (\<lparr>dr_attempted = True, dr_delivered = False, dr_suppressed = True, dr_failures = 0\<rparr>, r)
      else
        let sends = map (\<lambda>sink. sink (ar_sent r)) (ar_sinks r);
            delivered = list_ex (\<lambda>ok. ok) sends;
            r' = r\<lparr>ar_sent := Suc (ar_sent r)\<rparr>
        in (\<lparr>dr_attempted = True, dr_delivered = delivered, dr_suppressed = False,
             dr_failures = length (filter (\<lambda>ok. \<not> ok) sends)\<rparr>,
            if delivered \<and> \<not> bypass_cooldown
            then r'\<lparr>ar_last_sent := (ar_last_sent r)(cooldown_key e \<mapsto> now)\<rparr> else r'))"

section \<open>Occurrences in a rolling window\<close>

type_synonym series_windows = "string \<Rightarrow> datetime list"

definition count_occurrence ::
  "string \<Rightarrow> int \<Rightarrow> datetime \<Rightarrow> series_windows \<Rightarrow> nat \<times> series_windows" where
  "count_occurrence series_key window_seconds observed_at windows =
     (let entries = dropWhile (\<lambda>t. window_seconds * us_per_second < observed_at - t)
                      (windows series_key @ [observed_at])
      in (length entries, windows(series_key := entries)))"

section \<open>Severities\<close>

definition severity_for_event :: "string \<Rightarrow> string" where
  "severity_for_event event_type =
     (if event_type = ''oms.risk_rejected'' then ''warning''
      else if sublist ''failed'' event_type then ''error'' else ''info'')"

section \<open>What the cooldown promises\<close>

text \<open>A run of the router over alerts that do not bypass the cooldown: the delivered ones.\<close>

fun deliveries :: "alert_router \<Rightarrow> (observed_event \<times> datetime) list \<Rightarrow> (observed_event \<times> datetime) list" where
  "deliveries r [] = []"
| "deliveries r ((e, now) # rest) =
     (let (res, r') = dispatch e False now r
      in if dr_delivered res then (e, now) # deliveries r' rest else deliveries r' rest)"

definition quiet_since :: "alert_router \<Rightarrow> (observed_event \<times> datetime) list \<Rightarrow> bool" where
  "quiet_since r xs \<longleftrightarrow> (\<forall>(e, now) \<in> set xs. \<not> in_cooldown r e now)"

definition spaced :: "int \<Rightarrow> (observed_event \<times> datetime) list \<Rightarrow> bool" where
  "spaced gap = sorted_wrt (\<lambda>(e, t) (f, u). cooldown_key e = cooldown_key f \<longrightarrow> gap \<le> u - t)"

lemma dispatch_ok:
  assumes "dispatch e False now r = (res, r')"
  shows "ar_cooldown r' = ar_cooldown r"
    and "ar_last_sent r' = (if dr_delivered res then (ar_last_sent r)(cooldown_key e \<mapsto> now) else ar_last_sent r)"
    and "dr_delivered res \<Longrightarrow> \<not> in_cooldown r e now"
  using assms by (auto simp: dispatch_def Let_def split: if_splits)

lemma deliveries_times: "set (deliveries r xs) \<subseteq> set xs"
proof (induction xs arbitrary: r)
  case (Cons x xs)
  then show ?case
    by (cases x) (auto split: prod.splits if_splits)
qed simp

lemma deliveries_quiet:
  assumes "sorted (map snd xs)" "\<forall>k t. ar_last_sent r k = Some t \<longrightarrow> (\<forall>x \<in> set xs. t \<le> snd x)" "0 \<le> ar_cooldown r"
  shows "quiet_since r (deliveries r xs) \<and> spaced (ar_cooldown r) (deliveries r xs)"
  using assms
proof (induction xs arbitrary: r)
  case (Cons x xs)
  obtain e now where x: "x = (e, now)" by fastforce
  obtain res r' where d: "dispatch e False now r = (res, r')" by fastforce
  note ok = dispatch_ok [OF d]
  have IH: "quiet_since r' (deliveries r' xs) \<and> spaced (ar_cooldown r) (deliveries r' xs)"
    using Cons.IH [of r'] Cons.prems ok x by (auto split: if_splits)
  have later: "\<And>f u. (f, u) \<in> set (deliveries r' xs) \<Longrightarrow> now \<le> u"
    using deliveries_times [of r' xs] Cons.prems(1) x by fastforce
  show ?case
  proof (cases "dr_delivered res")
    case False
    then have "in_cooldown r' = in_cooldown r"
      using ok by (simp add: in_cooldown_def fun_eq_iff split: option.split)
    then have "quiet_since r (deliveries r' xs)"
      using IH by (simp add: quiet_since_def)
    then show ?thesis
      using False IH x d by simp
  next
    case True
    then have q: "ar_last_sent r' = (ar_last_sent r)(cooldown_key e \<mapsto> now)"
      using ok by simp
    have "\<not> in_cooldown r f u \<and> (cooldown_key e = cooldown_key f \<longrightarrow> ar_cooldown r \<le> u - now)"
      if f: "(f, u) \<in> set (deliveries r' xs)" for f u
    proof (cases "cooldown_key f = cooldown_key e")
      case same: True
      have "ar_cooldown r \<le> u - now"
        using IH f same q ok(1) by (auto simp: quiet_since_def in_cooldown_def)
      moreover have "\<forall>t. ar_last_sent r (cooldown_key e) = Some t \<longrightarrow> t \<le> now"
        using Cons.prems(2) x by auto
      ultimately show ?thesis
        using same by (auto simp: in_cooldown_def split: option.splits)
    next
      case False
      then have "in_cooldown r' f u = in_cooldown r f u"
        using q ok(1) by (simp add: in_cooldown_def split: option.split)
      then show ?thesis
        using IH f False by (auto simp: quiet_since_def)
    qed
    moreover have "\<not> in_cooldown r e now"
      using ok(3) [OF True] .
    ultimately show ?thesis
      using True IH x d by (auto simp: quiet_since_def spaced_def)
  qed
qed (simp add: quiet_since_def spaced_def)

text \<open>The count is the number of observations of the window, the present one included.\<close>

definition observe_all :: "string \<Rightarrow> int \<Rightarrow> datetime list \<Rightarrow> series_windows \<Rightarrow> series_windows" where
  "observe_all k w ts windows = foldl (\<lambda>ws t. snd (count_occurrence k w t ws)) windows ts"

lemma dropWhile_sorted:
  "sorted xs \<Longrightarrow> dropWhile (\<lambda>t. c < (now :: int) - t) xs = filter (\<lambda>t. now - t \<le> c) xs"
proof (induction xs)
  case (Cons x xs)
  then show ?case
    by (cases "c < now - x") (auto simp: not_less intro!: filter_True [symmetric])
qed simp

lemma observed_window:
  assumes "sorted ts" "windows k = []" "0 \<le> w"
  shows "observe_all k w ts windows k =
    (if ts = [] then [] else filter (\<lambda>t. last ts - t \<le> w * us_per_second) ts)"
  using assms(1)
proof (induction ts rule: rev_induct)
  case Nil
  then show ?case
    using assms(2) by (simp add: observe_all_def)
next
  case (snoc t ts)
  have s: "sorted ts" "\<forall>x \<in> set ts. x \<le> t"
    using snoc.prems by (auto simp: sorted_append)
  let ?old = "observe_all k w ts windows k"
  have old: "?old = (if ts = [] then [] else filter (\<lambda>x. last ts - x \<le> w * us_per_second) ts)"
    using snoc.IH s(1) by simp
  have "sorted (?old @ [t])"
    using s by (auto simp: old sorted_append intro: sorted_filter [of id, simplified])
  then have "observe_all k w (ts @ [t]) windows k = filter (\<lambda>x. t - x \<le> w * us_per_second) (?old @ [t])"
    by (simp add: observe_all_def count_occurrence_def Let_def dropWhile_sorted)
  also have "filter (\<lambda>x. t - x \<le> w * us_per_second) ?old = filter (\<lambda>x. t - x \<le> w * us_per_second) ts"
  proof (cases "ts = []")
    case False
    then have "last ts \<le> t"
      using s by simp
    then show ?thesis
      using False by (auto simp: old intro!: filter_cong)
  qed (simp add: observe_all_def assms(2))
  ultimately show ?case
    by simp
qed

text \<open>With a sink that works, an alert that is not delivered is covered by one that was.\<close>

lemma dispatch_covers:
  assumes "dispatch e False now r = (res, r')" "\<forall>n. list_ex (\<lambda>sink. sink n) (ar_sinks r)" "\<not> dr_delivered res"
  shows "in_cooldown r e now"
proof -
  have "list_ex (\<lambda>ok. ok) (map (\<lambda>sink. sink (ar_sent r)) (ar_sinks r))" "ar_sinks r \<noteq> []"
    using assms(2) [rule_format, of "ar_sent r"] by (auto simp: list_ex_iff)
  then show ?thesis
    using assms(1,3) by (auto simp: dispatch_def Let_def split: if_splits)
qed

lemma dispatch_sinks: "dispatch e False now r = (res, r') \<Longrightarrow> ar_sinks r' = ar_sinks r"
  by (auto simp: dispatch_def Let_def split: if_splits)

lemma deliveries_cover:
  assumes "\<forall>n. list_ex (\<lambda>sink. sink n) (ar_sinks r)" "(e, now) \<in> set xs"
  shows "in_cooldown r e now \<or> (\<exists>(f, t) \<in> set (deliveries r xs).
           cooldown_key f = cooldown_key e \<and> (t = now \<or> now - t < ar_cooldown r))"
  using assms
proof (induction xs arbitrary: r)
  case (Cons x xs)
  obtain g t where x: "x = (g, t)" by fastforce
  obtain res r' where d: "dispatch g False t r = (res, r')" by fastforce
  note ok = dispatch_ok [OF d] and cov = dispatch_covers [OF d Cons.prems(1)]
  show ?case
  proof (cases "(e, now) = x")
    case True
    then show ?thesis
      using x d cov by (cases "dr_delivered res") auto
  next
    case False
    then have "(e, now) \<in> set xs" "\<forall>n. list_ex (\<lambda>sink. sink n) (ar_sinks r')"
      using Cons.prems dispatch_sinks [OF d] by auto
    then consider "in_cooldown r' e now" | f u where "(f, u) \<in> set (deliveries r' xs)"
        "cooldown_key f = cooldown_key e" "u = now \<or> now - u < ar_cooldown r"
      using Cons.IH [of r'] ok(1) by fastforce
    then show ?thesis
    proof cases
      case 1
      then have "in_cooldown r e now \<or> dr_delivered res \<and> cooldown_key g = cooldown_key e \<and> now - t < ar_cooldown r"
        using ok(1,2) by (auto simp: in_cooldown_def split: option.splits if_splits)
      then show ?thesis
        using x d by auto
    next
      case 2
      then show ?thesis
        using x d by (cases "dr_delivered res") auto
    qed
  qed
qed simp

section \<open>Properties\<close>

text \<open>
  C37.  in a stream of alerts that do not bypass the cooldown, two delivered alerts of the same key are
  at least the cooldown apart, and with a sink that works every alert is delivered or follows a
  delivered one of its key within the cooldown.
\<close>

theorem alerts_respect_cooldown:
  assumes "sorted (map snd xs)" "0 \<le> cooldown_seconds" "\<forall>n. list_ex (\<lambda>sink. sink n) sinks"
  shows "spaced (cooldown_seconds * us_per_second) (deliveries (new_alert_router sinks cooldown_seconds) xs)
     \<and> (\<forall>(e, now) \<in> set xs. \<exists>(f, t) \<in> set (deliveries (new_alert_router sinks cooldown_seconds) xs).
           cooldown_key f = cooldown_key e \<and> (t = now \<or> now - t < cooldown_seconds * us_per_second))"
proof
  let ?r = "new_alert_router sinks cooldown_seconds"
  have r: "ar_cooldown ?r = cooldown_seconds * us_per_second" "ar_sinks ?r = sinks" "ar_last_sent ?r = Map.empty"
    by (simp_all add: new_alert_router_def)
  have "0 \<le> ar_cooldown ?r"
    using assms(2) by (simp add: r us_defs)
  then show "spaced (cooldown_seconds * us_per_second) (deliveries ?r xs)"
    using deliveries_quiet [of xs ?r] assms(1) by (simp add: r)
  show "\<forall>(e, now) \<in> set xs. \<exists>(f, t) \<in> set (deliveries ?r xs).
           cooldown_key f = cooldown_key e \<and> (t = now \<or> now - t < cooldown_seconds * us_per_second)"
    using deliveries_cover [of ?r] assms(3) by (fastforce simp: r in_cooldown_def)
qed

definition sample_alert :: "string \<Rightarrow> observed_event" where
  "sample_alert name = \<lparr>oe_name = name, oe_severity = ''warning'', oe_account = Some ''paper_account_001'',
     oe_symbol = None, oe_reason_code = Some ''MARKET_DATA_STALE''\<rparr>"

definition sample_alerts :: "(observed_event \<times> datetime) list" where
  "sample_alerts = [(sample_alert ''a'', 0), (sample_alert ''b'', us_per_second),
     (sample_alert ''a'', 299 * us_per_second), (sample_alert ''a'', 300 * us_per_second)]"

theorem alerts_respect_cooldown_witness:
  "spaced (300 * us_per_second) (deliveries (new_alert_router [\<lambda>n. False, \<lambda>n. True] 300) sample_alerts)
   \<and> map snd (deliveries (new_alert_router [\<lambda>n. False, \<lambda>n. True] 300) sample_alerts)
       = [0, us_per_second, 300 * us_per_second]"
proof
  show "spaced (300 * us_per_second) (deliveries (new_alert_router [\<lambda>n. False, \<lambda>n. True] 300) sample_alerts)"
    using alerts_respect_cooldown [of sample_alerts 300 "[\<lambda>n. False, \<lambda>n. True]"]
    by (simp add: sample_alerts_def us_defs)
  show "map snd (deliveries (new_alert_router [\<lambda>n. False, \<lambda>n. True] 300) sample_alerts)
      = [0, us_per_second, 300 * us_per_second]"
    by code_simp
qed

end
