(* ===== verification/Repositories.thy ===== *)
theory Repositories
  imports Orders Signals Portfolio Samples Effects "HOL-Library.Char_ord" "HOL-Library.List_Lexorder" "HOL-Library.Sublist"
begin

text \<open>
  The trading tables and their repositories: src/src/infra/db/repositories.py, models.py and
  audit.py.  A table is the list of its rows in insertion order, a row the domain object it was
  written from, with its decimals as the columns keep them: num maps a decimal to what a
  Numeric(28, 10) column of the database returns for it, conf likewise for Numeric(12, 6).  Every
  save is one session: it returns the object and the tables afterwards, or raises and leaves them.
  The payload of an event-log entry is not modelled.
\<close>

section \<open>Tables\<close>

record event_log =
  evl_id :: uuid
  evl_event_id :: uuid
  evl_type :: string
  evl_source :: string
  evl_run_id :: uuid
  evl_account :: "string option"
  evl_exchange :: "string option"
  evl_symbol :: "string option"
  evl_related_type :: "string option"
  evl_related_id :: "uuid option"
  evl_event_time :: datetime
  evl_ingest_time :: datetime
  evl_created_at :: datetime

definition normalize_event_log :: "event_log \<Rightarrow> event_log" where
  "normalize_event_log e =
     e\<lparr>evl_type := trim (evl_type e), evl_source := trim (evl_source e),
       evl_account := map_option trim (evl_account e), evl_exchange := map_option trim (evl_exchange e),
       evl_symbol := map_option trim (evl_symbol e),
       evl_related_type := map_option trim (evl_related_type e)\<rparr>"

definition event_log_rules :: "event_log \<Rightarrow> (bool \<times> fault) list" where
  "event_log_rules e =
     [(evl_type e = [], ValidationError ''event_type''),
      (evl_source e = [], ValidationError ''source''),
      (evl_account e = Some [], ValidationError ''account_id''),
      (evl_exchange e = Some [], ValidationError ''exchange''),
      (evl_symbol e = Some [], ValidationError ''symbol''),
      (evl_related_type e = Some [], ValidationError ''related_object_type''),
      (evl_ingest_time e < evl_event_time e,
         ValidationError ''ingest_time cannot be earlier than event_time''),
      (evl_created_at e < evl_ingest_time e,
         ValidationError ''created_at cannot be earlier than ingest_time'')]"

definition make_event_log :: "event_log \<Rightarrow> event_log res" where
  "make_event_log e =
     (let e = normalize_event_log e in res_bind (checks (event_log_rules e)) (\<lambda>_. Inr e))"

record tables =
  tb_signals :: "signal list"
  tb_intents :: "order_intent list"
  tb_orders :: "order list"
  tb_fills :: "fill list"
  tb_positions :: "position list"
  tb_balances :: "balance_snapshot list"
  tb_events :: "event_log list"

definition empty_tables :: tables where
  "empty_tables =
     \<lparr>tb_signals = [], tb_intents = [], tb_orders = [], tb_fills = [], tb_positions = [],
      tb_balances = [], tb_events = []\<rparr>"

record columns =
  num :: "rat \<Rightarrow> rat"
  conf :: "rat \<Rightarrow> rat"

definition store_signal :: "columns \<Rightarrow> signal \<Rightarrow> signal" where
  "store_signal q s =
     s\<lparr>sig_target := num q (sig_target s), sig_confidence := map_option (conf q) (sig_confidence s)\<rparr>"

definition store_intent :: "columns \<Rightarrow> order_intent \<Rightarrow> order_intent" where
  "store_intent q i =
     i\<lparr>int_qty := num q (int_qty i), int_price := map_option (num q) (int_price i),
       int_decision_price := map_option (num q) (int_decision_price i)\<rparr>"

definition store_order :: "columns \<Rightarrow> order \<Rightarrow> order" where
  "store_order q r =
     r\<lparr>ord_qty := num q (ord_qty r), ord_price := map_option (num q) (ord_price r),
       ord_filled_qty := num q (ord_filled_qty r),
       ord_avg_fill_price := map_option (num q) (ord_avg_fill_price r)\<rparr>"

definition store_fill :: "columns \<Rightarrow> fill \<Rightarrow> fill" where
  "store_fill q f =
     f\<lparr>fill_qty := num q (fill_qty f), fill_price := num q (fill_price f), fill_fee := num q (fill_fee f)\<rparr>"

definition store_position :: "columns \<Rightarrow> position \<Rightarrow> position" where
  "store_position q p =
     p\<lparr>pos_qty := num q (pos_qty p), pos_sellable_qty := num q (pos_sellable_qty p),
       pos_avg_entry_price := map_option (num q) (pos_avg_entry_price p),
       pos_mark_price := map_option (num q) (pos_mark_price p),
       pos_unrealized_pnl := num q (pos_unrealized_pnl p), pos_realized_pnl := num q (pos_realized_pnl p)\<rparr>"

definition store_balance :: "columns \<Rightarrow> balance_snapshot \<Rightarrow> balance_snapshot" where
  "store_balance q b =
     b\<lparr>bal_total := num q (bal_total b), bal_available := num q (bal_available b),
       bal_locked := num q (bal_locked b)\<rparr>"

section \<open>Rows\<close>

text \<open>The row of a query that finds at most one, and the rewriting of the rows it selects.\<close>

definition find_row :: "('a \<Rightarrow> bool) \<Rightarrow> 'a list \<Rightarrow> 'a option" where
  "find_row P rows = List.find P rows"

definition rewrite_rows :: "('a \<Rightarrow> bool) \<Rightarrow> 'a \<Rightarrow> 'a list \<Rightarrow> 'a list" where
  "rewrite_rows P row rows = map (\<lambda>r. if P r then row else r) rows"

text \<open>A constraint of the tables: a violated one fails the flush.\<close>

definition constraint :: "bool \<Rightarrow> string \<Rightarrow> unit res" where
  "constraint ok name = (if ok then Inr () else Inl (ExternalError name))"

abbreviation has_row :: "('a \<Rightarrow> bool) \<Rightarrow> 'a list \<Rightarrow> bool" where
  "has_row P rows \<equiv> list_ex P rows"

section \<open>The repositories\<close>

definition signals_save :: "columns \<Rightarrow> signal \<Rightarrow> tables \<Rightarrow> (signal \<times> tables) res" where
  "signals_save q s db =
     (case find_row (\<lambda>r. sig_id r = sig_id s) (tb_signals db) of
        Some existing \<Rightarrow> res_map (\<lambda>s. (s, db)) (make_signal existing)
      | None \<Rightarrow> res_map (\<lambda>s'. (s', db\<lparr>tb_signals := tb_signals db @ [store_signal q s]\<rparr>)) (make_signal s))"

definition intents_save :: "columns \<Rightarrow> order_intent \<Rightarrow> tables \<Rightarrow> (order_intent \<times> tables) res" where
  "intents_save q i db =
     (case (case find_row (\<lambda>r. int_id r = int_id i) (tb_intents db) of
              Some r \<Rightarrow> Some r
            | None \<Rightarrow> find_row (\<lambda>r. int_idempotency_key r = int_idempotency_key i) (tb_intents db)) of
        None \<Rightarrow>
          res_bind (constraint (has_row (\<lambda>s. sig_id s = int_signal_id i) (tb_signals db)) ''signals.id'') (\<lambda>_.
          res_map (\<lambda>i'. (i', db\<lparr>tb_intents := tb_intents db @ [store_intent q i]\<rparr>)) (make_order_intent i))
      | Some existing \<Rightarrow>
          if int_id existing \<noteq> int_id i then res_map (\<lambda>i'. (i', db)) (make_order_intent existing)
          else
            res_bind (constraint (has_row (\<lambda>s. sig_id s = int_signal_id i) (tb_signals db)) ''signals.id'') (\<lambda>_.
            res_bind (constraint (\<not> has_row (\<lambda>r. int_idempotency_key r = int_idempotency_key i
                                              \<and> int_id r \<noteq> int_id i) (tb_intents db)) ''idempotency_key'') (\<lambda>_.
            res_map (\<lambda>i'. (i', db\<lparr>tb_intents :=
                rewrite_rows (\<lambda>r. int_id r = int_id i) (store_intent q i) (tb_intents db)\<rparr>))
              (make_order_intent i))))"

definition orders_save :: "columns \<Rightarrow> order \<Rightarrow> tables \<Rightarrow> (order \<times> tables) res" where
  "orders_save q r db =
     (case (case (if ord_exchange_order_id r = None then None
                  else find_row (\<lambda>x. ord_exchange_order_id x = ord_exchange_order_id r) (tb_orders db)) of
              Some x \<Rightarrow> Some x
            | None \<Rightarrow> find_row (\<lambda>x. ord_id x = ord_id r) (tb_orders db)) of
        None \<Rightarrow>
          res_bind (constraint (has_row (\<lambda>i. int_id i = ord_intent_id r) (tb_intents db)) ''order_intents.id'') (\<lambda>_.
          res_map (\<lambda>r'. (r', db\<lparr>tb_orders := tb_orders db @ [store_order q r]\<rparr>)) (make_order r))
      | Some existing \<Rightarrow>
          let r = r\<lparr>ord_id := ord_id existing\<rparr> in
          res_bind (validate_order_status_transition (ord_status existing) (ord_status r)) (\<lambda>_.
          res_bind (constraint (has_row (\<lambda>i. int_id i = ord_intent_id r) (tb_intents db)) ''order_intents.id'') (\<lambda>_.
          res_map (\<lambda>r'. (r', db\<lparr>tb_orders :=
              rewrite_rows (\<lambda>x. ord_id x = ord_id existing) (store_order q r) (tb_orders db)\<rparr>))
            (make_order r))))"

definition fills_save :: "columns \<Rightarrow> fill \<Rightarrow> tables \<Rightarrow> (fill \<times> tables) res" where
  "fills_save q f db =
     (case (case (if fill_exchange_fill_id f = None then None
                  else find_row (\<lambda>x. fill_exchange_fill_id x = fill_exchange_fill_id f) (tb_fills db)) of
              Some x \<Rightarrow> Some x
            | None \<Rightarrow> find_row (\<lambda>x. fill_id x = fill_id f) (tb_fills db)) of
        Some existing \<Rightarrow> res_map (\<lambda>f'. (f', db)) (make_fill existing)
      | None \<Rightarrow>
          res_bind (constraint (has_row (\<lambda>r. ord_id r = fill_order_id f) (tb_orders db)) ''orders.id'') (\<lambda>_.
          res_map (\<lambda>f'. (f', db\<lparr>tb_fills := tb_fills db @ [store_fill q f]\<rparr>)) (make_fill f)))"

definition same_holding :: "string \<Rightarrow> string \<Rightarrow> string \<Rightarrow> position \<Rightarrow> bool" where
  "same_holding account exchange symbol p \<longleftrightarrow>
     pos_account p = account \<and> pos_exchange p = exchange \<and> pos_symbol p = symbol"

definition positions_save :: "columns \<Rightarrow> position \<Rightarrow> tables \<Rightarrow> (position \<times> tables) res" where
  "positions_save q p db =
     (let P = same_holding (pos_account p) (pos_exchange p) (pos_symbol p) in
      case find_row P (tb_positions db) of
        None \<Rightarrow>
          res_bind (constraint (\<not> has_row (\<lambda>x. pos_id x = pos_id p) (tb_positions db)) ''positions.id'') (\<lambda>_.
          res_map (\<lambda>p'. (p', db\<lparr>tb_positions := tb_positions db @ [store_position q p]\<rparr>)) (make_position p))
      | Some existing \<Rightarrow>
          let p = p\<lparr>pos_id := pos_id existing\<rparr> in
          res_map (\<lambda>p'. (p', db\<lparr>tb_positions := rewrite_rows P (store_position q p) (tb_positions db)\<rparr>))
            (make_position p))"

definition balances_save :: "columns \<Rightarrow> balance_snapshot \<Rightarrow> tables \<Rightarrow> (balance_snapshot \<times> tables) res" where
  "balances_save q b db =
     (case find_row (\<lambda>x. bal_account x = bal_account b \<and> bal_exchange x = bal_exchange b
             \<and> bal_asset x = bal_asset b \<and> bal_snapshot_time x = bal_snapshot_time b) (tb_balances db) of
        Some existing \<Rightarrow> res_map (\<lambda>b'. (b', db)) (make_balance existing)
      | None \<Rightarrow>
          res_bind (constraint (\<not> has_row (\<lambda>x. bal_id x = bal_id b) (tb_balances db)) ''balance_snapshots.id'') (\<lambda>_.
          res_map (\<lambda>b'. (b', db\<lparr>tb_balances := tb_balances db @ [store_balance q b]\<rparr>)) (make_balance b)))"

definition events_save :: "event_log \<Rightarrow> tables \<Rightarrow> (event_log \<times> tables) res" where
  "events_save e db =
     (case find_row (\<lambda>x. evl_event_id x = evl_event_id e) (tb_events db) of
        Some existing \<Rightarrow> res_map (\<lambda>e'. (e', db)) (make_event_log existing)
      | None \<Rightarrow>
          res_bind (constraint (\<not> has_row (\<lambda>x. evl_id x = evl_id e) (tb_events db)) ''event_logs.id'') (\<lambda>_.
          res_map (\<lambda>e'. (e', db\<lparr>tb_events := tb_events db @ [e]\<rparr>)) (make_event_log e)))"

text \<open>Reading a row builds, and checks, the domain object again.\<close>

definition load_row :: "('a \<Rightarrow> 'a res) \<Rightarrow> 'a option \<Rightarrow> 'a option res" where
  "load_row mk row = (case row of None \<Rightarrow> Inr None | Some r \<Rightarrow> res_map Some (mk r))"

definition intents_get :: "uuid \<Rightarrow> tables \<Rightarrow> order_intent option res" where
  "intents_get i db = load_row make_order_intent (find_row (\<lambda>r. int_id r = i) (tb_intents db))"

definition orders_get :: "uuid \<Rightarrow> tables \<Rightarrow> order option res" where
  "orders_get i db = load_row make_order (find_row (\<lambda>r. ord_id r = i) (tb_orders db))"

definition fills_get :: "uuid \<Rightarrow> tables \<Rightarrow> fill option res" where
  "fills_get i db = load_row make_fill (find_row (\<lambda>r. fill_id r = i) (tb_fills db))"

definition positions_get_by_symbol :: "string \<Rightarrow> string \<Rightarrow> string \<Rightarrow> tables \<Rightarrow> position option res" where
  "positions_get_by_symbol account exchange symbol db =
     load_row make_position (find_row (same_holding account exchange symbol) (tb_positions db))"

section \<open>Recovery\<close>

record recovery_state =
  rec_open_orders :: "order list"
  rec_open_positions :: "position list"
  rec_latest_balances :: "balance_snapshot list"
  rec_recent_events :: "event_log list"

definition active_order_statuses :: "order_status set" where
  "active_order_statuses = {NEW, ACK, PARTIALLY_FILLED}"

definition active_order_rows :: "string \<Rightarrow> tables \<Rightarrow> order list" where
  "active_order_rows account db =
     sort_key ord_updated_at (sort_key ord_id
       (filter (\<lambda>r. ord_account r = account \<and> ord_status r \<in> active_order_statuses) (tb_orders db)))"

text \<open>The latest snapshot time of an asset of an account, over all exchanges.\<close>

definition latest_balance_time :: "string \<Rightarrow> string \<Rightarrow> tables \<Rightarrow> datetime" where
  "latest_balance_time account asset db =
     Max (bal_snapshot_time ` set (filter (\<lambda>b. bal_account b = account \<and> bal_asset b = asset) (tb_balances db)))"

definition latest_balance_rows :: "string \<Rightarrow> tables \<Rightarrow> balance_snapshot list" where
  "latest_balance_rows account db =
     sort_key bal_asset (filter (\<lambda>b. bal_account b = account
         \<and> bal_snapshot_time b = latest_balance_time account (bal_asset b) db) (tb_balances db))"

definition recent_event_rows :: "string \<Rightarrow> uuid option \<Rightarrow> nat \<Rightarrow> tables \<Rightarrow> event_log list" where
  "recent_event_rows account run_id event_limit db =
     take event_limit (rev (sort_key evl_event_time (sort_key evl_id
       (filter (\<lambda>e. case run_id of Some r \<Rightarrow> evl_run_id e = r | None \<Rightarrow> evl_account e = Some account)
          (tb_events db)))))"

definition load_runtime_state :: "string \<Rightarrow> uuid option \<Rightarrow> nat \<Rightarrow> tables \<Rightarrow> recovery_state res" where
  "load_runtime_state account run_id event_limit db =
     res_bind (res_list make_order (active_order_rows account db)) (\<lambda>open_orders.
     res_bind (res_list make_position (sort_key pos_symbol (filter (\<lambda>p. pos_account p = account
          \<and> pos_status p = POS_OPEN) (tb_positions db)))) (\<lambda>open_positions.
     res_bind (res_list make_balance (latest_balance_rows account db)) (\<lambda>balances.
     res_bind (res_list make_event_log (recent_event_rows account run_id event_limit db)) (\<lambda>events.
       Inr \<lparr>rec_open_orders = open_orders, rec_open_positions = open_positions,
            rec_latest_balances = balances, rec_recent_events = events\<rparr>))))"

section \<open>Rows and keys\<close>

lemma find_row_None: "find_row P rows = None \<longleftrightarrow> (\<forall>r \<in> set rows. \<not> P r)"
  by (auto simp: find_row_def find_None_iff)

lemma find_row_SomeD: "find_row P rows = Some r \<Longrightarrow> r \<in> set rows \<and> P r"
  by (auto simp: find_row_def find_Some_iff)

lemma constraint_ok [simp]: "constraint c name = Inr u \<longleftrightarrow> c"
  by (simp add: constraint_def)

lemma has_row_iff: "has_row P rows \<longleftrightarrow> (\<exists>r \<in> set rows. P r)"
  by (simp add: list_ex_iff)

lemma set_rewrite_rows:
  "set (rewrite_rows P row rows) = {r \<in> set rows. \<not> P r} \<union> (if \<exists>r \<in> set rows. P r then {row} else {})"
  by (auto simp: rewrite_rows_def)

lemma map_rewrite_rows:
  "(\<And>r. r \<in> set rows \<Longrightarrow> P r \<Longrightarrow> f row = f r) \<Longrightarrow> map f (rewrite_rows P row rows) = map f rows"
  by (induction rows) (auto simp: rewrite_rows_def)

lemma image_rewrite_rows:
  "(\<And>r. r \<in> set rows \<Longrightarrow> P r \<Longrightarrow> f row = f r) \<Longrightarrow> f ` set (rewrite_rows P row rows) = f ` set rows"
  using map_rewrite_rows [of rows P f row] by (metis set_map)

text \<open>No two rows share a key; an optional key is shared by no two rows that have it.\<close>

definition keyed :: "('a \<Rightarrow> 'k) \<Rightarrow> 'a list \<Rightarrow> bool" where
  "keyed f rows = distinct (map f rows)"

definition keyed_opt :: "('a \<Rightarrow> 'k option) \<Rightarrow> ('a \<Rightarrow> 'i) \<Rightarrow> 'a list \<Rightarrow> bool" where
  "keyed_opt f key rows \<longleftrightarrow> (\<forall>x \<in> set rows. \<forall>y \<in> set rows. f x \<noteq> None \<and> f x = f y \<longrightarrow> key x = key y)"

lemma keyed_append [simp]: "keyed f (rows @ [r]) \<longleftrightarrow> keyed f rows \<and> (\<forall>x \<in> set rows. f x \<noteq> f r)"
  by (auto simp: keyed_def image_iff)

lemma keyed_empty [simp]: "keyed f []" "keyed_opt g key []"
  by (simp_all add: keyed_def keyed_opt_def)

lemma keyed_optD:
  "keyed_opt f key rows \<Longrightarrow> x \<in> set rows \<Longrightarrow> y \<in> set rows \<Longrightarrow> f x = f y \<Longrightarrow> f y \<noteq> None \<Longrightarrow> key x = key y"
  unfolding keyed_opt_def by metis

lemma keyed_opt_append:
  assumes "keyed_opt f key rows" "f r \<noteq> None \<Longrightarrow> \<forall>x \<in> set rows. f x \<noteq> f r"
  shows "keyed_opt f key (rows @ [r])"
  unfolding keyed_opt_def
proof (intro ballI impI, elim conjE)
  fix x y
  assume m: "x \<in> set (rows @ [r])" "y \<in> set (rows @ [r])" and f: "f x \<noteq> None" "f x = f y"
  show "key x = key y"
  proof (cases "x \<in> set rows \<and> y \<in> set rows")
    case True
    then show ?thesis
      using keyed_optD [OF assms(1)] f by metis
  next
    case False
    then have "x = y"
      using m f assms(2) by (cases "x \<in> set rows"; cases "y \<in> set rows") force+
    then show ?thesis by simp
  qed
qed

lemma in_rewrite_rows: "x \<in> set (rewrite_rows P row rows) \<Longrightarrow> x \<in> set rows \<and> \<not> P x \<or> x = row"
  by (auto simp: rewrite_rows_def split: if_splits)

lemma keyed_opt_rewrite:
  assumes "keyed_opt f key rows" "\<And>x. x \<in> set rows \<Longrightarrow> f x = f row \<Longrightarrow> f row \<noteq> None \<Longrightarrow> key x = key row"
  shows "keyed_opt f key (rewrite_rows P row rows)"
  unfolding keyed_opt_def
proof (intro ballI impI, elim conjE)
  fix x y
  assume "x \<in> set (rewrite_rows P row rows)" "y \<in> set (rewrite_rows P row rows)"
  then have m: "x \<in> set rows \<or> x = row" "y \<in> set rows \<or> y = row"
    using in_rewrite_rows by metis+
  assume f: "f x \<noteq> None" "f x = f y"
  show "key x = key y"
  proof (cases "x = row"; cases "y = row")
    assume "x = row" "y \<noteq> row"
    then show ?thesis using assms(2) m f by metis
  next
    assume "x \<noteq> row" "y = row"
    then show ?thesis using assms(2) m f by metis
  next
    assume "x \<noteq> row" "y \<noteq> row"
    then show ?thesis using keyed_optD [OF assms(1)] m f by metis
  qed simp
qed

lemma has_row_key: "has_row (\<lambda>r. f r = k) rows \<longleftrightarrow> k \<in> f ` set rows"
  by (auto simp: list_ex_iff)

lemma keyed_rewrite: "(\<And>r. r \<in> set rows \<Longrightarrow> P r \<Longrightarrow> f row = f r) \<Longrightarrow> keyed f (rewrite_rows P row rows) = keyed f rows"
  by (simp add: keyed_def map_rewrite_rows)

lemma keyedD: "keyed f rows \<Longrightarrow> x \<in> set rows \<Longrightarrow> y \<in> set rows \<Longrightarrow> f x = f y \<Longrightarrow> x = y"
  by (auto simp: keyed_def distinct_map inj_on_def)

lemma keyed_rewrite_key:
  assumes "keyed key rows" "keyed f rows" "\<And>r. r \<in> set rows \<Longrightarrow> P r \<longleftrightarrow> key r = key row"
    and "\<And>r. r \<in> set rows \<Longrightarrow> f r = f row \<Longrightarrow> key r = key row"
  shows "keyed f (rewrite_rows P row rows)"
proof -
  let ?rows = "rewrite_rows P row rows"
  have ids: "distinct (map key ?rows)"
    using assms(1) map_rewrite_rows [of rows P key row] assms(3) unfolding keyed_def by metis
  have "x = y" if x: "x \<in> set ?rows" and y: "y \<in> set ?rows" and f: "f x = f y" for x y
  proof -
    have "x \<in> set rows \<and> \<not> P x \<or> x = row" "y \<in> set rows \<and> \<not> P y \<or> y = row"
      using x y in_rewrite_rows by metis+
    then show ?thesis
      using keyedD [OF assms(2) _ _ f] assms(3) assms(4) [of x] assms(4) [of y] f by metis
  qed
  then show ?thesis
    using ids unfolding keyed_def distinct_map inj_on_def by blast
qed

lemma find_row_key: "keyed f rows \<Longrightarrow> r \<in> set rows \<Longrightarrow> find_row (\<lambda>x. f x = f r) rows = Some r"
proof -
  assume *: "keyed f rows" "r \<in> set rows"
  then obtain x where "find_row (\<lambda>x. f x = f r) rows = Some x"
    by (cases "find_row (\<lambda>x. f x = f r) rows") (auto simp: find_row_None)
  then show ?thesis
    using * find_row_SomeD keyedD by fastforce
qed

section \<open>The constraints of the tables\<close>

definition tables_ok :: "tables \<Rightarrow> bool" where
  "tables_ok db \<longleftrightarrow>
     keyed sig_id (tb_signals db) \<and> keyed int_id (tb_intents db) \<and> keyed int_idempotency_key (tb_intents db)
     \<and> keyed ord_id (tb_orders db) \<and> keyed_opt ord_exchange_order_id ord_id (tb_orders db)
     \<and> keyed fill_id (tb_fills db) \<and> keyed_opt fill_exchange_fill_id fill_id (tb_fills db)
     \<and> keyed (\<lambda>p. (pos_account p, pos_exchange p, pos_symbol p)) (tb_positions db) \<and> keyed pos_id (tb_positions db)
     \<and> keyed (\<lambda>b. (bal_account b, bal_exchange b, bal_asset b, bal_snapshot_time b)) (tb_balances db)
     \<and> keyed bal_id (tb_balances db) \<and> keyed evl_id (tb_events db) \<and> keyed evl_event_id (tb_events db)
     \<and> int_signal_id ` set (tb_intents db) \<subseteq> sig_id ` set (tb_signals db)
     \<and> ord_intent_id ` set (tb_orders db) \<subseteq> int_id ` set (tb_intents db)
     \<and> fill_order_id ` set (tb_fills db) \<subseteq> ord_id ` set (tb_orders db)"

text \<open>
  How the tables may change: signals, fills, balances and events are only added, orders and intents
  stay, and the status of an order moves along the status machine.
\<close>

definition orders_move :: "order list \<Rightarrow> order list \<Rightarrow> bool" where
  "orders_move rows rows' \<longleftrightarrow> (\<forall>r \<in> set rows. \<exists>r' \<in> set rows'.
     ord_id r' = ord_id r \<and> status_reach (ord_status r) (ord_status r'))"

definition evolves :: "tables \<Rightarrow> tables \<Rightarrow> bool" where
  "evolves db db' \<longleftrightarrow>
     prefix (tb_signals db) (tb_signals db') \<and> prefix (tb_fills db) (tb_fills db')
     \<and> prefix (tb_balances db) (tb_balances db') \<and> prefix (tb_events db) (tb_events db')
     \<and> orders_move (tb_orders db) (tb_orders db')
     \<and> int_id ` set (tb_intents db) \<subseteq> int_id ` set (tb_intents db')"

lemma orders_move_refl [simp]: "orders_move rows rows"
  by (auto simp: orders_move_def intro: here)

lemma orders_move_append [simp]: "orders_move rows (rows @ new)"
  by (auto simp: orders_move_def intro: here)

lemma orders_move_trans: "orders_move a b \<Longrightarrow> orders_move b c \<Longrightarrow> orders_move a c"
  unfolding orders_move_def by (metis status_reach_trans)

lemma orders_move_rewrite:
  assumes "\<And>r. r \<in> set rows \<Longrightarrow> P r \<Longrightarrow> ord_id row = ord_id r \<and> can_transition_order_status (ord_status r) (ord_status row)"
  shows "orders_move rows (rewrite_rows P row rows)"
  using assms by (auto simp: orders_move_def set_rewrite_rows intro: here status_reach_one)

lemma evolves_refl [simp]: "evolves db db"
  by (auto simp: evolves_def)

lemma evolves_trans: "evolves a b \<Longrightarrow> evolves b c \<Longrightarrow> evolves a c"
  unfolding evolves_def by (blast intro: prefix_order.trans orders_move_trans)

lemma validate_transition_ok [simp]:
  "validate_order_status_transition a b = Inr u \<longleftrightarrow> can_transition_order_status a b"
  by (simp add: validate_order_status_transition_def)

section \<open>Saving keeps the constraints\<close>

definition sound_save :: "(tables \<Rightarrow> ('a \<times> tables) res) \<Rightarrow> bool" where
  "sound_save op \<longleftrightarrow> (\<forall>db x db'. op db = Inr (x, db') \<longrightarrow> tables_ok db \<longrightarrow> tables_ok db' \<and> evolves db db')"

lemma sound_saveI:
  "(\<And>db x db'. op db = Inr (x, db') \<Longrightarrow> tables_ok db \<Longrightarrow> tables_ok db' \<and> evolves db db') \<Longrightarrow> sound_save op"
  by (simp add: sound_save_def)

lemma store_keys [simp]:
  "sig_id (store_signal q s) = sig_id s" "int_id (store_intent q i) = int_id i"
  "int_signal_id (store_intent q i) = int_signal_id i"
  "int_idempotency_key (store_intent q i) = int_idempotency_key i" "int_status (store_intent q i) = int_status i"
  "ord_id (store_order q r) = ord_id r" "ord_intent_id (store_order q r) = ord_intent_id r"
  "ord_exchange_order_id (store_order q r) = ord_exchange_order_id r" "ord_status (store_order q r) = ord_status r"
  "ord_account (store_order q r) = ord_account r"
  "fill_id (store_fill q f) = fill_id f" "fill_order_id (store_fill q f) = fill_order_id f"
  "fill_exchange_fill_id (store_fill q f) = fill_exchange_fill_id f"
  "pos_id (store_position q p) = pos_id p" "pos_account (store_position q p) = pos_account p"
  "pos_exchange (store_position q p) = pos_exchange p" "pos_symbol (store_position q p) = pos_symbol p"
  "bal_id (store_balance q b) = bal_id b" "bal_account (store_balance q b) = bal_account b"
  "bal_exchange (store_balance q b) = bal_exchange b" "bal_asset (store_balance q b) = bal_asset b"
  "bal_snapshot_time (store_balance q b) = bal_snapshot_time b"
  by (simp_all add: store_signal_def store_intent_def store_order_def store_fill_def store_position_def
      store_balance_def)

lemma sound_signals_save: "sound_save (signals_save q s)"
  by (rule sound_saveI)
    (auto simp: signals_save_def tables_ok_def evolves_def find_row_None split: option.splits)

lemma sound_fills_save: "sound_save (fills_save q f)"
proof (rule sound_saveI)
  fix db x db'
  assume s: "fills_save q f db = Inr (x, db')" and ok: "tables_ok db"
  show "tables_ok db' \<and> evolves db db'"
  proof (cases "db' = db")
    case False
    then have new: "db' = db\<lparr>tb_fills := tb_fills db @ [store_fill q f]\<rparr>" "fill_order_id f \<in> ord_id ` set (tb_orders db)"
        "\<forall>x \<in> set (tb_fills db). fill_id x \<noteq> fill_id f"
        "fill_exchange_fill_id f \<noteq> None \<Longrightarrow>
           \<forall>x \<in> set (tb_fills db). fill_exchange_fill_id x \<noteq> fill_exchange_fill_id f"
      using s by (auto simp: fills_save_def find_row_None has_row_key split: option.splits if_splits)
    have "keyed_opt fill_exchange_fill_id fill_id (tb_fills db @ [store_fill q f])"
      using ok new(4) by (intro keyed_opt_append) (simp_all add: tables_ok_def)
    then show ?thesis
      using ok new by (simp add: tables_ok_def evolves_def)
  qed (simp add: ok)
qed

lemma sound_balances_save: "sound_save (balances_save q b)"
  by (rule sound_saveI)
    (auto simp: balances_save_def tables_ok_def evolves_def find_row_None list_ex_iff split: option.splits)

lemma sound_events_save: "sound_save (events_save e)"
  by (rule sound_saveI)
    (auto simp: events_save_def tables_ok_def evolves_def find_row_None list_ex_iff split: option.splits)

lemma sound_positions_save: "sound_save (positions_save q p)"
proof (rule sound_saveI)
  fix db x db'
  let ?P = "same_holding (pos_account p) (pos_exchange p) (pos_symbol p)"
  assume s: "positions_save q p db = Inr (x, db')" and ok: "tables_ok db"
  note key = same_holding_def
  show "tables_ok db' \<and> evolves db db'"
  proof (cases "find_row ?P (tb_positions db)")
    case None
    then have "db' = db\<lparr>tb_positions := tb_positions db @ [store_position q p]\<rparr>"
        "\<forall>x \<in> set (tb_positions db). pos_id x \<noteq> pos_id p"
      using s by (auto simp: positions_save_def Let_def list_ex_iff)
    then show ?thesis
      using ok None by (auto simp: tables_ok_def evolves_def find_row_None key)
  next
    case (Some e)
    let ?row = "store_position q (p\<lparr>pos_id := pos_id e\<rparr>)"
    have e: "e \<in> set (tb_positions db)" "?P e"
      using find_row_SomeD [OF Some] by simp_all
    have same: "r = e" if "r \<in> set (tb_positions db)" "?P r" for r
      by (rule keyedD [of "\<lambda>p. (pos_account p, pos_exchange p, pos_symbol p)" "tb_positions db"])
        (use ok that e in \<open>simp_all add: tables_ok_def key\<close>)
    have "keyed f (rewrite_rows ?P ?row (tb_positions db))" if "keyed f (tb_positions db)" "f ?row = f e" for f :: "position \<Rightarrow> 'k"
      using that keyed_rewrite [of "tb_positions db" ?P f ?row] same by metis
    from this [of "\<lambda>p. (pos_account p, pos_exchange p, pos_symbol p)"] this [of pos_id]
    have "keyed (\<lambda>p. (pos_account p, pos_exchange p, pos_symbol p)) (rewrite_rows ?P ?row (tb_positions db))
        \<and> keyed pos_id (rewrite_rows ?P ?row (tb_positions db))"
      using ok e by (simp add: tables_ok_def key)
    moreover have "db' = db\<lparr>tb_positions := rewrite_rows ?P ?row (tb_positions db)\<rparr>"
      using s Some by (auto simp: positions_save_def Let_def)
    ultimately show ?thesis
      using ok by (simp add: tables_ok_def evolves_def)
  qed
qed

lemma sound_intents_save: "sound_save (intents_save q i)"
proof (rule sound_saveI)
  fix db x db'
  assume s: "intents_save q i db = Inr (x, db')" and ok: "tables_ok db"
  show "tables_ok db' \<and> evolves db db'"
  proof (cases "find_row (\<lambda>r. int_id r = int_id i) (tb_intents db)")
    case no_id: None
    show ?thesis
    proof (cases "find_row (\<lambda>r. int_idempotency_key r = int_idempotency_key i) (tb_intents db)")
      case None
      then have "db' = db\<lparr>tb_intents := tb_intents db @ [store_intent q i]\<rparr>"
          "int_signal_id i \<in> sig_id ` set (tb_signals db)"
        using s no_id by (simp_all add: intents_save_def has_row_key)
      then show ?thesis
        using ok None no_id by (simp add: tables_ok_def evolves_def find_row_None subset_insertI2)
    next
      case (Some e)
      then have "int_id e \<noteq> int_id i"
        using no_id by (auto simp: find_row_None dest: find_row_SomeD)
      then show ?thesis
        using s ok Some no_id by (auto simp: intents_save_def)
    qed
  next
    case (Some e)
    let ?rows = "rewrite_rows (\<lambda>r. int_id r = int_id i) (store_intent q i) (tb_intents db)"
    have e: "e \<in> set (tb_intents db)" "int_id e = int_id i"
      using find_row_SomeD [OF Some] by simp_all
    have db': "db' = db\<lparr>tb_intents := ?rows\<rparr>" "int_signal_id i \<in> sig_id ` set (tb_signals db)"
        "\<forall>r \<in> set (tb_intents db). int_idempotency_key r = int_idempotency_key i \<longrightarrow> int_id r = int_id i"
      using s e(2) unfolding intents_save_def Some by (simp_all add: has_row_key list_ex_iff)
    have ids: "map int_id ?rows = map int_id (tb_intents db)"
      by (rule map_rewrite_rows) simp
    have "keyed int_idempotency_key ?rows"
      using ok db'(3) by (intro keyed_rewrite_key [where key = int_id]) (simp_all add: tables_ok_def)
    moreover have "int_id ` set ?rows = int_id ` set (tb_intents db)"
      using ids by (metis set_map)
    moreover have "int_signal_id ` set ?rows \<subseteq> sig_id ` set (tb_signals db)"
      using ok db'(2) by (auto simp: set_rewrite_rows tables_ok_def)
    ultimately show ?thesis
      using ok ids by (simp add: db'(1) tables_ok_def evolves_def keyed_def)
  qed
qed

lemma sound_orders_save: "sound_save (orders_save q r)"
proof (rule sound_saveI)
  fix db x db'
  assume s: "orders_save q r db = Inr (x, db')" and ok: "tables_ok db"
  define found where "found = (case (if ord_exchange_order_id r = None then None
      else find_row (\<lambda>x. ord_exchange_order_id x = ord_exchange_order_id r) (tb_orders db)) of
        Some x \<Rightarrow> Some x | None \<Rightarrow> find_row (\<lambda>x. ord_id x = ord_id r) (tb_orders db))"
  note s = s [unfolded orders_save_def, folded found_def]
  show "tables_ok db' \<and> evolves db db'"
  proof (cases found)
    case None
    then have db': "db' = db\<lparr>tb_orders := tb_orders db @ [store_order q r]\<rparr>"
        "ord_intent_id r \<in> int_id ` set (tb_intents db)"
        "\<forall>x \<in> set (tb_orders db). ord_id x \<noteq> ord_id r"
        "ord_exchange_order_id r \<noteq> None \<Longrightarrow>
           \<forall>x \<in> set (tb_orders db). ord_exchange_order_id x \<noteq> ord_exchange_order_id r"
      using s by (auto simp: found_def find_row_None has_row_key split: option.splits if_splits)
    have "keyed_opt ord_exchange_order_id ord_id (tb_orders db @ [store_order q r])"
      using ok db'(4) by (intro keyed_opt_append) (simp_all add: tables_ok_def)
    then show ?thesis
      using ok db' by (simp add: tables_ok_def evolves_def subset_insertI2)
  next
    case (Some e)
    let ?row = "store_order q (r\<lparr>ord_id := ord_id e\<rparr>)"
    let ?rows = "rewrite_rows (\<lambda>x. ord_id x = ord_id e) ?row (tb_orders db)"
    have e: "e \<in> set (tb_orders db)"
      using Some by (auto simp: found_def dest!: find_row_SomeD split: option.splits if_splits)
    have db': "db' = db\<lparr>tb_orders := ?rows\<rparr>" "ord_intent_id r \<in> int_id ` set (tb_intents db)"
        "can_transition_order_status (ord_status e) (ord_status r)"
      using s Some by (auto simp: Let_def has_row_key)
    have only: "x = e" if "x \<in> set (tb_orders db)" "ord_id x = ord_id e" for x
      using ok keyedD [OF _ that(1) e that(2)] by (simp add: tables_ok_def)
    have "ord_id x = ord_id e" if x: "x \<in> set (tb_orders db)" "ord_exchange_order_id r \<noteq> None"
      "ord_exchange_order_id x = ord_exchange_order_id r" for x
    proof -
      obtain y where "find_row (\<lambda>x. ord_exchange_order_id x = ord_exchange_order_id r) (tb_orders db) = Some y"
        using x by (cases "find_row (\<lambda>x. ord_exchange_order_id x = ord_exchange_order_id r) (tb_orders db)")
          (auto simp: find_row_None)
      then have f: "find_row (\<lambda>x. ord_exchange_order_id x = ord_exchange_order_id r) (tb_orders db) = Some e"
        using Some x(2) by (auto simp: found_def)
      have "keyed_opt ord_exchange_order_id ord_id (tb_orders db)"
        using ok by (simp add: tables_ok_def)
      then show ?thesis
        using find_row_SomeD [OF f] x e keyed_optD by metis
    qed
    then have "keyed_opt ord_exchange_order_id ord_id ?rows"
      using ok by (intro keyed_opt_rewrite) (auto simp: tables_ok_def)
    moreover have "ord_id ` set ?rows = ord_id ` set (tb_orders db)" "keyed ord_id ?rows"
      using ok by (simp_all add: image_rewrite_rows keyed_rewrite tables_ok_def)
    moreover have "ord_intent_id ` set ?rows \<subseteq> int_id ` set (tb_intents db)"
      using ok db'(2) by (auto simp: set_rewrite_rows tables_ok_def)
    moreover have "orders_move (tb_orders db) ?rows"
      using db'(3) only by (intro orders_move_rewrite) fastforce
    ultimately show ?thesis
      using ok by (simp add: db'(1) tables_ok_def evolves_def)
  qed
qed

lemmas sound_saves = sound_signals_save sound_intents_save sound_orders_save sound_fills_save
  sound_positions_save sound_balances_save sound_events_save

end
