(* ===== verification/Trader_Oms.thy ===== *)
theory Trader_Oms
  imports Repositories Control_Runtime Observability Ledger
begin

text \<open>
  The order management service of the trader: TraderOmsService and its persistence bridge of
  src/apps/trader/oms.py.  A method is an action on the trading tables, the control tables, the
  alerts and the orders handed to the execution gateway.  Every call of the persistence or of the
  control store is one database session; what the environment decides is an argument: which session
  fails with which exception, what the gateway answers, the clock, fresh identifiers and what a
  decimal column keeps.  Payloads, messages and details of events are left out.
\<close>

section \<open>State and environment\<close>

record oms_world =
  ow_tables :: tables
  ow_sessions :: nat
  ow_uuids :: nat
  ow_trader :: trader_world
  ow_windows :: series_windows
  ow_submitted :: "(order \<times> order_intent) list"
  ow_cancelled :: "order list"

record oms_env =
  env_columns :: columns
  env_outage :: "nat \<Rightarrow> fault option"
  env_text :: "fault \<Rightarrow> string"
  env_uuid5 :: "string \<Rightarrow> uuid"
  env_uuid4 :: "nat \<Rightarrow> uuid"
  env_clock :: "nat \<Rightarrow> datetime"
  env_submit :: "nat \<Rightarrow> order \<Rightarrow> order_intent \<Rightarrow> execution_report res"
  env_cancel :: "nat \<Rightarrow> order \<Rightarrow> execution_report res"
  env_policy :: risk_policy
  env_initial_cash :: rat
  env_has_control :: bool

text \<open>One session: the environment may fail it; an operation that raises is rolled back.\<close>

definition session ::
  "oms_env \<Rightarrow> (tables \<Rightarrow> ('a \<times> tables) res) \<Rightarrow> (oms_world, 'a) act" where
  "session env op = (\<lambda>w.
     let w' = w\<lparr>ow_sessions := Suc (ow_sessions w)\<rparr> in
     case env_outage env (ow_sessions w) of
       Some e \<Rightarrow> (Inl e, w')
     | None \<Rightarrow>
         (case op (ow_tables w) of
            Inl e \<Rightarrow> (Inl e, w')
          | Inr (x, db) \<Rightarrow> (Inr x, w'\<lparr>ow_tables := db\<rparr>)))"

abbreviation query :: "oms_env \<Rightarrow> (tables \<Rightarrow> 'a res) \<Rightarrow> (oms_world, 'a) act" where
  "query env op \<equiv> session env (\<lambda>db. res_map (\<lambda>x. (x, db)) (op db))"

definition on_trader :: "(trader_world, 'a) act \<Rightarrow> (oms_world, 'a) act" where
  "on_trader m = (\<lambda>w. let (r, t) = m (ow_trader w) in (r, w\<lparr>ow_trader := t\<rparr>))"

definition control_session ::
  "oms_env \<Rightarrow> (datetime \<Rightarrow> control_db \<Rightarrow> 'a \<times> control_db) \<Rightarrow> (oms_world, 'a) act" where
  "control_session env op = (\<lambda>w.
     let w' = w\<lparr>ow_sessions := Suc (ow_sessions w)\<rparr> in
     case env_outage env (ow_sessions w) of
       Some e \<Rightarrow> (Inl e, w')
     | None \<Rightarrow> on_trader (on_store (transact (op (env_clock env (ow_sessions w))))) w')"

definition fresh_uuid :: "oms_env \<Rightarrow> (oms_world, uuid) act" where
  "fresh_uuid env = (\<lambda>w. (Inr (env_uuid4 env (ow_uuids w)), w\<lparr>ow_uuids := Suc (ow_uuids w)\<rparr>))"

definition observe :: "string \<Rightarrow> string \<Rightarrow> bool \<Rightarrow> bool \<Rightarrow> string option \<Rightarrow> (oms_world, unit) act" where
  "observe event sev notify bypass reason =
     on_trader (change (\<lambda>t. t\<lparr>tw_alerts := tw_alerts t @
       [\<lparr>al_event = event, al_severity = sev, al_notify = notify, al_bypass_cooldown = bypass,
         al_reason_code = reason\<rparr>]\<rparr>))"

section \<open>Guarded writes\<close>

definition activate_protection_mode :: "oms_env \<Rightarrow> string \<Rightarrow> string \<Rightarrow> (oms_world, unit) act" where
  "activate_protection_mode env account trigger =
     (if \<not> env_has_control env then pass ()
      else bind_act
        (try_except
          (bind_act (control_session env (\<lambda>now. set_protection_mode account True now now)) (\<lambda>_. pass True))
          (\<lambda>_. pass False))
        (\<lambda>done.
          if done then observe ''control.protection_mode_requested'' ''critical'' True True (Some trigger)
          else observe ''control.protection_mode_activation_failed'' ''critical'' True True
                 (Some ''PROTECTION_MODE_ACTIVATION_FAILED'')))"

definition persist_write ::
  "oms_env \<Rightarrow> (tables \<Rightarrow> ('a \<times> tables) res) \<Rightarrow> string \<Rightarrow> string \<Rightarrow> string option \<Rightarrow> (oms_world, 'a) act" where
  "persist_write env op event_name reason_code protect =
     try_except (session env op) (\<lambda>e.
       act_seq (case protect of None \<Rightarrow> pass () | Some account \<Rightarrow> activate_protection_mode env account reason_code)
      (act_seq (observe event_name ''critical'' True True (Some reason_code))
       (throw e)))"

definition save_signal :: "oms_env \<Rightarrow> signal \<Rightarrow> (oms_world, signal) act" where
  "save_signal env s =
     persist_write env (signals_save (env_columns env) s) ''db.signal_write_failed'' ''SIGNAL_WRITE_FAILED'' None"

definition save_order_intent :: "oms_env \<Rightarrow> order_intent \<Rightarrow> (oms_world, order_intent) act" where
  "save_order_intent env i =
     persist_write env (intents_save (env_columns env) i) ''db.order_intent_write_failed''
       ''ORDER_INTENT_WRITE_FAILED'' (Some (int_account i))"

definition save_order :: "oms_env \<Rightarrow> order \<Rightarrow> (oms_world, order) act" where
  "save_order env r =
     persist_write env (orders_save (env_columns env) r) ''db.order_write_failed'' ''ORDER_WRITE_FAILED''
       (Some (ord_account r))"

definition save_fill :: "oms_env \<Rightarrow> fill \<Rightarrow> (oms_world, fill) act" where
  "save_fill env f =
     persist_write env (fills_save (env_columns env) f) ''db.fill_write_failed'' ''FILL_WRITE_FAILED''
       (Some (fill_account f))"

definition save_position :: "oms_env \<Rightarrow> position \<Rightarrow> (oms_world, position) act" where
  "save_position env p =
     persist_write env (positions_save (env_columns env) p) ''db.position_write_failed''
       ''POSITION_WRITE_FAILED'' (Some (pos_account p))"

definition save_balance_snapshot :: "oms_env \<Rightarrow> balance_snapshot \<Rightarrow> (oms_world, balance_snapshot) act" where
  "save_balance_snapshot env b =
     persist_write env (balances_save (env_columns env) b) ''db.balance_snapshot_write_failed''
       ''BALANCE_SNAPSHOT_WRITE_FAILED'' (Some (bal_account b))"

definition save_event_log :: "oms_env \<Rightarrow> event_log \<Rightarrow> (oms_world, event_log) act" where
  "save_event_log env e =
     persist_write env (events_save e) ''db.event_log_write_failed'' ''EVENT_LOG_WRITE_FAILED'' None"

text \<open>How an event is observed: severity, notification, cooldown and reason code.\<close>

record observation =
  obs_severity :: "string option"
  obs_notify :: bool
  obs_bypass :: bool
  obs_reason :: "string option"

definition plain :: observation where
  "plain = \<lparr>obs_severity = None, obs_notify = False, obs_bypass = False, obs_reason = None\<rparr>"

text \<open>What an event is about: the kind and identifier of the object, the run and the scope.\<close>

record event_scope =
  sc_type :: string
  sc_id :: uuid
  sc_run_id :: uuid
  sc_account :: string
  sc_exchange :: string
  sc_symbol :: string

definition signal_scope :: "string \<Rightarrow> uuid \<Rightarrow> signal \<Rightarrow> event_scope" where
  "signal_scope kind obj s =
     \<lparr>sc_type = kind, sc_id = obj, sc_run_id = sig_run_id s, sc_account = sig_account s,
      sc_exchange = sig_exchange s, sc_symbol = sig_symbol s\<rparr>"

definition order_scope :: "order \<Rightarrow> event_scope" where
  "order_scope r =
     \<lparr>sc_type = ''order'', sc_id = ord_id r, sc_run_id = ord_run_id r, sc_account = ord_account r,
      sc_exchange = ord_exchange r, sc_symbol = ord_symbol r\<rparr>"

definition fill_scope :: "string \<Rightarrow> uuid \<Rightarrow> fill_event \<Rightarrow> event_scope" where
  "fill_scope kind obj fe =
     \<lparr>sc_type = kind, sc_id = obj, sc_run_id = fe_run_id fe, sc_account = fe_account fe,
      sc_exchange = fe_exchange fe, sc_symbol = fe_symbol fe\<rparr>"

definition log_entry ::
  "uuid \<Rightarrow> uuid \<Rightarrow> string \<Rightarrow> string \<Rightarrow> event_scope \<Rightarrow> string option \<Rightarrow> datetime \<Rightarrow> event_log res" where
  "log_entry i j event_type source sc symbol t =
     make_event_log
       \<lparr>evl_id = i, evl_event_id = j, evl_type = event_type, evl_source = source, evl_run_id = sc_run_id sc,
        evl_account = Some (sc_account sc), evl_exchange = Some (sc_exchange sc), evl_symbol = symbol,
        evl_related_type = Some (sc_type sc), evl_related_id = Some (sc_id sc), evl_event_time = t,
        evl_ingest_time = t, evl_created_at = t\<rparr>"

definition persist_event ::
  "oms_env \<Rightarrow> string \<Rightarrow> string \<Rightarrow> event_scope \<Rightarrow> datetime \<Rightarrow> observation \<Rightarrow> (oms_world, unit) act" where
  "persist_event env event_type source sc occurred_at obs =
     bind_act (fresh_uuid env) (\<lambda>i. bind_act (fresh_uuid env) (\<lambda>j.
     bind_act (from_res (log_entry i j event_type source sc (Some (sc_symbol sc)) occurred_at)) (\<lambda>entry.
     act_seq (save_event_log env entry)
       (observe event_type
          (case obs_severity obs of None \<Rightarrow> severity_for_event event_type | Some s \<Rightarrow> s)
          (obs_notify obs) (obs_bypass obs) (obs_reason obs)))))"

section \<open>Reading\<close>

definition oms_get_position ::
  "oms_env \<Rightarrow> string \<Rightarrow> string \<Rightarrow> string \<Rightarrow> (oms_world, position option) act" where
  "oms_get_position env account exchange symbol = query env (positions_get_by_symbol account exchange symbol)"

definition oms_latest_balance ::
  "oms_env \<Rightarrow> string \<Rightarrow> string \<Rightarrow> string \<Rightarrow> (oms_world, balance_snapshot option) act" where
  "oms_latest_balance env account exchange asset =
     query env (\<lambda>db. res_map (\<lambda>st.
         find_row (\<lambda>b. bal_exchange b = exchange \<and> bal_asset b = asset) (rec_latest_balances st))
       (load_runtime_state account None 1 db))"

definition recent_intent_rows ::
  "string \<Rightarrow> string \<Rightarrow> string \<Rightarrow> datetime \<Rightarrow> tables \<Rightarrow> order_intent list" where
  "recent_intent_rows account exchange symbol created_after db =
     concat (map (\<lambda>i.
         let orders = filter (\<lambda>r. ord_intent_id r = int_id i) (tb_orders db)
         in if orders = [] then [i]
            else map (\<lambda>_. i) (filter (\<lambda>r. ord_status r \<in> active_order_statuses) orders))
       (rev (sort_key int_created_at (sort_key int_id
          (filter (\<lambda>i. int_account i = account \<and> int_exchange i = exchange \<and> int_symbol i = symbol
             \<and> created_after \<le> int_created_at i \<and> int_status i \<in> {INTENT_NEW, INTENT_SUBMITTED})
           (tb_intents db))))))"

definition list_recent_active_order_intents ::
  "oms_env \<Rightarrow> string \<Rightarrow> string \<Rightarrow> string \<Rightarrow> datetime \<Rightarrow> (oms_world, order_intent list) act" where
  "list_recent_active_order_intents env account exchange symbol created_after =
     query env (\<lambda>db. res_list make_order_intent (recent_intent_rows account exchange symbol created_after db))"

definition list_active_orders :: "oms_env \<Rightarrow> string \<Rightarrow> (oms_world, order list) act" where
  "list_active_orders env account = query env (\<lambda>db. res_list make_order (active_order_rows account db))"

definition has_fill_history :: "oms_env \<Rightarrow> string \<Rightarrow> (oms_world, bool) act" where
  "has_fill_history env account = query env (\<lambda>db. Inr (has_row (\<lambda>f. fill_account f = account) (tb_fills db)))"

section \<open>Booking an execution report\<close>

definition release_position_for_trade_date ::
  "oms_env \<Rightarrow> position option \<Rightarrow> date \<Rightarrow> datetime \<Rightarrow> uuid \<Rightarrow> (oms_world, position option) act" where
  "release_position_for_trade_date env position effective_trade_date occurred_at run_id =
     (case position of
        None \<Rightarrow> pass None
      | Some p \<Rightarrow>
          let release = release_position_sellable_qty p effective_trade_date occurred_at in
          if \<not> release_applied release then pass (Some p)
          else
            bind_act (save_position env (rel_position release)) (\<lambda>saved.
            act_seq (persist_event env ''portfolio.sellable_qty_released'' ''trader_oms''
                \<lparr>sc_type = ''position'', sc_id = pos_id saved, sc_run_id = run_id,
                 sc_account = pos_account saved, sc_exchange = pos_exchange saved,
                 sc_symbol = pos_symbol saved\<rparr> occurred_at plain)
              (pass (Some saved))))"

definition apply_report_update ::
  "oms_env \<Rightarrow> string \<Rightarrow> order \<Rightarrow> order_update \<Rightarrow> (oms_world, order) act" where
  "apply_report_update env source current u =
     bind_act (from_res (apply_order_update current u)) (\<lambda>next_order.
     bind_act (save_order env next_order) (\<lambda>saved.
     act_seq (persist_event env ''execution.order_updated'' source (order_scope saved) (upd_event_time u) plain)
       (pass saved)))"

definition book_fill :: "oms_env \<Rightarrow> string \<Rightarrow> fill_event \<Rightarrow> (oms_world, unit) act" where
  "book_fill env source fe =
     bind_act (oms_get_position env (fe_account fe) (fe_exchange fe) (fe_symbol fe)) (\<lambda>position.
     bind_act (oms_latest_balance env (fe_account fe) (fe_exchange fe) (cb_currency (fe_cost fe))) (\<lambda>balance.
     bind_act (fresh_uuid env) (\<lambda>i. bind_act (fresh_uuid env) (\<lambda>j.
     bind_act (from_res (apply_fill_event_to_portfolio i j fe position balance)) (\<lambda>booked.
     bind_act (save_position env (pu_position booked)) (\<lambda>p.
     bind_act (save_balance_snapshot env (pu_balance booked)) (\<lambda>b.
     act_seq (persist_event env ''portfolio.position_updated'' source
         (fill_scope ''position'' (pos_id p) fe) (fe_event_time fe) plain)
       (persist_event env ''portfolio.balance_updated'' source
         (fill_scope ''balance_snapshot'' (bal_id b) fe) (fe_event_time fe) plain))))))))"

definition apply_report_fill :: "oms_env \<Rightarrow> string \<Rightarrow> unit \<Rightarrow> fill_event \<Rightarrow> (oms_world, unit) act" where
  "apply_report_fill env source _ fe =
     bind_act (query env (fills_get (fill_id (fe_fill fe)))) (\<lambda>existing.
       if existing \<noteq> None then pass ()
       else
         bind_act (save_fill env (fe_fill fe)) (\<lambda>f.
         act_seq (persist_event env ''execution.fill_recorded'' source (fill_scope ''fill'' (fill_id f) fe)
             (fe_event_time fe) plain)
           (book_fill env source fe)))"

definition apply_execution_report ::
  "oms_env \<Rightarrow> execution_report \<Rightarrow> order \<Rightarrow> (oms_world, order) act" where
  "apply_execution_report env report initial_order =
     bind_act (act_fold (apply_report_update env (rep_source report)) initial_order (rep_order_updates report))
       (\<lambda>current_order.
     act_seq (act_fold (apply_report_fill env (rep_source report)) () (rep_fill_events report))
       (pass current_order))"

section \<open>Submitting a signal\<close>

record submission_request =
  req_signal :: signal
  req_rule :: "symbol_rule option"
  req_decision_price :: "rat option"
  req_market :: "market_state option"
  req_position :: "position option"
  req_type :: order_type
  req_price :: "rat option"
  req_control :: "risk_control_state option"
  req_guard :: "submission_guard option"
  req_occurred_at :: datetime

record submission =
  sub_signal :: signal
  sub_plan :: order_plan
  sub_intent :: order_intent
  sub_order :: order

text \<open>The window of repeated rejections is five minutes; three of them notify the operator.\<close>

definition count_rejection :: "signal \<Rightarrow> risk_result \<Rightarrow> datetime \<Rightarrow> (oms_world, nat) act" where
  "count_rejection s result occurred_at = (\<lambda>w.
     let (n, windows) = count_occurrence
           (''risk_rejection|'' @ sig_account s @ ''|'' @ sig_symbol s @ ''|'' @ rr_code result) 300 occurred_at
           (ow_windows w)
     in (Inr n, w\<lparr>ow_windows := windows\<rparr>))"

definition persist_risk_rejection ::
  "oms_env \<Rightarrow> signal \<Rightarrow> risk_result \<Rightarrow> datetime \<Rightarrow> (oms_world, unit) act" where
  "persist_risk_rejection env s result occurred_at =
     bind_act (count_rejection s result occurred_at) (\<lambda>n.
     let immediate = rr_code result \<in> {''LEASE_ACCOUNT_MISMATCH'', ''LEASE_NOT_HELD''} in
     persist_event env ''oms.risk_rejected'' ''trader_oms'' (signal_scope ''signal'' (sig_id s) s) occurred_at
       \<lparr>obs_severity = Some (if immediate then ''critical'' else ''warning''),
        obs_notify = (immediate \<or> 3 \<le> n), obs_bypass = immediate, obs_reason = Some (rr_code result)\<rparr>)"

text \<open>The effective control state, and whether the submission guard lets the signal pass.\<close>

definition resolve_control :: "oms_env \<Rightarrow> submission_request \<Rightarrow> (oms_world, risk_control_state) act" where
  "resolve_control env q =
     (if \<not> env_has_control env
      then pass (case req_control q of None \<Rightarrow> CTRL_NORMAL | Some c \<Rightarrow> c)
      else bind_act (control_session env (get_control (sig_account (req_signal q)))) (\<lambda>snapshot.
           pass (case req_control q of None \<Rightarrow> ctl_control_state snapshot | Some c \<Rightarrow> c)))"

definition lease_admits :: "oms_env \<Rightarrow> submission_request \<Rightarrow> (oms_world, bool) act" where
  "lease_admits env q =
     (case (if env_has_control env then req_guard q else None) of
        None \<Rightarrow> pass True
      | Some g \<Rightarrow>
          if sg_account g \<noteq> sig_account (req_signal q)
          then act_seq (persist_risk_rejection env (req_signal q)
                 (risk_reject ''LEASE_ACCOUNT_MISMATCH'' ''single_active_lease'') (req_occurred_at q)) (pass False)
          else bind_act (control_session env (\<lambda>_ db.
                   (validate_submission_lease (sg_account g) (sg_instance g) (sg_fencing_token g)
                      (req_occurred_at q) db, db))) (\<lambda>res.
               if la_accepted res then pass True
               else act_seq (persist_risk_rejection env (req_signal q)
                      (risk_reject ''LEASE_NOT_HELD'' ''single_active_lease'') (req_occurred_at q)) (pass False)))"

definition plan_signal_order ::
  "submission_request \<Rightarrow> signal \<Rightarrow> position option \<Rightarrow> order_plan option res" where
  "plan_signal_order q s position =
     (case (req_market q, req_rule q, req_decision_price q) of
        (Some m, Some rule, Some price) \<Rightarrow>
          if 0 < price
          then res_map Some (build_signal_order_intent_plan s rule position price m (req_type q) (req_price q))
          else Inr None
      | _ \<Rightarrow> Inr None)"

definition is_actionable :: "order_plan option \<Rightarrow> bool" where
  "is_actionable plan = (case plan of None \<Rightarrow> False | Some p \<Rightarrow> plan_actionable p)"

definition current_exposure ::
  "oms_env \<Rightarrow> submission_request \<Rightarrow> signal \<Rightarrow> order_plan option
     \<Rightarrow> (oms_world, position list \<times> order_intent list) act" where
  "current_exposure env q s plan =
     (if \<not> is_actionable plan then pass ([], [])
      else
        bind_act (query env (load_runtime_state (sig_account s) None 0)) (\<lambda>st.
        bind_act (list_recent_active_order_intents env (sig_account s) (sig_exchange s) (sig_symbol s)
            (req_occurred_at q - pol_duplicate_window (env_policy env) * us_per_second)) (\<lambda>recent.
          pass (rec_open_positions st, recent))))"

definition gateway_submit :: "oms_env \<Rightarrow> order \<Rightarrow> order_intent \<Rightarrow> (oms_world, execution_report) act" where
  "gateway_submit env r i = (\<lambda>w.
     (env_submit env (length (ow_submitted w)) r i, w\<lparr>ow_submitted := ow_submitted w @ [(r, i)]\<rparr>))"

text \<open>The gateway refused or failed: protection mode, the error on the order, an alert, and the exception.\<close>

definition submission_failed ::
  "oms_env \<Rightarrow> signal \<Rightarrow> order \<Rightarrow> datetime \<Rightarrow> fault \<Rightarrow> (oms_world, 'a) act" where
  "submission_failed env s r occurred_at e =
     act_seq (activate_protection_mode env (sig_account s) ''EXECUTION_SUBMISSION_FAILED'')
    (act_seq (save_order env (r\<lparr>ord_error_code := Some ''SUBMIT_FAILED'', ord_error_message := Some (env_text env e),
                               ord_updated_at := occurred_at\<rparr>))
    (act_seq (persist_event env ''oms.execution_submission_failed'' ''trader_oms''
         (signal_scope ''order'' (ord_id r) s) occurred_at
         \<lparr>obs_severity = Some ''critical'', obs_notify = True, obs_bypass = True,
          obs_reason = Some ''SUBMIT_FAILED''\<rparr>)
     (throw e)))"

text \<open>The intent was handed to the gateway before: the order is read back, or written again.\<close>

definition resume_submission ::
  "oms_env \<Rightarrow> order_intent \<Rightarrow> uuid \<Rightarrow> datetime \<Rightarrow> (oms_world, order) act" where
  "resume_submission env i order_id occurred_at =
     bind_act (query env (orders_get order_id)) (\<lambda>existing.
       case existing of
         Some r \<Rightarrow> pass r
       | None \<Rightarrow>
           bind_act (from_res (create_order_from_intent (env_uuid5 env) occurred_at i (Some order_id) None
                        (Some occurred_at) NEW)) (save_order env))"

text \<open>A new intent: its order is written before the gateway is called, and the report booked after.\<close>

definition prepare_order ::
  "oms_env \<Rightarrow> signal \<Rightarrow> order_intent \<Rightarrow> uuid \<Rightarrow> datetime \<Rightarrow> (oms_world, order) act" where
  "prepare_order env s i order_id occurred_at =
     act_seq (persist_event env ''oms.order_intent_persisted'' ''trader_oms''
         (signal_scope ''order_intent'' (int_id i) s) occurred_at plain)
    (bind_act (from_res (create_order_from_intent (env_uuid5 env) occurred_at i (Some order_id) None
                 (Some occurred_at) NEW)) (\<lambda>new_order.
     bind_act (save_order env new_order) (\<lambda>r.
     act_seq (persist_event env ''oms.order_persisted'' ''trader_oms'' (signal_scope ''order'' (ord_id r) s)
         occurred_at plain)
       (pass r))))"

definition book_submission ::
  "oms_env \<Rightarrow> signal \<Rightarrow> order_intent \<Rightarrow> order \<Rightarrow> datetime \<Rightarrow> execution_report
     \<Rightarrow> (oms_world, order_intent \<times> order) act" where
  "book_submission env s i r occurred_at report =
     bind_act (save_order_intent env (i\<lparr>int_status := INTENT_SUBMITTED\<rparr>)) (\<lambda>submitted.
     act_seq (persist_event env ''oms.execution_submission_requested'' ''trader_oms''
         (signal_scope ''order'' (ord_id r) s) occurred_at plain)
    (bind_act (if execution_report_is_empty report then pass r else apply_execution_report env report r)
       (\<lambda>latest. pass (submitted, latest))))"

definition submit_intent ::
  "oms_env \<Rightarrow> signal \<Rightarrow> order_intent \<Rightarrow> uuid \<Rightarrow> datetime \<Rightarrow> (oms_world, order_intent \<times> order) act" where
  "submit_intent env s i order_id occurred_at =
     bind_act (prepare_order env s i order_id occurred_at) (\<lambda>r.
     bind_act (try_except (gateway_submit env r i) (submission_failed env s r occurred_at))
       (book_submission env s i r occurred_at))"

definition fulfil_intent ::
  "oms_env \<Rightarrow> signal \<Rightarrow> order_plan \<Rightarrow> datetime \<Rightarrow> order_intent \<Rightarrow> (oms_world, submission) act" where
  "fulfil_intent env s plan occurred_at intent =
     (let order_id = build_order_id_for_intent (env_uuid5 env) (int_id intent) in
     if int_status intent = INTENT_SUBMITTED
     then bind_act (resume_submission env intent order_id occurred_at) (\<lambda>r.
            pass \<lparr>sub_signal = s, sub_plan = plan, sub_intent = intent, sub_order = r\<rparr>)
     else bind_act (submit_intent env s intent order_id occurred_at) (\<lambda>(submitted, r).
            pass \<lparr>sub_signal = s, sub_plan = plan, sub_intent = submitted, sub_order = r\<rparr>))"

definition place_order ::
  "oms_env \<Rightarrow> signal \<Rightarrow> order_plan \<Rightarrow> datetime \<Rightarrow> (oms_world, submission) act" where
  "place_order env s plan occurred_at =
     bind_act (fresh_uuid env) (\<lambda>i.
     bind_act (from_res (to_order_intent i occurred_at plan None (Some occurred_at))) (\<lambda>new_intent.
     bind_act (save_order_intent env new_intent) (fulfil_intent env s plan occurred_at)))"

definition decide_order ::
  "oms_env \<Rightarrow> submission_request \<Rightarrow> risk_control_state \<Rightarrow> signal \<Rightarrow> position option
     \<Rightarrow> (oms_world, submission option) act" where
  "decide_order env q control s position =
     bind_act (from_res (plan_signal_order q s position)) (\<lambda>plan.
     bind_act (current_exposure env q s plan) (\<lambda>(open_positions, recent).
     bind_act (from_res (risk_evaluate (env_policy env)
         \<lparr>ctx_signal = s, ctx_decision_price = req_decision_price q, ctx_received_at = req_occurred_at q,
          ctx_symbol_rule = req_rule q, ctx_market_context = req_market q, ctx_current_position = position,
          ctx_open_positions = open_positions, ctx_recent_intents = recent, ctx_plan = plan,
          ctx_order_type = req_type q, ctx_price = req_price q, ctx_control_state = control\<rparr>)) (\<lambda>result.
       if \<not> rr_allowed result
       then act_seq (persist_risk_rejection env s result (req_occurred_at q)) (pass None)
       else (case plan of
           Some p \<Rightarrow>
             if plan_actionable p
             then bind_act (place_order env s p (req_occurred_at q)) (\<lambda>x. pass (Some x))
             else act_seq (persist_event env ''oms.signal_skipped'' ''trader_oms''
                    (signal_scope ''signal'' (sig_id s) s) (req_occurred_at q)
                    (plain\<lparr>obs_reason := Some (rr_code result)\<rparr>)) (pass None)
         | None \<Rightarrow> act_seq (persist_event env ''oms.signal_skipped'' ''trader_oms''
                    (signal_scope ''signal'' (sig_id s) s) (req_occurred_at q)
                    (plain\<lparr>obs_reason := Some (rr_code result)\<rparr>)) (pass None)))))"

definition submit_signal :: "oms_env \<Rightarrow> submission_request \<Rightarrow> (oms_world, submission option) act" where
  "submit_signal env q =
     bind_act (resolve_control env q) (\<lambda>control.
     bind_act (lease_admits env q) (\<lambda>admitted.
     if \<not> admitted then pass None
     else
       bind_act (save_signal env (req_signal q)) (\<lambda>s.
       bind_act (case req_position q of
                   Some p \<Rightarrow> pass (Some p)
                 | None \<Rightarrow> oms_get_position env (sig_account (req_signal q)) (sig_exchange (req_signal q))
                             (sig_symbol (req_signal q))) (\<lambda>held.
       bind_act (case req_market q of
                   None \<Rightarrow> pass held
                 | Some m \<Rightarrow> release_position_for_trade_date env held (ms_trade_date m) (req_occurred_at q)
                               (sig_run_id s)) (\<lambda>position.
         decide_order env q control s position)))))"

section \<open>Cancelling\<close>

definition gateway_cancel :: "oms_env \<Rightarrow> order \<Rightarrow> (oms_world, execution_report) act" where
  "gateway_cancel env r = (\<lambda>w.
     (env_cancel env (length (ow_cancelled w)) r, w\<lparr>ow_cancelled := ow_cancelled w @ [r]\<rparr>))"

definition cancel_order :: "oms_env \<Rightarrow> uuid \<Rightarrow> datetime \<Rightarrow> (oms_world, order option) act" where
  "cancel_order env order_id occurred_at =
     bind_act (query env (orders_get order_id)) (\<lambda>found.
       case found of
         None \<Rightarrow> pass None
       | Some r \<Rightarrow>
           bind_act (gateway_cancel env r) (\<lambda>report.
             if execution_report_is_empty report then pass (Some r)
             else act_seq (persist_event env ''oms.execution_cancel_requested'' ''trader_oms'' (order_scope r)
                      occurred_at plain)
                    (bind_act (apply_execution_report env report r) (\<lambda>latest. pass (Some latest)))))"

record cancel_all_result =
  ca_requested :: nat
  ca_cancelled :: nat
  ca_skipped :: nat

text \<open>The reduce-only orders of a halted account stay; the counters are cancelled and skipped.\<close>

definition cancel_one ::
  "oms_env \<Rightarrow> risk_control_state \<Rightarrow> datetime \<Rightarrow> nat \<times> nat \<Rightarrow> order \<Rightarrow> (oms_world, nat \<times> nat) act" where
  "cancel_one env control occurred_at counts r =
     bind_act (query env (intents_get (ord_intent_id r))) (\<lambda>intent.
       if control \<in> {KILL_SWITCH, PROTECTION_MODE}
          \<and> (case intent of None \<Rightarrow> False | Some i \<Rightarrow> int_reduce_only i)
       then pass (fst counts, Suc (snd counts))
       else bind_act (cancel_order env (ord_id r) occurred_at) (\<lambda>cancelled.
         if (case cancelled of None \<Rightarrow> False | Some x \<Rightarrow> ord_status x = CANCELED)
         then pass (Suc (fst counts), snd counts)
         else pass (fst counts, Suc (snd counts))))"

definition cancel_all_orders ::
  "oms_env \<Rightarrow> string \<Rightarrow> risk_control_state option \<Rightarrow> datetime \<Rightarrow> (oms_world, cancel_all_result) act" where
  "cancel_all_orders env account control_state occurred_at =
     bind_act (if env_has_control env \<and> control_state = None
               then bind_act (control_session env (get_control account)) (\<lambda>snapshot. pass (ctl_control_state snapshot))
               else pass (case control_state of None \<Rightarrow> CTRL_NORMAL | Some c \<Rightarrow> c)) (\<lambda>control.
     bind_act (list_active_orders env account) (\<lambda>active.
     bind_act (act_fold (cancel_one env control occurred_at) (0, 0) active) (\<lambda>(cancelled, skipped).
       pass \<lparr>ca_requested = length active, ca_cancelled = cancelled, ca_skipped = skipped\<rparr>)))"

section \<open>Recovery\<close>

definition oms_load_recovery_state ::
  "oms_env \<Rightarrow> string \<Rightarrow> uuid option \<Rightarrow> nat \<Rightarrow> date option \<Rightarrow> datetime \<Rightarrow> (oms_world, recovery_state) act" where
  "oms_load_recovery_state env account run_id event_limit effective_trade_date now =
     bind_act (query env (load_runtime_state account run_id event_limit)) (\<lambda>st.
       pass (case effective_trade_date of
               None \<Rightarrow> st
             | Some d \<Rightarrow> st\<lparr>rec_open_positions := map (\<lambda>p.
                 rel_position (release_position_sellable_qty p d now)) (rec_open_positions st)\<rparr>))"

definition seed_initial_balance ::
  "oms_env \<Rightarrow> string \<Rightarrow> string \<Rightarrow> uuid \<Rightarrow> date \<Rightarrow> datetime \<Rightarrow> recovery_state
     \<Rightarrow> (oms_world, balance_snapshot list) act" where
  "seed_initial_balance env account exchange run_id effective_trade_date occurred_at st =
     (if rec_latest_balances st \<noteq> [] \<or> rec_open_orders st \<noteq> [] \<or> rec_open_positions st \<noteq> []
      then pass (rec_latest_balances st)
      else bind_act (has_fill_history env account) (\<lambda>history.
        if history then pass (rec_latest_balances st)
        else
          let snapshot_time = effective_trade_date * us_per_day; created_at = max occurred_at snapshot_time in
          bind_act (fresh_uuid env) (\<lambda>i.
          bind_act (from_res (make_balance
            \<lparr>bal_id = i, bal_account = account, bal_exchange = exchange, bal_asset = ''CNY'',
             bal_total = env_initial_cash env, bal_available = env_initial_cash env, bal_locked = 0,
             bal_snapshot_time = snapshot_time, bal_created_at = created_at\<rparr>)) (\<lambda>seed.
          bind_act (save_balance_snapshot env seed) (\<lambda>saved.
          bind_act (fresh_uuid env) (\<lambda>j. bind_act (fresh_uuid env) (\<lambda>k.
          bind_act (from_res (log_entry j k ''portfolio.balance_initialized'' ''trader_oms''
              \<lparr>sc_type = ''balance_snapshot'', sc_id = bal_id saved, sc_run_id = run_id, sc_account = account,
               sc_exchange = exchange, sc_symbol = ''''\<rparr> None occurred_at)) (\<lambda>entry.
          act_seq (save_event_log env entry) (pass [saved]))))))))) "

definition release_all ::
  "oms_env \<Rightarrow> date \<Rightarrow> datetime \<Rightarrow> uuid \<Rightarrow> position list \<Rightarrow> position \<Rightarrow> (oms_world, position list) act" where
  "release_all env effective_trade_date occurred_at run_id ps p =
     bind_act (release_position_for_trade_date env (Some p) effective_trade_date occurred_at run_id) (\<lambda>q.
       pass (case q of None \<Rightarrow> ps | Some x \<Rightarrow> ps @ [x]))"

definition recover_account_state ::
  "oms_env \<Rightarrow> string \<Rightarrow> string \<Rightarrow> uuid \<Rightarrow> date \<Rightarrow> nat \<Rightarrow> datetime \<Rightarrow> (oms_world, recovery_state) act" where
  "recover_account_state env account exchange run_id effective_trade_date event_limit occurred_at =
     bind_act (query env (load_runtime_state account None event_limit)) (\<lambda>st.
     bind_act (seed_initial_balance env account exchange run_id effective_trade_date occurred_at st) (\<lambda>balances.
     bind_act (act_fold (release_all env effective_trade_date occurred_at run_id) [] (rec_open_positions st))
       (\<lambda>positions.
       pass (st\<lparr>rec_open_positions := positions, rec_latest_balances := balances\<rparr>))))"

end
