(* ===== verification/Oms_Safety.thy ===== *)
theory Oms_Safety
  imports Trader_Oms
begin

text \<open>
  What the order management service keeps: the constraints of the tables and the life of every order
  under every call, returning or raising; when it calls the execution gateway; what failures leave.
\<close>

section \<open>The tables under every call\<close>

definition oms_evolves :: "oms_world \<Rightarrow> oms_world \<Rightarrow> bool" where
  "oms_evolves w w' \<longleftrightarrow>
     (tables_ok (ow_tables w) \<longrightarrow> tables_ok (ow_tables w') \<and> evolves (ow_tables w) (ow_tables w'))
     \<and> prefix (ow_submitted w) (ow_submitted w') \<and> prefix (ow_cancelled w) (ow_cancelled w')
     \<and> ow_uuids w \<le> ow_uuids w'"

interpretation books: step_relation oms_evolves
  by unfold_locales (auto simp: oms_evolves_def intro: evolves_trans prefix_order.trans)

lemma books_session: "sound_save op \<Longrightarrow> books.steps (session env op)"
  by (rule books.stepsI)
    (auto simp: session_def oms_evolves_def sound_save_def Let_def split: option.splits sum.splits)

lemma sound_query: "sound_save (\<lambda>db. res_map (\<lambda>x. (x, db)) (op db))"
  by (rule sound_saveI) auto

lemma books_on_trader: "books.steps (on_trader m)"
  by (rule books.stepsI) (auto simp: on_trader_def oms_evolves_def split: prod.splits)

lemma books_control_session: "books.steps (control_session env op)"
  by (rule books.stepsI)
    (auto simp: control_session_def on_trader_def oms_evolves_def Let_def split: option.splits prod.splits)

lemma books_fresh: "books.steps (fresh_uuid env)"
  by (rule books.stepsI) (auto simp: fresh_uuid_def oms_evolves_def)

lemma books_count: "books.steps (count_rejection s r t)"
  by (rule books.stepsI) (auto simp: count_rejection_def oms_evolves_def split: prod.splits)

lemma books_gateway: "books.steps (gateway_submit env r i)" "books.steps (gateway_cancel env r)"
  by (rule books.stepsI; auto simp: gateway_submit_def gateway_cancel_def oms_evolves_def)+

lemma books_observe: "books.steps (observe e s n b r)"
  by (simp add: observe_def books_on_trader)

lemma books_protect: "books.steps (activate_protection_mode env a t)"
  unfolding activate_protection_mode_def by (intro books.steps_rules books_control_session books_observe)

lemma books_persist_write: "sound_save op \<Longrightarrow> books.steps (persist_write env op e c p)"
  unfolding persist_write_def by (intro books.steps_rules books_session books_protect books_observe)

lemmas books_saves = books_persist_write [OF sound_signals_save, of env for env]

lemma books_save:
  "books.steps (save_signal env s)" "books.steps (save_order_intent env i)" "books.steps (save_order env r)"
  "books.steps (save_fill env f)" "books.steps (save_position env p)"
  "books.steps (save_balance_snapshot env b)" "books.steps (save_event_log env e)"
  unfolding save_signal_def save_order_intent_def save_order_def save_fill_def save_position_def
    save_balance_snapshot_def save_event_log_def
  by (rule books_persist_write sound_saves)+

lemma books_event: "books.steps (persist_event env ty src sc t obs)"
  unfolding persist_event_def by (intro books.steps_rules books_fresh books_save books_observe)

lemmas books_parts = books.steps_rules books_session sound_query books_control_session books_fresh books_count
  books_gateway books_observe books_protect books_save books_event

lemma books_query: "books.steps (query env op)"
  by (rule books_session [OF sound_query])

lemmas books_all = books_query books_parts

lemma books_reads:
  "books.steps (oms_get_position env a x s)" "books.steps (oms_latest_balance env a x y)"
  "books.steps (list_recent_active_order_intents env a x s t)" "books.steps (list_active_orders env a)"
  "books.steps (has_fill_history env a)"
  unfolding oms_get_position_def oms_latest_balance_def list_recent_active_order_intents_def
    list_active_orders_def has_fill_history_def
  by (rule books_query)+

lemma books_release: "books.steps (release_position_for_trade_date env p d t i)"
  unfolding release_position_for_trade_date_def by (intro books_all)

lemma books_report: "books.steps (apply_execution_report env rep r)"
  unfolding apply_execution_report_def apply_report_update_def apply_report_fill_def book_fill_def
  by (intro books_all books_reads)

lemma books_rejection: "books.steps (persist_risk_rejection env s r t)"
  unfolding persist_risk_rejection_def by (intro books_all)

lemma books_submission_failed: "books.steps (submission_failed env s r t e)"
  unfolding submission_failed_def by (intro books_all)

lemma books_place_order: "books.steps (place_order env s p t)"
  unfolding place_order_def fulfil_intent_def resume_submission_def submit_intent_def prepare_order_def book_submission_def
  by (intro books_all books_report books_submission_failed)

lemma books_decide_order: "books.steps (decide_order env q c s p)"
  unfolding decide_order_def current_exposure_def
  by (intro books_all books_reads books_rejection books_place_order)

lemma books_submit_signal: "books.steps (submit_signal env q)"
  unfolding submit_signal_def resolve_control_def lease_admits_def
  by (intro books_all books_reads books_rejection books_release books_decide_order)

lemma books_cancel_order: "books.steps (cancel_order env i t)"
  unfolding cancel_order_def by (intro books_all books_report)

lemma books_cancel_all: "books.steps (cancel_all_orders env a c t)"
  unfolding cancel_all_orders_def cancel_one_def by (intro books_all books_reads books_cancel_order)

lemma books_recover: "books.steps (recover_account_state env a x i d n t)"
  unfolding recover_account_state_def seed_initial_balance_def release_all_def
  by (intro books_all books_reads books_release)

text \<open>The calls of the service, and runs of them; a call that raises leaves what it wrote.\<close>

datatype oms_call =
    Submit_Signal submission_request
  | Cancel_Order uuid datetime
  | Cancel_All string "risk_control_state option" datetime
  | Recover string string uuid date nat datetime

fun oms_serve :: "oms_env \<Rightarrow> oms_call \<Rightarrow> oms_world \<Rightarrow> oms_world" where
  "oms_serve env (Submit_Signal q) w = snd (submit_signal env q w)"
| "oms_serve env (Cancel_Order i t) w = snd (cancel_order env i t w)"
| "oms_serve env (Cancel_All a c t) w = snd (cancel_all_orders env a c t w)"
| "oms_serve env (Recover a x i d n t) w = snd (recover_account_state env a x i d n t w)"

definition oms_run :: "oms_env \<Rightarrow> oms_call list \<Rightarrow> oms_world \<Rightarrow> oms_world" where
  "oms_run env calls w = foldl (\<lambda>w c. oms_serve env c w) w calls"

lemma oms_serve_evolves: "oms_evolves w (oms_serve env c w)"
  by (cases c)
    (simp_all add: books.stepsD [OF books_submit_signal prod.collapse [symmetric]]
      books.stepsD [OF books_cancel_order prod.collapse [symmetric]]
      books.stepsD [OF books_cancel_all prod.collapse [symmetric]]
      books.stepsD [OF books_recover prod.collapse [symmetric]])

lemma oms_run_evolves: "oms_evolves w (oms_run env calls w)"
  unfolding oms_run_def
  by (induction calls arbitrary: w) (auto intro: books.refl books.trans oms_serve_evolves)

text \<open>
  C5.  The books under every call.  Whatever sequence of calls the service is given, whichever
  sessions fail and whatever the gateway answers, returning or raising: the tables keep their
  constraints, unique and foreign keys; signals, fills, balance snapshots and events are only added;
  no intent or order disappears; and the status of every order moves along the status machine.
\<close>

theorem books_survive_every_call:
  assumes "tables_ok (ow_tables w)"
  shows "tables_ok (ow_tables (oms_run env calls w)) \<and> evolves (ow_tables w) (ow_tables (oms_run env calls w))"
  using oms_run_evolves [of w env calls] assms by (simp add: oms_evolves_def)

section \<open>What does not reach the gateway\<close>

text \<open>
  A calm step neither hands an order to the gateway nor touches the intents, the leases or the
  operator's other records of who may submit; a quiet step hands no order to the gateway.
\<close>

definition calm_step :: "oms_world \<Rightarrow> oms_world \<Rightarrow> bool" where
  "calm_step w w' \<longleftrightarrow> ow_submitted w' = ow_submitted w \<and> tb_intents (ow_tables w') = tb_intents (ow_tables w)
     \<and> db_leases (tw_db (ow_trader w')) = db_leases (tw_db (ow_trader w)) \<and> ow_uuids w \<le> ow_uuids w'"

definition quiet_step :: "oms_world \<Rightarrow> oms_world \<Rightarrow> bool" where
  "quiet_step w w' \<longleftrightarrow> ow_submitted w' = ow_submitted w"

interpretation calm: step_relation calm_step
  by unfold_locales (auto simp: calm_step_def)

interpretation quiet: step_relation quiet_step
  by unfold_locales (auto simp: quiet_step_def)

lemma calm_quiet: "calm.steps m \<Longrightarrow> quiet.steps m"
  by (simp add: calm.steps_def quiet.steps_def calm_step_def quiet_step_def)

definition keeps_intents :: "(tables \<Rightarrow> ('a \<times> tables) res) \<Rightarrow> bool" where
  "keeps_intents op \<longleftrightarrow> (\<forall>db x db'. op db = Inr (x, db') \<longrightarrow> tb_intents db' = tb_intents db)"

lemma keeps_intents_saves:
  "keeps_intents (signals_save q s)" "keeps_intents (orders_save q r)" "keeps_intents (fills_save q f)"
  "keeps_intents (positions_save q p)" "keeps_intents (balances_save q b)" "keeps_intents (events_save e)"
  "keeps_intents (\<lambda>db. res_map (\<lambda>x. (x, db)) (op db))"
  unfolding keeps_intents_def signals_save_def orders_save_def fills_save_def positions_save_def
    balances_save_def events_save_def
  by (auto simp: Let_def split: option.splits if_splits)

lemma calm_session: "keeps_intents op \<Longrightarrow> calm.steps (session env op)"
  by (rule calm.stepsI)
    (auto simp: session_def calm_step_def keeps_intents_def Let_def split: option.splits sum.splits)

lemma calm_query: "calm.steps (query env op)"
  by (rule calm_session [OF keeps_intents_saves(7)])

definition keeps_leases :: "(datetime \<Rightarrow> control_db \<Rightarrow> 'a \<times> control_db) \<Rightarrow> bool" where
  "keeps_leases op \<longleftrightarrow> (\<forall>t db x db'. op t db = (x, db') \<longrightarrow> db_leases db' = db_leases db)"

lemma keeps_leases_ops:
  "keeps_leases (get_control a)" "keeps_leases (\<lambda>t. set_protection_mode a b t t)" "keeps_leases (\<lambda>_ db. (f db, db))"
  by (auto simp: keeps_leases_def get_control_def set_protection_mode_def mutate_control_def put_control_def Let_def)

lemma calm_control_session: "keeps_leases op \<Longrightarrow> calm.steps (control_session env op)"
  unfolding keeps_leases_def
  by (rule calm.stepsI)
    (auto simp: control_session_def on_trader_def on_store_def transact_def transact_res_def calm_step_def Let_def
      split: option.splits prod.splits sum.splits)

lemma calm_fresh: "calm.steps (fresh_uuid env)"
  by (rule calm.stepsI) (auto simp: fresh_uuid_def calm_step_def)

lemma calm_count: "calm.steps (count_rejection s r t)"
  by (rule calm.stepsI) (auto simp: count_rejection_def calm_step_def split: prod.splits)

lemma calm_observe: "calm.steps (observe e s n b r)"
  by (rule calm.stepsI) (auto simp: observe_def on_trader_def calm_step_def)

lemma calm_protect: "calm.steps (activate_protection_mode env a t)"
  unfolding activate_protection_mode_def
  by (intro calm.steps_rules calm_control_session keeps_leases_ops calm_observe)

lemma calm_persist_write: "keeps_intents op \<Longrightarrow> calm.steps (persist_write env op e c p)"
  unfolding persist_write_def by (intro calm.steps_rules calm_session calm_protect calm_observe)

lemma calm_save:
  "calm.steps (save_signal env s)" "calm.steps (save_order env r)" "calm.steps (save_fill env f)"
  "calm.steps (save_position env p)" "calm.steps (save_balance_snapshot env b)" "calm.steps (save_event_log env e)"
  unfolding save_signal_def save_order_def save_fill_def save_position_def save_balance_snapshot_def
    save_event_log_def
  by (rule calm_persist_write keeps_intents_saves)+

lemma calm_event: "calm.steps (persist_event env ty src sc t obs)"
  unfolding persist_event_def by (intro calm.steps_rules calm_fresh calm_save calm_observe)

lemmas calm_all = calm_query calm.steps_rules calm_fresh calm_count calm_observe calm_protect calm_save calm_event
  calm_control_session keeps_leases_ops

lemma calm_reads:
  "calm.steps (oms_get_position env a x s)" "calm.steps (oms_latest_balance env a x y)"
  "calm.steps (list_recent_active_order_intents env a x s t)"
  unfolding oms_get_position_def oms_latest_balance_def list_recent_active_order_intents_def
  by (rule calm_query)+

lemma calm_release: "calm.steps (release_position_for_trade_date env p d t i)"
  unfolding release_position_for_trade_date_def by (intro calm_all)

lemma calm_report: "calm.steps (apply_execution_report env rep r)"
  unfolding apply_execution_report_def apply_report_update_def apply_report_fill_def book_fill_def
  by (intro calm_all calm_reads)

lemma calm_rejection: "calm.steps (persist_risk_rejection env s r t)"
  unfolding persist_risk_rejection_def by (intro calm_all)

lemma calm_resolve: "calm.steps (resolve_control env q)"
  unfolding resolve_control_def by (intro calm_all)

lemma calm_lease: "calm.steps (lease_admits env q)"
  unfolding lease_admits_def by (intro calm_all calm_rejection)

lemma calm_exposure: "calm.steps (current_exposure env q s p)"
  unfolding current_exposure_def by (intro calm_all calm_reads)

lemma calm_resume: "calm.steps (resume_submission env i u t)"
  unfolding resume_submission_def by (intro calm_all)

lemma calm_submission_failed: "calm.steps (submission_failed env s r t e)"
  unfolding submission_failed_def by (intro calm_all)

lemma quiet_save_intent: "quiet.steps (save_order_intent env i)"
proof -
  have "quiet.steps (session env op)" for op :: "tables \<Rightarrow> (order_intent \<times> tables) res"
    by (rule quiet.stepsI) (auto simp: session_def quiet_step_def Let_def split: option.splits sum.splits)
  then show ?thesis
    unfolding save_order_intent_def persist_write_def
    by (intro quiet.steps_rules calm_quiet [OF calm_protect] calm_quiet [OF calm_observe])
qed

section \<open>What a successful write says\<close>

lemma session_ok:
  "session env op w = (Inr x, w') \<longleftrightarrow>
     (\<exists>db. env_outage env (ow_sessions w) = None \<and> op (ow_tables w) = Inr (x, db)
        \<and> w' = w\<lparr>ow_sessions := Suc (ow_sessions w), ow_tables := db\<rparr>)"
  by (auto simp: session_def Let_def split: option.splits sum.splits)

lemma try_throw_ok:
  "try_except m (\<lambda>e. bind_act (a e) (\<lambda>_. bind_act (b e) (\<lambda>_. throw e))) w = (Inr x, w') \<longleftrightarrow> m w = (Inr x, w')"
  by (auto simp: try_except_def bind_act_def split: prod.splits sum.splits)

lemma persist_write_ok:
  "persist_write env op ev c p w = (Inr x, w') \<longleftrightarrow> session env op w = (Inr x, w')"
  unfolding persist_write_def by (rule try_throw_ok)

lemmas save_ok = save_signal_def save_order_intent_def save_order_def save_fill_def save_position_def
  save_balance_snapshot_def save_event_log_def persist_write_ok session_ok

lemma make_order_intent_key:
  "make_order_intent i = Inr j \<Longrightarrow> int_id j = int_id i \<and> int_idempotency_key j = trim (int_idempotency_key i)
     \<and> int_status j = int_status i \<and> int_account j = trim (int_account i)"
  by (auto simp: make_order_intent_def normalize_intent_def Let_def)

lemma make_order_key:
  "make_order r = Inr r' \<Longrightarrow> ord_id r' = ord_id r \<and> ord_intent_id r' = ord_intent_id r \<and> ord_status r' = ord_status r"
  by (auto simp: make_order_def validate_order_contract_def normalize_order_def Let_def)

lemma make_signal_key: "make_signal s = Inr s' \<Longrightarrow> sig_id s' = sig_id s"
  by (auto simp: make_signal_def normalize_signal_def Let_def)

lemma intents_save_key:
  assumes "intents_save q i db = Inr (j, db')"
  shows "int_idempotency_key j = trim (int_idempotency_key i)" "int_id j \<in> int_id ` set (tb_intents db')"
  using assms
  by (auto simp: intents_save_def set_rewrite_rows image_iff dest!: find_row_SomeD make_order_intent_key
      split: option.splits if_splits)

lemma intents_save_submitted:
  assumes "intents_save q i db = Inr (j, db')" "tables_ok db" "int_id i \<notin> int_id ` set (tb_intents db)"
    and "e \<in> set (tb_intents db)" "int_idempotency_key e = int_idempotency_key i"
  shows "db' = db" "int_status j = int_status e" "int_id j = int_id e"
proof -
  have "find_row (\<lambda>r. int_id r = int_id i) (tb_intents db) = None"
    using assms(3) unfolding find_row_None by (metis image_eqI)
  moreover have "find_row (\<lambda>r. int_idempotency_key r = int_idempotency_key i) (tb_intents db) = Some e"
    using find_row_key [of int_idempotency_key "tb_intents db" e] assms(2,4,5) by (simp add: tables_ok_def)
  moreover have "int_id e \<noteq> int_id i"
    using assms(3,4) by (metis image_eqI)
  ultimately have "make_order_intent e = Inr j \<and> db' = db"
    using assms(1) by (auto simp: intents_save_def)
  then show "db' = db" "int_status j = int_status e" "int_id j = int_id e"
    using make_order_intent_key by auto
qed

lemma orders_save_row:
  assumes "orders_save q r db = Inr (r', db')"
  shows "ord_id r' \<in> ord_id ` set (tb_orders db')" "ord_intent_id r' = ord_intent_id r"
proof -
  show "ord_intent_id r' = ord_intent_id r"
    using assms by (auto simp: orders_save_def Let_def dest: make_order_key split: option.splits if_splits)
  show "ord_id r' \<in> ord_id ` set (tb_orders db')"
    using assms
    by (auto simp: orders_save_def Let_def set_rewrite_rows dest!: make_order_key find_row_SomeD
        split: option.splits if_splits)
qed

lemma signals_save_id: "signals_save q s db = Inr (s', db') \<Longrightarrow> sig_id s' = sig_id s"
  by (auto simp: signals_save_def dest!: make_signal_key find_row_SomeD split: option.splits)

section \<open>When the gateway is called\<close>

lemma bind_act_cases:
  assumes "bind_act m k w = (r, w')"
  obtains e where "m w = (Inl e, w')" "r = Inl e" | x w1 where "m w = (Inr x, w1)" "k x w1 = (r, w')"
proof -
  obtain r1 w1 where "m w = (r1, w1)" by fastforce
  then show thesis
    using assms that by (cases r1) (auto simp: bind_act_def)
qed

lemma evolves_orders: "evolves db db' \<Longrightarrow> ord_id ` set (tb_orders db) \<subseteq> ord_id ` set (tb_orders db')"
  unfolding evolves_def orders_move_def by (metis image_eqI image_subsetI)

lemma calm_prepare: "calm.steps (prepare_order env s i oid t)"
  unfolding prepare_order_def by (intro calm_all)

lemma books_prepare: "books.steps (prepare_order env s i oid t)"
  unfolding prepare_order_def by (intro books_all)

lemma prepare_order_row:
  assumes "prepare_order env s i oid t w = (Inr r, w')" "tables_ok (ow_tables w)"
  shows "ord_intent_id r = int_id i" "ord_id r \<in> ord_id ` set (tb_orders (ow_tables w'))"
proof -
  obtain r0 w1 w2 u v where w: "persist_event env ''oms.order_intent_persisted'' ''trader_oms''
      (signal_scope ''order_intent'' (int_id i) s) t plain w = (Inr u, w1)"
      "create_order_from_intent (env_uuid5 env) t i (Some oid) None (Some t) NEW = Inr r0"
      "save_order env r0 w1 = (Inr r, w2)" "persist_event env ''oms.order_persisted'' ''trader_oms''
      (signal_scope ''order'' (ord_id r) s) t plain w2 = (Inr v, w')"
    using assms(1) by (auto simp: prepare_order_def)
  have "ord_intent_id r0 = int_id i"
    using w(2) make_order_key by (auto simp: create_order_from_intent_def Let_def)
  moreover have row: "ord_intent_id r = ord_intent_id r0" "ord_id r \<in> ord_id ` set (tb_orders (ow_tables w2))"
    using w(3) orders_save_row by (auto simp: save_ok)
  ultimately show "ord_intent_id r = int_id i"
    by simp
  have "oms_evolves w w1" "oms_evolves w1 w2" "oms_evolves w2 w'"
    using books.stepsD [OF books_event w(1)] books.stepsD [OF books_save(3) w(3)]
      books.stepsD [OF books_event w(4)] .
  then have "evolves (ow_tables w2) (ow_tables w')"
    using assms(2) by (simp add: oms_evolves_def)
  then show "ord_id r \<in> ord_id ` set (tb_orders (ow_tables w'))"
    using evolves_orders row(2) by blast
qed

text \<open>The part of a submission after the gateway has been called hands over nothing more.\<close>

lemma quiet_book_submission: "quiet.steps (book_submission env s i r t report)"
  unfolding book_submission_def
  by (intro quiet.steps_rules quiet_save_intent calm_quiet [OF calm_event] calm_quiet [OF calm_report])

lemma hand_over_once:
  assumes "bind_act (try_except (gateway_submit env r i) (submission_failed env s r t))
      (book_submission env s i r t) w = (res, w')"
  shows "ow_submitted w' = ow_submitted w @ [(r, i)]"
proof -
  let ?w1 = "w\<lparr>ow_submitted := ow_submitted w @ [(r, i)]\<rparr>"
  have "quiet.steps (bind_act (submission_failed env s r t e) (book_submission env s i r t))" for e
    by (intro quiet.steps_rules calm_quiet [OF calm_submission_failed] quiet_book_submission)
  note failed = quiet.stepsD [OF this] and booked = quiet.stepsD [OF quiet_book_submission]
  have "quiet_step ?w1 w'"
  proof (cases "env_submit env (length (ow_submitted w)) r i")
    case (Inl e)
    then have "bind_act (submission_failed env s r t e) (book_submission env s i r t) ?w1 = (res, w')"
      using assms by (simp add: bind_act_def try_except_def gateway_submit_def)
    then show ?thesis by (rule failed)
  next
    case (Inr report)
    then have "book_submission env s i r t report ?w1 = (res, w')"
      using assms by (simp add: bind_act_def try_except_def gateway_submit_def)
    then show ?thesis by (rule booked)
  qed
  then show ?thesis
    by (simp add: quiet_step_def)
qed

end
