(* ===== verification/Oms_Gateway.thy ===== *)
theory Oms_Gateway
  imports Oms_Safety
begin

text \<open>
  When the order management service hands an order to the execution gateway: only for a signal that
  the submission guard and the risk gate let through, once in a call, after the order and its intent
  are rows; and never again for a signal whose submission has returned.
\<close>

section \<open>The way to the gateway\<close>

lemma calm_way: "calm_step w w1 \<Longrightarrow> ow_submitted w' \<noteq> ow_submitted w \<Longrightarrow> ow_submitted w' \<noteq> ow_submitted w1"
  by (simp add: calm_step_def)

lemma calm_books:
  "calm.steps m \<Longrightarrow> books.steps m \<Longrightarrow> m w = (r, w') \<Longrightarrow> tables_ok (ow_tables w)
     \<Longrightarrow> calm_step w w' \<and> tables_ok (ow_tables w')"
  using calm.stepsD books.stepsD by (metis oms_evolves_def)

lemma lease_admits_True:
  assumes "lease_admits env q w = (Inr True, w')" "env_has_control env" "req_guard q = Some g"
  shows "sg_account g = sig_account (req_signal q)"
    "la_accepted (validate_submission_lease (sg_account g) (sg_instance g) (sg_fencing_token g)
       (req_occurred_at q) (tw_db (ow_trader w)))"
  using assms
  by (auto simp: lease_admits_def control_session_def on_trader_def on_store_def transact_def transact_res_def Let_def
      split: if_splits option.splits prod.splits sum.splits)

lemma save_signal_id: "save_signal env s w = (Inr s', w') \<Longrightarrow> sig_id s' = sig_id s"
  by (auto simp: save_ok dest: signals_save_id)

lemma calm_bindE:
  assumes "bind_act m k w = (res, w')" "ow_submitted w' \<noteq> ow_submitted w0" "calm_step w0 w" "tables_ok (ow_tables w)"
    "calm.steps m \<and> books.steps m"
  obtains x w1 where "m w = (Inr x, w1)" "calm_step w0 w1" "tables_ok (ow_tables w1)" "k x w1 = (res, w')"
proof -
  obtain r w1 where m: "m w = (r, w1)" by fastforce
  have c: "calm_step w0 w1" "tables_ok (ow_tables w1)"
    using calm_books [OF conjunct1 [OF assms(5)] conjunct2 [OF assms(5)] m assms(4)] assms(3) calm.trans by blast+
  show thesis
  proof (cases r)
    case (Inl e)
    then show thesis
      using assms(1,2) m c(1) by (auto simp: bind_act_def calm_step_def)
  next
    case (Inr x)
    then show thesis
      using assms(1) m c that by (auto simp: bind_act_def)
  qed
qed

lemma books_resolve: "books.steps (resolve_control env q)"
  unfolding resolve_control_def by (intro books_all)

lemma books_lease: "books.steps (lease_admits env q)"
  unfolding lease_admits_def by (intro books_all books_rejection)

lemma books_exposure: "books.steps (current_exposure env q s p)"
  unfolding current_exposure_def by (intro books_all books_reads)

lemmas way_rules = conjI calm_resolve books_resolve calm_lease books_lease calm_exposure books_exposure calm_all books_all
  calm_reads books_reads calm_release books_release calm_rejection books_rejection

lemma submit_signal_way:
  assumes "submit_signal env q w = (res, w')" "ow_submitted w' \<noteq> ow_submitted w" "tables_ok (ow_tables w)"
  obtains control wc wl s position wd
  where "resolve_control env q w = (Inr control, wc)" "lease_admits env q wc = (Inr True, wl)"
    "calm_step w wc" "calm_step w wd" "tables_ok (ow_tables wd)" "sig_id s = sig_id (req_signal q)"
    "decide_order env q control s position wd = (res, w')"
  using assms calm.refl [of w] unfolding submit_signal_def
  apply -
  apply (erule calm_bindE, assumption, assumption, assumption, (intro way_rules; fail))
  apply (erule calm_bindE, assumption, assumption, assumption, (intro way_rules; fail))
  subgoal for control wc admitted wl
    apply (cases admitted)
     apply (simp_all only: simp_thms if_False if_True)
     apply (erule calm_bindE, assumption, assumption, assumption, (intro way_rules; fail))
     apply (erule calm_bindE, assumption, assumption, assumption, (intro way_rules; fail))
     apply (erule calm_bindE, assumption, assumption, assumption, (intro way_rules; fail))
     apply (drule save_signal_id)
     apply blast
    by (simp add: pass_def calm_step_def)
  done


lemma calm_stop:
  "calm.steps m \<Longrightarrow> m w = (res, w') \<Longrightarrow> ow_submitted w' \<noteq> ow_submitted w0 \<Longrightarrow> calm_step w0 w \<Longrightarrow> False"
  using calm.stepsD [of m w res w'] by (auto simp: calm_step_def)

lemma calm_skip: "calm.steps (act_seq (persist_event env ty src sc t obs) (pass x))"
  "calm.steps (act_seq (persist_risk_rejection env s r t) (pass x))"
  by (intro calm_all calm_rejection)+

lemma bind_pass_state: "bind_act m (\<lambda>x. pass (f x)) w = (res, w') \<Longrightarrow> \<exists>res'. m w = (res', w')"
  by (auto simp: bind_act_def split: prod.splits sum.splits)

lemma decide_order_way:
  assumes "decide_order env q control s position w = (res, w')" "ow_submitted w' \<noteq> ow_submitted w"
    "tables_ok (ow_tables w)"
  obtains p ctx rr w1 res'
  where "plan_signal_order q s position = Inr (Some p)" "plan_actionable p"
    "risk_evaluate (env_policy env) ctx = Inr rr" "rr_allowed rr"
    "ctx_signal ctx = s" "ctx_plan ctx = Some p" "ctx_control_state ctx = control" "ctx_current_position ctx = position"
    "calm_step w w1" "tables_ok (ow_tables w1)" "place_order env s p (req_occurred_at q) w1 = (res', w')"
  using assms calm.refl [of w] unfolding decide_order_def
  apply -
  apply (erule calm_bindE, assumption, assumption, assumption, (intro way_rules; fail))
  apply (erule calm_bindE, assumption, assumption, assumption, (intro way_rules; fail))
  apply (simp only: split: prod.splits)
  apply (erule calm_bindE, assumption, assumption, assumption, (intro way_rules; fail))
  subgoal premises p for plan wp exposure we opened recent rr wr
  proof -
    have ok: "rr_allowed rr"
      using p(15) calm_stop [OF calm_skip(2) _ p(2,13)] by (auto split: if_splits)
    obtain a where a: "plan = Some a" "plan_actionable a"
      using p(15) ok
      by (cases plan) (auto split: if_splits dest: calm_stop [OF calm_skip(1) _ p(2,13)])
    then have "bind_act (place_order env s a (req_occurred_at q)) (\<lambda>x. pass (Some x)) wr = (res, w')"
      using p(15) ok by simp
    from bind_pass_state [OF this] obtain r where
      pl: "place_order env s a (req_occurred_at q) wr = (r, w')" by blast
    have "\<exists>ctx. risk_evaluate (env_policy env) ctx = Inr rr \<and> ctx_signal ctx = s \<and> ctx_plan ctx = Some a
      \<and> ctx_control_state ctx = control \<and> ctx_current_position ctx = position"
      using p(12) a(1) by (simp only: from_res_apply prod.inject) (intro exI conjI, auto)
    then show ?thesis
      using p(1) [OF _ a(2) _ ok _ _ _ _ p(13,14) pl] p(5) a(1) by auto
  qed
  done


lemma to_order_intent_key:
  "to_order_intent u t p None c = Inr i \<Longrightarrow> int_idempotency_key i = build_order_intent_idempotency_key (plan_signal p)
     \<and> int_id i = u"
  by (auto simp: to_order_intent_def or_text_def dest!: make_order_intent_key split: option.splits if_splits)

lemma plan_signal_order_signal: "plan_signal_order q s position = Inr (Some p) \<Longrightarrow> plan_signal p = s"
  by (auto simp: plan_signal_order_def dest: plan_fields split: option.splits if_splits)

lemma intents_save_source:
  assumes "intents_save q i db = Inr (j, db')"
  shows "make_order_intent i = Inr j
     \<or> (\<exists>e \<in> set (tb_intents db). int_idempotency_key e = int_idempotency_key i \<and> make_order_intent e = Inr j)"
  using assms by (auto simp: intents_save_def dest!: find_row_SomeD split: option.splits if_splits)

lemma save_order_intent_ok:
  "save_order_intent env i w = (Inr j, w') \<Longrightarrow>
     int_idempotency_key j = trim (int_idempotency_key i) \<and> int_id j \<in> int_id ` set (tb_intents (ow_tables w'))
     \<and> ow_submitted w' = ow_submitted w
     \<and> (make_order_intent i = Inr j \<or> (\<exists>e \<in> set (tb_intents (ow_tables w)).
          int_idempotency_key e = int_idempotency_key i \<and> make_order_intent e = Inr j))"
  by (auto simp: save_ok dest: intents_save_key intents_save_source)

lemma evolves_intents: "evolves db db' \<Longrightarrow> int_id ` set (tb_intents db) \<subseteq> int_id ` set (tb_intents db')"
  by (simp add: evolves_def)

lemma books_failed_or_booked:
  "books.steps (bind_act (try_except (gateway_submit env r i) (submission_failed env s r t)) (book_submission env s i r t))"
  unfolding book_submission_def by (intro books_all books_report books_submission_failed)

lemma submit_intent_way:
  assumes "submit_intent env s i u t w = (res, w')" "ow_submitted w' \<noteq> ow_submitted w" "tables_ok (ow_tables w)"
    "int_id i \<in> int_id ` set (tb_intents (ow_tables w))"
  shows "\<exists>r. ow_submitted w' = ow_submitted w @ [(r, i)] \<and> ord_intent_id r = int_id i
     \<and> ord_id r \<in> ord_id ` set (tb_orders (ow_tables w')) \<and> int_id i \<in> int_id ` set (tb_intents (ow_tables w'))"
proof -
  obtain r w1 where r: "prepare_order env s i u t w = (Inr r, w1)" "calm_step w w1" "tables_ok (ow_tables w1)"
    and h: "bind_act (try_except (gateway_submit env r i) (submission_failed env s r t))
      (book_submission env s i r t) w1 = (res, w')"
    using calm_bindE [OF assms(1) [unfolded submit_intent_def] assms(2) calm.refl assms(3)
        conjI [OF calm_prepare books_prepare]] by metis
  have "evolves (ow_tables w1) (ow_tables w')"
    using books.stepsD [OF books_failed_or_booked h] r(3) by (simp add: oms_evolves_def)
  then have "ord_id r \<in> ord_id ` set (tb_orders (ow_tables w'))"
    "int_id ` set (tb_intents (ow_tables w1)) \<subseteq> int_id ` set (tb_intents (ow_tables w'))"
    using prepare_order_row(2) [OF r(1) assms(3)] evolves_orders evolves_intents by blast+
  then show ?thesis
    using hand_over_once [OF h] prepare_order_row(1) [OF r(1) assms(3)] r(2) assms(4)
    by (auto simp: calm_step_def)
qed


lemma place_order_way:
  assumes "place_order env s p t w = (res, w')" "ow_submitted w' \<noteq> ow_submitted w" "tables_ok (ow_tables w)"
  shows "\<exists>r i. ow_submitted w' = ow_submitted w @ [(r, i)] \<and> ord_intent_id r = int_id i
     \<and> ord_id r \<in> ord_id ` set (tb_orders (ow_tables w')) \<and> int_id i \<in> int_id ` set (tb_intents (ow_tables w'))
     \<and> int_status i \<noteq> INTENT_SUBMITTED
     \<and> int_idempotency_key i = build_order_intent_idempotency_key (plan_signal p)
     \<and> ((\<exists>u i0. to_order_intent u t p None (Some t) = Inr i0 \<and> make_order_intent i0 = Inr i)
        \<or> (\<exists>e \<in> set (tb_intents (ow_tables w)). make_order_intent e = Inr i
              \<and> int_idempotency_key e = build_order_intent_idempotency_key (plan_signal p)))"
proof -
  obtain u w0 where u: "calm_step w w0" "tables_ok (ow_tables w0)"
    "bind_act (from_res (to_order_intent u t p None (Some t))) (\<lambda>new_intent.
       bind_act (save_order_intent env new_intent) (fulfil_intent env s p t)) w0 = (res, w')"
    by (rule calm_bindE [OF assms(1) [unfolded place_order_def] assms(2) calm.refl assms(3)
        conjI [OF calm_fresh books_fresh]], blast)
  then obtain i0 where i0: "to_order_intent u t p None (Some t) = Inr i0"
    "bind_act (save_order_intent env i0) (fulfil_intent env s p t) w0 = (res, w')"
    using assms(2) by (cases "to_order_intent u t p None (Some t)") (auto simp: bind_act_def calm_step_def)
  have "quiet_step w0 w'" if "save_order_intent env i0 w0 = (Inl e, w')" for e
    using quiet.stepsD [OF quiet_save_intent that] .
  then obtain i w1 where i: "save_order_intent env i0 w0 = (Inr i, w1)" "fulfil_intent env s p t i w1 = (res, w')"
    using i0(2) assms(2) u(1) by (elim bind_act_cases) (auto simp: quiet_step_def calm_step_def)
  have w1: "tables_ok (ow_tables w1)" "ow_submitted w1 = ow_submitted w"
    "int_id i \<in> int_id ` set (tb_intents (ow_tables w1))"
    "int_idempotency_key i = build_order_intent_idempotency_key (plan_signal p)"
    "make_order_intent i0 = Inr i \<or> (\<exists>e \<in> set (tb_intents (ow_tables w)). make_order_intent e = Inr i
              \<and> int_idempotency_key e = build_order_intent_idempotency_key (plan_signal p))"
    using books.stepsD [OF books_save(2) i(1)] save_order_intent_ok [OF i(1)] u(1,2) to_order_intent_key [OF i0(1)]
    by (auto simp: oms_evolves_def calm_step_def)
  show ?thesis
  proof (cases "int_status i = INTENT_SUBMITTED")
    case True
    then have "calm.steps (fulfil_intent env s p t i)"
      unfolding fulfil_intent_def Let_def by (simp, intro calm.steps_rules calm_resume)
    from calm.stepsD [OF this i(2)] show ?thesis
      using assms(2) w1(2) by (simp add: calm_step_def)
  next
    case False
    then obtain res' where "submit_intent env s i (build_order_id_for_intent (env_uuid5 env) (int_id i)) t w1 = (res', w')"
      using i(2) by (auto simp: fulfil_intent_def bind_act_def Let_def split: prod.splits sum.splits)
    from submit_intent_way [OF this _ w1(1,3)] show ?thesis
      using assms(2) w1(2,4,5) False i0(1) by auto
  qed
qed


text \<open>The control state the gate is given.\<close>

lemma resolve_control_ok:
  assumes "resolve_control env q w = (Inr control, w')"
  shows "control = (case req_control q of Some c \<Rightarrow> c | None \<Rightarrow>
     if env_has_control env
     then ctl_control_state (fst (get_control (sig_account (req_signal q)) (env_clock env (ow_sessions w))
       (tw_db (ow_trader w)))) else CTRL_NORMAL)"
  using assms
  by (auto simp: resolve_control_def control_session_def on_trader_def on_store_def transact_def transact_res_def Let_def
      split: if_splits option.splits prod.splits sum.splits)

text \<open>
  C2.  The way to the execution gateway.  If a call of submit_signal hands anything over, it hands over
  exactly one order, whose row and whose intent's row are in the tables, for the signal of the call;
  the submission guard, when there is one, belongs to the signal's account and the lease table
  accepted it at the time of the request; and the risk gate, given the account's stored control state
  unless the caller names one, allowed an actionable plan for the signal.  The intent handed over is
  built from that plan, or it is the stored intent of an earlier, failed submission of the signal.
\<close>

theorem gateway_behind_the_gates:
  assumes "submit_signal env q w = (res, w')" "ow_submitted w' \<noteq> ow_submitted w" "tables_ok (ow_tables w)"
  shows "\<exists>r i ctx rr p.
       ow_submitted w' = ow_submitted w @ [(r, i)] \<and> ord_intent_id r = int_id i
     \<and> ord_id r \<in> ord_id ` set (tb_orders (ow_tables w')) \<and> int_id i \<in> int_id ` set (tb_intents (ow_tables w'))
     \<and> int_idempotency_key i = build_order_intent_idempotency_key (req_signal q)
     \<and> (case (if env_has_control env then req_guard q else None) of None \<Rightarrow> True | Some g \<Rightarrow>
          sg_account g = sig_account (req_signal q)
          \<and> la_accepted (validate_submission_lease (sg_account g) (sg_instance g) (sg_fencing_token g)
               (req_occurred_at q) (tw_db (ow_trader w))))
     \<and> risk_evaluate (env_policy env) ctx = Inr rr \<and> rr_allowed rr \<and> ctx_plan ctx = Some p \<and> plan_actionable p
     \<and> sig_id (plan_signal p) = sig_id (req_signal q)
     \<and> ctx_control_state ctx = (case req_control q of Some c \<Rightarrow> c | None \<Rightarrow>
          if env_has_control env
          then ctl_control_state (fst (get_control (sig_account (req_signal q)) (env_clock env (ow_sessions w))
            (tw_db (ow_trader w)))) else CTRL_NORMAL)
     \<and> ((\<exists>u i0. to_order_intent u (req_occurred_at q) p None (Some (req_occurred_at q)) = Inr i0
             \<and> make_order_intent i0 = Inr i)
        \<or> (\<exists>e \<in> set (tb_intents (ow_tables w)). make_order_intent e = Inr i \<and> int_status e \<noteq> INTENT_SUBMITTED
              \<and> int_idempotency_key e = build_order_intent_idempotency_key (req_signal q)))"
proof -
  obtain control wc wl s position wd where w: "resolve_control env q w = (Inr control, wc)"
    "lease_admits env q wc = (Inr True, wl)" "calm_step w wc" "calm_step w wd" "tables_ok (ow_tables wd)"
    "sig_id s = sig_id (req_signal q)" "decide_order env q control s position wd = (res, w')"
    by (rule submit_signal_way [OF assms])
  obtain p ctx rr w1 res' where d: "plan_signal_order q s position = Inr (Some p)" "plan_actionable p"
    "risk_evaluate (env_policy env) ctx = Inr rr" "rr_allowed rr" "ctx_plan ctx = Some p"
    "ctx_control_state ctx = control" "calm_step wd w1" "tables_ok (ow_tables w1)"
    "place_order env s p (req_occurred_at q) w1 = (res', w')"
    by (rule decide_order_way [OF w(7) calm_way [OF w(4) assms(2)] w(5)])
  have same: "calm_step w w1"
    by (rule calm.trans [OF w(4) d(7)])
  have key: "build_order_intent_idempotency_key (plan_signal p) = build_order_intent_idempotency_key (req_signal q)"
    "sig_id (plan_signal p) = sig_id (req_signal q)"
    using plan_signal_order_signal [OF d(1)] w(6) by (simp_all add: idempotency_key_inj)
  have guard: "case (if env_has_control env then req_guard q else None) of None \<Rightarrow> True | Some g \<Rightarrow>
      sg_account g = sig_account (req_signal q)
      \<and> la_accepted (validate_submission_lease (sg_account g) (sg_instance g) (sg_fencing_token g)
           (req_occurred_at q) (tw_db (ow_trader w)))"
    using lease_admits_True [OF w(2)] w(3)
    by (auto simp: calm_step_def validate_submission_lease_def read_lease_def split: option.split)
  obtain r i where h: "ow_submitted w' = ow_submitted w @ [(r, i)]" "ord_intent_id r = int_id i"
    "ord_id r \<in> ord_id ` set (tb_orders (ow_tables w'))" "int_id i \<in> int_id ` set (tb_intents (ow_tables w'))"
    "int_idempotency_key i = build_order_intent_idempotency_key (req_signal q)" "int_status i \<noteq> INTENT_SUBMITTED"
    "(\<exists>u i0. to_order_intent u (req_occurred_at q) p None (Some (req_occurred_at q)) = Inr i0
         \<and> make_order_intent i0 = Inr i)
     \<or> (\<exists>e \<in> set (tb_intents (ow_tables w)). make_order_intent e = Inr i
          \<and> int_idempotency_key e = build_order_intent_idempotency_key (req_signal q))"
    using place_order_way [OF d(9) calm_way [OF same assms(2)] d(8)] same
    unfolding key calm_step_def by metis
  have "int_status e = int_status i" if "make_order_intent e = Inr i" for e
    using make_order_intent_key [OF that] by simp
  with h(6,7) have "(\<exists>u i0. to_order_intent u (req_occurred_at q) p None (Some (req_occurred_at q)) = Inr i0
         \<and> make_order_intent i0 = Inr i)
     \<or> (\<exists>e \<in> set (tb_intents (ow_tables w)). make_order_intent e = Inr i \<and> int_status e \<noteq> INTENT_SUBMITTED
          \<and> int_idempotency_key e = build_order_intent_idempotency_key (req_signal q))"
    by metis
  with h(1-5) d(2-5) key(2) guard d(6) [unfolded resolve_control_ok [OF w(1)]] show ?thesis
    by (intro exI conjI) assumption+
qed

section \<open>Once for every signal\<close>

definition sent :: "string \<Rightarrow> oms_world \<Rightarrow> bool" where
  "sent k w \<longleftrightarrow> (\<exists>e \<in> set (tb_intents (ow_tables w)). int_status e = INTENT_SUBMITTED \<and> int_idempotency_key e = k)"

definition unused :: "oms_env \<Rightarrow> nat \<Rightarrow> oms_world \<Rightarrow> bool" where
  "unused env N w \<longleftrightarrow> (\<forall>n. ow_uuids w \<le> n \<longrightarrow> n < N \<longrightarrow> env_uuid4 env n \<notin> int_id ` set (tb_intents (ow_tables w)))"

definition once_step :: "string \<Rightarrow> oms_env \<Rightarrow> nat \<Rightarrow> oms_world \<Rightarrow> oms_world \<Rightarrow> bool" where
  "once_step k env N w w' \<longleftrightarrow> ow_uuids w \<le> ow_uuids w'
     \<and> (ow_uuids w' \<le> N \<longrightarrow> tables_ok (ow_tables w) \<longrightarrow> unused env N w \<longrightarrow>
          tables_ok (ow_tables w') \<and> unused env N w'
          \<and> (sent k w \<longrightarrow> sent k w' \<and> (\<exists>new. ow_submitted w' = ow_submitted w @ new
               \<and> k \<notin> (int_idempotency_key \<circ> snd) ` set new)))"

lemma once_step_trans:
  assumes "once_step k env N a b" "once_step k env N b c"
  shows "once_step k env N a c"
proof -
  have mono: "ow_uuids a \<le> ow_uuids b" "ow_uuids b \<le> ow_uuids c"
    using assms by (simp_all add: once_step_def)
  have "tables_ok (ow_tables c) \<and> unused env N c \<and> (sent k a \<longrightarrow> sent k c \<and>
      (\<exists>new. ow_submitted c = ow_submitted a @ new \<and> k \<notin> (int_idempotency_key \<circ> snd) ` set new))"
    if h: "ow_uuids c \<le> N" "tables_ok (ow_tables a)" "unused env N a"
  proof -
    have b: "tables_ok (ow_tables b)" "unused env N b" "sent k a \<longrightarrow> sent k b \<and>
        (\<exists>new. ow_submitted b = ow_submitted a @ new \<and> k \<notin> (int_idempotency_key \<circ> snd) ` set new)"
      using assms(1) h mono by (simp_all add: once_step_def)
    have c: "tables_ok (ow_tables c)" "unused env N c" "sent k b \<longrightarrow> sent k c \<and>
        (\<exists>new. ow_submitted c = ow_submitted b @ new \<and> k \<notin> (int_idempotency_key \<circ> snd) ` set new)"
      using assms(2) h(1) b(1,2) by (simp_all add: once_step_def)
    show ?thesis
      using b(3) c by fastforce
  qed
  with mono show ?thesis
    by (simp add: once_step_def)
qed

interpretation once: step_relation "once_step k env N" for k env N
  by unfold_locales (auto simp: once_step_def once_step_trans)

lemma once_calm:
  assumes "calm_step w w'" "oms_evolves w w'"
  shows "once_step k env N w w'"
  using assms by (auto simp: once_step_def calm_step_def oms_evolves_def sent_def unused_def)

lemma once_frame: "calm.steps m \<and> books.steps m \<Longrightarrow> once.steps k env N m"
  by (rule once.stepsI) (auto intro: once_calm calm.stepsD books.stepsD)

lemma save_order_intent_fault:
  assumes "save_order_intent env i w = (Inl e, w')"
  shows "calm_step w w'"
proof -
  obtain r w1 where s: "session env (intents_save (env_columns env) i) w = (r, w1)" by fastforce
  show ?thesis
  proof (cases r)
    case (Inr j)
    then show ?thesis
      using assms s by (simp add: save_order_intent_def persist_write_def try_except_def)
  next
    case (Inl f)
    have "calm_step w w1"
      using s Inl by (auto simp: session_def calm_step_def Let_def split: option.splits sum.splits prod.splits)
    moreover have "calm.steps (act_seq (activate_protection_mode env (int_account i) ''ORDER_INTENT_WRITE_FAILED'')
       (act_seq (observe ''db.order_intent_write_failed'' ''critical'' True True (Some ''ORDER_INTENT_WRITE_FAILED''))
          (throw f) :: (oms_world, order_intent) act))"
      by (intro calm.steps_rules calm_protect calm_observe)
    then have "calm_step w1 w'"
      using assms s Inl by (elim calm.stepsD) (simp add: save_order_intent_def persist_write_def try_except_def)
    ultimately show ?thesis
      by (rule calm.trans)
  qed
qed

lemma intents_save_new:
  assumes "intents_save q i db = Inr (j, db')" "tables_ok db" "int_id i \<notin> int_id ` set (tb_intents db)"
    and "trim (int_idempotency_key i) = int_idempotency_key i"
  shows "set (tb_intents db) \<subseteq> set (tb_intents db')"
    "int_id ` set (tb_intents db') \<subseteq> insert (int_id i) (int_id ` set (tb_intents db))"
    "\<exists>e \<in> set (tb_intents db'). int_id e = int_id j \<and> int_idempotency_key e = int_idempotency_key i
       \<and> int_status e = int_status j"
proof -
  have n: "find_row (\<lambda>r. int_id r = int_id i) (tb_intents db) = None"
    using assms(3) unfolding find_row_None by (metis image_eqI)
  have ne: "int_id e \<noteq> int_id i" if "find_row P (tb_intents db) = Some e" for P e
    using find_row_SomeD [OF that] assms(3) by (metis image_eqI)
  then have cases: "make_order_intent i = Inr j \<and> db' = db\<lparr>tb_intents := tb_intents db @ [store_intent q i]\<rparr>
    \<or> (\<exists>e \<in> set (tb_intents db). int_idempotency_key e = int_idempotency_key i
         \<and> make_order_intent e = Inr j \<and> db' = db)"
    using assms(1) n by (auto simp: intents_save_def dest!: find_row_SomeD split: option.splits if_splits)
  then show "set (tb_intents db) \<subseteq> set (tb_intents db')"
    "int_id ` set (tb_intents db') \<subseteq> insert (int_id i) (int_id ` set (tb_intents db))"
    by auto
  show "\<exists>e \<in> set (tb_intents db'). int_id e = int_id j \<and> int_idempotency_key e = int_idempotency_key i
       \<and> int_status e = int_status j"
    using cases by (auto dest!: make_order_intent_key)
qed

lemma intents_save_known:
  assumes "intents_save q i db = Inr (j, db')" "e \<in> set (tb_intents db)" "int_id e = int_id i"
  shows "make_order_intent i = Inr j"
    "tb_intents db' = rewrite_rows (\<lambda>r. int_id r = int_id i) (store_intent q i) (tb_intents db)"
proof -
  obtain x where "find_row (\<lambda>r. int_id r = int_id i) (tb_intents db) = Some x" "int_id x = int_id i"
    using assms(2,3) find_row_None [of "\<lambda>r. int_id r = int_id i" "tb_intents db"] find_row_SomeD by fastforce
  then show "make_order_intent i = Inr j"
    "tb_intents db' = rewrite_rows (\<lambda>r. int_id r = int_id i) (store_intent q i) (tb_intents db)"
    using assms(1) by (auto simp: intents_save_def)
qed

lemma unused_mono:
  "unused env N w \<Longrightarrow> int_id ` set (tb_intents (ow_tables w')) \<subseteq> int_id ` set (tb_intents (ow_tables w))
     \<Longrightarrow> ow_uuids w \<le> ow_uuids w' \<Longrightarrow> unused env N w'"
  unfolding unused_def by (meson order_trans subsetD)

lemma sent_keeps:
  assumes "sent k w" "tables_ok (ow_tables w)" "i0 \<in> set (tb_intents (ow_tables w))" "int_id i0 = int_id i"
    and "int_idempotency_key i0 \<noteq> k"
    and "tb_intents (ow_tables w') =
      rewrite_rows (\<lambda>r. int_id r = int_id i) row (tb_intents (ow_tables w))"
  shows "sent k w'"
proof -
  obtain e where e: "e \<in> set (tb_intents (ow_tables w))" "int_status e = INTENT_SUBMITTED" "int_idempotency_key e = k"
    using assms(1) by (auto simp: sent_def)
  then have "int_id e \<noteq> int_id i"
    using assms(2-5) keyedD [of int_id "tb_intents (ow_tables w)" e i0] by (auto simp: tables_ok_def)
  then show ?thesis
    using e assms(6) by (auto simp: sent_def set_rewrite_rows)
qed

text \<open>Once a second write of a known intent: the row is rewritten as submitted.\<close>

lemma save_submitted_step:
  assumes "save_order_intent env (i\<lparr>int_status := INTENT_SUBMITTED\<rparr>) w = (res, w')" "tables_ok (ow_tables w)"
    "i0 \<in> set (tb_intents (ow_tables w))" "int_id i0 = int_id i" "int_idempotency_key i0 = int_idempotency_key i"
    "unused env N w"
  shows "tables_ok (ow_tables w')" "unused env N w'" "ow_uuids w \<le> ow_uuids w'" "ow_submitted w' = ow_submitted w"
    "sent k w \<Longrightarrow> int_idempotency_key i \<noteq> k \<Longrightarrow> sent k w'"
proof -
  let ?i = "i\<lparr>int_status := INTENT_SUBMITTED\<rparr>"
  show ok: "tables_ok (ow_tables w')"
    using books.stepsD [OF books_save(2) assms(1)] assms(2) by (simp add: oms_evolves_def)
  have "calm_step w w' \<or> (\<exists>db j. intents_save (env_columns env) ?i (ow_tables w) = Inr (j, db)
      \<and> w' = w\<lparr>ow_sessions := Suc (ow_sessions w), ow_tables := db\<rparr>)"
  proof (cases res)
    case (Inl e)
    then show ?thesis using save_order_intent_fault assms(1) by blast
  next
    case (Inr j)
    then show ?thesis using assms(1) by (auto simp: save_ok)
  qed
  then have "unused env N w' \<and> ow_uuids w \<le> ow_uuids w' \<and> ow_submitted w' = ow_submitted w
    \<and> (sent k w \<longrightarrow> int_idempotency_key i \<noteq> k \<longrightarrow> sent k w')"
  proof (elim disjE exE conjE)
    assume "calm_step w w'"
    then show ?thesis
      using assms(6) by (auto simp: calm_step_def unused_def sent_def)
  next
    fix db j
    assume s: "intents_save (env_columns env) ?i (ow_tables w) = Inr (j, db)"
      and w': "w' = w\<lparr>ow_sessions := Suc (ow_sessions w), ow_tables := db\<rparr>"
    have rows: "tb_intents (ow_tables w') = rewrite_rows (\<lambda>r. int_id r = int_id i)
        (store_intent (env_columns env) ?i) (tb_intents (ow_tables w))"
      using intents_save_known(2) [OF s assms(3)] assms(4) w' by simp
    have "int_id i \<in> int_id ` set (tb_intents (ow_tables w))"
      using assms(3,4) by (metis image_eqI)
    then have "int_id ` set (tb_intents (ow_tables w')) \<subseteq> int_id ` set (tb_intents (ow_tables w))"
      unfolding rows by (auto simp: set_rewrite_rows)
    then have "unused env N w'"
      by (rule unused_mono [OF assms(6)]) (simp add: w')
    moreover have "sent k w \<Longrightarrow> int_idempotency_key i \<noteq> k \<Longrightarrow> sent k w'"
      by (rule sent_keeps [OF _ assms(2,3,4) _ rows]) (simp_all add: assms(5))
    ultimately show ?thesis
      using w' by auto
  qed
  then show "unused env N w'" "ow_uuids w \<le> ow_uuids w'" "ow_submitted w' = ow_submitted w"
    "sent k w \<Longrightarrow> int_idempotency_key i \<noteq> k \<Longrightarrow> sent k w'"
    by blast+
qed


lemma submission_failed_raises: "submission_failed env s r t e w \<noteq> (Inr x, w')"
  by (simp add: submission_failed_def)

definition handed :: "oms_env \<Rightarrow> nat \<Rightarrow> order \<Rightarrow> order_intent \<Rightarrow> oms_world \<Rightarrow> oms_world \<Rightarrow> bool" where
  "handed env N r i w w' \<longleftrightarrow> tables_ok (ow_tables w') \<and> unused env N w' \<and> ow_uuids w \<le> ow_uuids w'
     \<and> ow_submitted w' = ow_submitted w @ [(r, i)]
     \<and> (\<forall>k. sent k w \<longrightarrow> int_idempotency_key i \<noteq> k \<longrightarrow> sent k w')"

lemma handed_frame:
  assumes "handed env N r i w w1" "calm_step w1 w'" "oms_evolves w1 w'"
  shows "handed env N r i w w'"
  using assms by (auto simp: handed_def calm_step_def oms_evolves_def unused_def sent_def)

lemma booked_rest:
  "calm.steps (act_seq (persist_event env ty src sc t obs)
     (bind_act (if c then pass r else apply_execution_report env rep r) (\<lambda>latest. pass (f latest))))
   \<and> books.steps (act_seq (persist_event env ty src sc t obs)
     (bind_act (if c then pass r else apply_execution_report env rep r) (\<lambda>latest. pass (f latest))))"
  by (intro conjI calm_all books_all calm_report books_report)

lemma hand_over_step:
  assumes "bind_act (try_except (gateway_submit env r i) (submission_failed env s r t))
      (book_submission env s i r t) w = (res, w')"
    and "tables_ok (ow_tables w)" "unused env N w"
    "i0 \<in> set (tb_intents (ow_tables w))" "int_id i0 = int_id i" "int_idempotency_key i0 = int_idempotency_key i"
  shows "handed env N r i w w'"
proof -
  let ?w1 = "w\<lparr>ow_submitted := ow_submitted w @ [(r, i)]\<rparr>"
  have w1: "handed env N r i w ?w1"
    using assms(2,3) by (simp add: handed_def unused_def sent_def)
  show ?thesis
  proof (cases "env_submit env (length (ow_submitted w)) r i")
    case (Inl e)
    have "\<exists>f. (submission_failed env s r t e :: (oms_world, execution_report) act) ?w1 = (Inl f, w')"
      using assms(1) Inl
      by (elim bind_act_cases) (auto simp: try_except_def gateway_submit_def submission_failed_raises)
    then show ?thesis
      using handed_frame [OF w1] calm.stepsD [OF calm_submission_failed] books.stepsD [OF books_submission_failed]
      by blast
  next
    case (Inr report)
    then have b: "book_submission env s i r t report ?w1 = (res, w')"
      using assms(1) by (elim bind_act_cases) (auto simp: try_except_def gateway_submit_def)
    obtain r2 w2 where save: "save_order_intent env (i\<lparr>int_status := INTENT_SUBMITTED\<rparr>) ?w1 = (r2, w2)"
      by fastforce
    have "handed env N r i w w2"
      using save_submitted_step [OF save, of i0 N] assms(2-6) w1
      by (auto simp: handed_def sent_def unused_def)
    moreover have "w' = w2 \<or> (calm_step w2 w' \<and> oms_evolves w2 w')"
      using b save booked_rest [THEN conjunct1, THEN calm.stepsD] booked_rest [THEN conjunct2, THEN books.stepsD]
      unfolding book_submission_def
      by (cases r2) (auto simp: bind_act_def [of "save_order_intent env x" for x])
    ultimately show ?thesis
      using handed_frame by blast
  qed
qed


lemma handed_once:
  assumes "handed env N r i w w'" "sent k w \<Longrightarrow> int_idempotency_key i \<noteq> k"
  shows "once_step k env N w w'"
proof -
  have "\<exists>new. ow_submitted w' = ow_submitted w @ new \<and> k \<notin> (int_idempotency_key \<circ> snd) ` set new" if "sent k w"
    using assms that by (intro exI [of _ "[(r, i)]"]) (simp add: handed_def)
  then show ?thesis
    using assms by (simp add: once_step_def handed_def)
qed

lemma books_fulfil: "books.steps (fulfil_intent env s p t i)"
  unfolding fulfil_intent_def resume_submission_def submit_intent_def prepare_order_def book_submission_def Let_def
  by (intro books_all books_report books_submission_failed)

lemma fulfil_step:
  assumes "fulfil_intent env s p t i w = (res, w')" "tables_ok (ow_tables w)" "unused env N w"
    "i0 \<in> set (tb_intents (ow_tables w))" "int_id i0 = int_id i" "int_idempotency_key i0 = int_idempotency_key i"
    "int_status i0 = int_status i"
  shows "once_step k env N w w'"
proof (cases "int_status i = INTENT_SUBMITTED")
  case True
  then have "calm.steps (fulfil_intent env s p t i)"
    unfolding fulfil_intent_def Let_def by (simp, intro calm.steps_rules calm_resume)
  from once.stepsD [OF once_frame [OF conjI [OF this books_fulfil]] assms(1)] show ?thesis .
next
  case False
  define u where "u = build_order_id_for_intent (env_uuid5 env) (int_id i)"
  obtain res' where sub: "submit_intent env s i u t w = (res', w')"
    using assms(1) False by (auto simp: u_def fulfil_intent_def bind_act_def Let_def split: prod.splits sum.splits)
  obtain r1 w1 where prep: "prepare_order env s i u t w = (r1, w1)" by fastforce
  have f: "calm_step w w1" "oms_evolves w w1"
    using calm.stepsD [OF calm_prepare prep] books.stepsD [OF books_prepare prep] .
  then have w1: "tables_ok (ow_tables w1)" "unused env N w1" "tb_intents (ow_tables w1) = tb_intents (ow_tables w)"
    using assms(2,3) by (auto simp: calm_step_def oms_evolves_def unused_def)
  show ?thesis
  proof (cases r1)
    case (Inl e)
    then show ?thesis
      using sub prep once_calm [OF f] by (simp add: submit_intent_def bind_act_def)
  next
    case (Inr r)
    then have "bind_act (try_except (gateway_submit env r i) (submission_failed env s r t))
        (book_submission env s i r t) w1 = (res', w')"
      using sub prep by (simp add: submit_intent_def bind_act_def [of "prepare_order env s i u t"])
    from hand_over_step [OF this w1(1,2) _ assms(5,6)] have "handed env N r i w1 w'"
      using assms(4) w1(3) by simp
    moreover have "int_idempotency_key i \<noteq> k" if "sent k w"
    proof -
      obtain e where e: "e \<in> set (tb_intents (ow_tables w))" "int_status e = INTENT_SUBMITTED"
        "int_idempotency_key e = k"
        using \<open>sent k w\<close> by (auto simp: sent_def)
      then show ?thesis
        using keyedD [of int_idempotency_key "tb_intents (ow_tables w)" e i0] assms(2,4,6,7) False
        by (auto simp: tables_ok_def)
    qed
    then have "int_idempotency_key i \<noteq> k" if "sent k w1"
      using that w1(3) by (simp add: sent_def)
    ultimately have "once_step k env N w1 w'"
      by (rule handed_once)
    with once_calm [OF f] show ?thesis by (rule once.trans)
  qed
qed


lemma once_place_order:
  assumes "inj_on (env_uuid4 env) {..<N}"
  shows "once.steps k env N (place_order env s p t)"
proof (rule once.stepsI)
  fix w res w'
  assume place: "place_order env s p t w = (res, w')"
  let ?w0 = "w\<lparr>ow_uuids := Suc (ow_uuids w)\<rparr>"
  have w0: "calm_step w ?w0" "oms_evolves w ?w0"
    by (simp_all add: calm_step_def oms_evolves_def)
  have mono: "ow_uuids w \<le> ow_uuids w'"
    using books.stepsD [OF books_place_order place] by (simp add: oms_evolves_def)
  show "once_step k env N w w'"
  proof (cases "to_order_intent (env_uuid4 env (ow_uuids w)) t p None (Some t)")
    case (Inl e)
    then show ?thesis
      using place once_calm [OF w0] by (auto simp: place_order_def fresh_uuid_def bind_act_def)
  next
    case (Inr i0)
    note i0 = to_order_intent_key [OF Inr]
    have rest: "bind_act (save_order_intent env i0) (fulfil_intent env s p t) ?w0 = (res, w')"
      using place Inr by (simp add: place_order_def fresh_uuid_def bind_act_def)
    obtain r1 w1 where save: "save_order_intent env i0 ?w0 = (r1, w1)" by fastforce
    show ?thesis
    proof (cases r1)
      case (Inl e)
      have "once_step k env N ?w0 w'"
        using rest save Inl once_calm [OF save_order_intent_fault books.stepsD [OF books_save(2)]]
        by (auto simp: bind_act_def)
      with once_calm [OF w0] show ?thesis by (rule once.trans)
    next
      case (Inr i)
      then have ful: "fulfil_intent env s p t i w1 = (res, w')"
        using rest save by (simp add: bind_act_def)
      obtain db where db: "intents_save (env_columns env) i0 (ow_tables w) = Inr (i, db)"
        "w1 = ?w0\<lparr>ow_sessions := Suc (ow_sessions w), ow_tables := db\<rparr>"
        using save Inr by (auto simp: save_ok)
      have "tables_ok (ow_tables w') \<and> unused env N w' \<and> (sent k w \<longrightarrow> sent k w' \<and>
          (\<exists>new. ow_submitted w' = ow_submitted w @ new \<and> k \<notin> (int_idempotency_key \<circ> snd) ` set new))"
        if h: "ow_uuids w' \<le> N" "tables_ok (ow_tables w)" "unused env N w"
      proof -
        have "Suc (ow_uuids w) \<le> ow_uuids w'"
          using books.stepsD [OF books_fulfil ful] db(2) by (simp add: oms_evolves_def)
        then have N: "ow_uuids w < N"
          using h(1) by simp
        then have "int_id i0 \<notin> int_id ` set (tb_intents (ow_tables w))"
          using h(3) i0 by (simp add: unused_def)
        note new = intents_save_new [OF db(1) h(2) this]
        have key: "trim (int_idempotency_key i0) = int_idempotency_key i0"
          using i0 by simp
        obtain e where e: "e \<in> set (tb_intents db)" "int_id e = int_id i"
          "int_idempotency_key e = int_idempotency_key i" "int_status e = int_status i"
          using new(3) [OF key] save_order_intent_ok [OF save [unfolded Inr]] key by auto
        have ok: "tables_ok (ow_tables w1)"
          using books.stepsD [OF books_save(2) save] h(2) by (simp add: oms_evolves_def)
        have "env_uuid4 env n \<noteq> int_id i0" if "Suc (ow_uuids w) \<le> n" "n < N" for n
          using inj_onD [OF assms, of n "ow_uuids w"] that N i0 by auto
        then have "env_uuid4 env n \<notin> int_id ` set (tb_intents db)" if "Suc (ow_uuids w) \<le> n" "n < N" for n
          using that h(3) new(2) [OF key] unfolding unused_def by (meson Suc_leD insertE subsetD)
        then have "unused env N w1"
          by (simp add: unused_def db(2))
        note step = fulfil_step [OF ful ok this, of e k]
        have "sent k w \<Longrightarrow> sent k w1"
          using new(1) [OF key] db(2) by (auto simp: sent_def)
        then show ?thesis
          using step e db(2) ok \<open>unused env N w1\<close> h(1) by (auto simp: once_step_def)
      qed
      with mono show ?thesis
        by (simp add: once_step_def)
    qed
  qed
qed

lemma calm_cancel_order: "calm.steps (cancel_order env i t)"
proof -
  have "calm.steps (gateway_cancel env r)" for r
    by (rule calm.stepsI) (auto simp: gateway_cancel_def calm_step_def)
  then show ?thesis
    unfolding cancel_order_def by (intro calm_all calm_report)
qed

lemma calm_cancel_all: "calm.steps (cancel_all_orders env a c t)"
  unfolding cancel_all_orders_def cancel_one_def list_active_orders_def by (intro calm_all calm_cancel_order)

lemma calm_recover: "calm.steps (recover_account_state env a x i d n t)"
  unfolding recover_account_state_def seed_initial_balance_def release_all_def has_fill_history_def
  by (intro calm_all calm_release)

lemma books_place: "books.steps (place_order env s p t)"
  by (rule books_place_order)

lemmas once_parts = once.steps_rules
  once_frame [OF conjI [OF calm_resolve books_resolve]] once_frame [OF conjI [OF calm_lease books_lease]]
  once_frame [OF conjI [OF calm_save(1) books_save(1)]] once_frame [OF conjI [OF calm_reads(1) books_reads(1)]]
  once_frame [OF conjI [OF calm_release books_release]] once_frame [OF conjI [OF calm_exposure books_exposure]]
  once_frame [OF conjI [OF calm_rejection books_rejection]] once_frame [OF conjI [OF calm_event books_event]]

lemma once_submit_signal:
  assumes "inj_on (env_uuid4 env) {..<N}"
  shows "once.steps k env N (submit_signal env q)"
  unfolding submit_signal_def decide_order_def by (intro once_parts once_place_order [OF assms])

lemma once_serve:
  assumes "inj_on (env_uuid4 env) {..<N}"
  shows "once_step k env N w (oms_serve env c w)"
  by (cases c)
    (simp_all add: once.stepsD [OF once_submit_signal [OF assms] prod.collapse [symmetric]]
      once.stepsD [OF once_frame [OF conjI [OF calm_cancel_order books_cancel_order]] prod.collapse [symmetric]]
      once.stepsD [OF once_frame [OF conjI [OF calm_cancel_all books_cancel_all]] prod.collapse [symmetric]]
      once.stepsD [OF once_frame [OF conjI [OF calm_recover books_recover]] prod.collapse [symmetric]])

lemma once_run:
  assumes "inj_on (env_uuid4 env) {..<N}"
  shows "once_step k env N w (oms_run env calls w)"
  unfolding oms_run_def
  by (induction calls arbitrary: w) (auto intro: once.refl once.trans once_serve [OF assms])

text \<open>A submission that returns has marked the intent of its signal.\<close>

lemma submit_intent_sent:
  assumes "submit_intent env s i u t w = (Inr x, w')" "i0 \<in> set (tb_intents (ow_tables w))" "int_id i0 = int_id i"
    "trim (int_idempotency_key i) = int_idempotency_key i"
  shows "sent (int_idempotency_key i) w'"
proof -
  obtain r w1 report w2 j w3 where
    p: "prepare_order env s i u t w = (Inr r, w1)"
    and g: "try_except (gateway_submit env r i) (submission_failed env s r t) w1 = (Inr report, w2)"
    and j: "save_order_intent env (i\<lparr>int_status := INTENT_SUBMITTED\<rparr>) w2 = (Inr j, w3)"
    and b: "act_seq (persist_event env ''oms.execution_submission_requested'' ''trader_oms''
         (signal_scope ''order'' (ord_id r) s) t plain)
    (bind_act (if execution_report_is_empty report then pass r else apply_execution_report env report r)
       (\<lambda>latest. pass (j, latest))) w3 = (Inr x, w')"
    using assms(1) unfolding submit_intent_def book_submission_def bind_act_ok by metis
  have "w2 = w1\<lparr>ow_submitted := ow_submitted w1 @ [(r, i)]\<rparr>"
    using g by (auto simp: try_except_def gateway_submit_def submission_failed_raises split: sum.splits)
  then have rows: "tb_intents (ow_tables w2) = tb_intents (ow_tables w)"
    using calm.stepsD [OF calm_prepare p] by (simp add: calm_step_def)
  obtain db where db: "intents_save (env_columns env) (i\<lparr>int_status := INTENT_SUBMITTED\<rparr>) (ow_tables w2) = Inr (j, db)"
    "ow_tables w3 = db"
    using j by (auto simp: save_ok)
  have "store_intent (env_columns env) (i\<lparr>int_status := INTENT_SUBMITTED\<rparr>) \<in> set (tb_intents db)"
    using intents_save_known(2) [OF db(1), of i0] assms(2,3) rows by (auto simp: set_rewrite_rows)
  then have "sent (int_idempotency_key i) w3"
    using db(2) unfolding sent_def by (intro bexI [of _ "store_intent (env_columns env) (i\<lparr>int_status := INTENT_SUBMITTED\<rparr>)"]) simp_all
  then show ?thesis
    using calm.stepsD [OF conjunct1 [OF booked_rest] b] by (simp add: calm_step_def sent_def)
qed


lemma place_order_sent:
  assumes "place_order env s p t w = (Inr x, w')" "tables_ok (ow_tables w)" "unused env N w" "ow_uuids w' \<le> N"
  shows "sent (build_order_intent_idempotency_key (plan_signal p)) w'"
proof -
  let ?w0 = "w\<lparr>ow_uuids := Suc (ow_uuids w)\<rparr>"
  obtain i0 i w1 where i0: "to_order_intent (env_uuid4 env (ow_uuids w)) t p None (Some t) = Inr i0"
    and save: "save_order_intent env i0 ?w0 = (Inr i, w1)" and ful: "fulfil_intent env s p t i w1 = (Inr x, w')"
    using assms(1) by (auto simp: place_order_def fresh_uuid_def)
  obtain db where db: "intents_save (env_columns env) i0 (ow_tables w) = Inr (i, db)" "ow_tables w1 = db"
    "ow_uuids w1 = Suc (ow_uuids w)"
    using save by (auto simp: save_ok)
  have "ow_uuids w < N"
    using books.stepsD [OF books_fulfil ful] db(3) assms(4) by (simp add: oms_evolves_def)
  then have "int_id i0 \<notin> int_id ` set (tb_intents (ow_tables w))"
    using assms(3) to_order_intent_key [OF i0] by (simp add: unused_def)
  then obtain e where e: "e \<in> set (tb_intents db)" "int_id e = int_id i"
    "int_idempotency_key e = build_order_intent_idempotency_key (plan_signal p)" "int_status e = int_status i"
    using intents_save_new(3) [OF db(1) assms(2)] to_order_intent_key [OF i0] by auto
  have key: "int_idempotency_key i = build_order_intent_idempotency_key (plan_signal p)"
    using save_order_intent_ok [OF save] to_order_intent_key [OF i0] by simp
  show ?thesis
  proof (cases "int_status i = INTENT_SUBMITTED")
    case True
    then have "calm.steps (fulfil_intent env s p t i)"
      unfolding fulfil_intent_def Let_def by (simp, intro calm.steps_rules calm_resume)
    from calm.stepsD [OF this ful] show ?thesis
      using e db(2) True by (auto simp: calm_step_def sent_def)
  next
    case False
    then obtain y where "submit_intent env s i (build_order_id_for_intent (env_uuid5 env) (int_id i)) t w1 = (Inr y, w')"
      using ful by (auto simp: fulfil_intent_def Let_def)
    from submit_intent_sent [OF this, of e] show ?thesis
      using e db(2) key by simp
  qed
qed

lemma frame_okE:
  assumes "bind_act m k w = (Inr x, w')" "calm_step w0 w" "oms_evolves w0 w" "calm.steps m \<and> books.steps m"
  obtains y w1 where "m w = (Inr y, w1)" "calm_step w0 w1" "oms_evolves w0 w1" "k y w1 = (Inr x, w')"
proof -
  obtain y w1 where m: "m w = (Inr y, w1)" "k y w1 = (Inr x, w')"
    using assms(1) by auto
  show thesis
    by (rule that [OF m(1) calm.trans [OF assms(2) calm.stepsD [OF conjunct1 [OF assms(4)] m(1)]]
        books.trans [OF assms(3) books.stepsD [OF conjunct2 [OF assms(4)] m(1)]] m(2)])
qed

lemma submit_signal_placed:
  assumes "submit_signal env q w = (Inr (Some x), w')"
  obtains s p w1 y where "calm_step w w1" "oms_evolves w w1" "sig_id s = sig_id (req_signal q)" "plan_signal p = s"
    "place_order env s p (req_occurred_at q) w1 = (Inr y, w')"
  using assms calm.refl [of w] books.refl [of w] unfolding submit_signal_def
  apply -
  apply (erule frame_okE, assumption, assumption, (intro way_rules; fail))
  apply (erule frame_okE, assumption, assumption, (intro way_rules; fail))
  subgoal for control wc admitted wl
    apply (cases admitted)
     apply (simp_all only: simp_thms if_False if_True)
     apply (erule frame_okE, assumption, assumption, (intro way_rules; fail))
     apply (drule save_signal_id)
     apply (erule frame_okE, assumption, assumption, (intro way_rules; fail))
     apply (erule frame_okE, assumption, assumption, (intro way_rules; fail))
     apply (unfold decide_order_def)
     apply (erule frame_okE, assumption, assumption, (intro way_rules; fail))
     apply (erule frame_okE, assumption, assumption, (intro way_rules; fail))
     apply (simp only: split: prod.splits)
     apply (erule frame_okE, assumption, assumption, (intro way_rules; fail))
     apply (auto split: if_splits option.splits dest: plan_signal_order_signal)
    done
  done

lemma submit_signal_sent:
  assumes "submit_signal env q w = (Inr (Some x), w')" "tables_ok (ow_tables w)" "unused env N w" "ow_uuids w' \<le> N"
  shows "sent (build_order_intent_idempotency_key (req_signal q)) w'"
proof -
  obtain s p w1 y where w1: "calm_step w w1" "oms_evolves w w1" "sig_id s = sig_id (req_signal q)" "plan_signal p = s"
    "place_order env s p (req_occurred_at q) w1 = (Inr y, w')"
    by (rule submit_signal_placed [OF assms(1)])
  have "tables_ok (ow_tables w1)" "unused env N w1"
    using w1(1,2) assms(2,3) by (auto simp: calm_step_def oms_evolves_def unused_def)
  from place_order_sent [OF w1(5) this assms(4)] show ?thesis
    using w1(3,4) idempotency_key_inj [of s "req_signal q"] by simp
qed

text \<open>
  C3.  Every signal at most once.  Once submit_signal has returned a submission for a signal, no later
  sequence of calls of the service, whatever fails in them and whatever the gateway answers, hands an
  order for an intent of that signal to the gateway again: the intent's idempotency key is not among
  those handed over.  The identifiers the service draws are assumed to be fresh.
\<close>

theorem signal_handed_over_once:
  assumes "submit_signal env q w = (Inr (Some x), w1)" "tables_ok (ow_tables w)" "w2 = oms_run env calls w1"
    and "inj_on (env_uuid4 env) {..<ow_uuids w2}"
    and "\<forall>n. ow_uuids w \<le> n \<longrightarrow> n < ow_uuids w2 \<longrightarrow> env_uuid4 env n \<notin> int_id ` set (tb_intents (ow_tables w))"
  shows "\<exists>new. ow_submitted w2 = ow_submitted w1 @ new
    \<and> build_order_intent_idempotency_key (req_signal q) \<notin> (int_idempotency_key \<circ> snd) ` set new"
proof -
  let ?k = "build_order_intent_idempotency_key (req_signal q)" and ?N = "ow_uuids w2"
  have u: "unused env ?N w"
    using assms(5) by (simp add: unused_def)
  have run: "once_step ?k env ?N w1 w2"
    using once_run [OF assms(4)] assms(3) by simp
  moreover have "once_step ?k env ?N w w1"
    by (rule once.stepsD [OF once_submit_signal [OF assms(4)] assms(1)])
  moreover have "sent ?k w1"
    using submit_signal_sent [OF assms(1,2) u] run by (simp add: once_step_def)
  ultimately show ?thesis
    using u assms(2) by (simp add: once_step_def)
qed

end
