(* ===== verification/Oms_Progress.thy ===== *)
theory Oms_Progress
  imports Oms_Gateway
begin

text \<open>
  What the order management service achieves when nothing fails: an admitted plan always becomes an
  order at the gateway.  A submission at concrete values, on which the properties are evaluated.
\<close>

section \<open>An undisturbed submission\<close>

text \<open>The next K identifiers the service draws are new.\<close>

definition new_ids :: "oms_env \<Rightarrow> nat \<Rightarrow> oms_world \<Rightarrow> bool" where
  "new_ids env K w \<longleftrightarrow> inj_on (env_uuid4 env) {ow_uuids w..<ow_uuids w + K}
     \<and> (\<forall>n \<in> {ow_uuids w..<ow_uuids w + K}. env_uuid4 env n \<notin> int_id ` set (tb_intents (ow_tables w))
          \<and> env_uuid4 env n \<notin> evl_id ` set (tb_events (ow_tables w))
          \<and> env_uuid4 env n \<notin> evl_event_id ` set (tb_events (ow_tables w)))"

lemma trim_event_types [simp]:
  "trim ''trader_oms'' = ''trader_oms''" "trim ''order'' = ''order''" "trim ''order_intent'' = ''order_intent''"
  "trim ''oms.order_intent_persisted'' = ''oms.order_intent_persisted''"
  "trim ''oms.order_persisted'' = ''oms.order_persisted''"
  "trim ''oms.execution_submission_requested'' = ''oms.execution_submission_requested''"
  by code_simp+

definition event_added :: "oms_env \<Rightarrow> oms_world \<Rightarrow> oms_world \<Rightarrow> bool" where
  "event_added env w w' \<longleftrightarrow> (\<exists>e. ow_tables w' = (ow_tables w)\<lparr>tb_events := tb_events (ow_tables w) @ [e]\<rparr>
       \<and> evl_id e = env_uuid4 env (ow_uuids w) \<and> evl_event_id e = env_uuid4 env (Suc (ow_uuids w)))
     \<and> ow_uuids w' = ow_uuids w + 2 \<and> ow_submitted w' = ow_submitted w"

lemma find_row_fresh: "k \<notin> f ` set rows \<Longrightarrow> find_row (\<lambda>r. f r = k) rows = None"
  unfolding find_row_None by (metis image_eqI)

lemma persist_event_run:
  assumes "env_outage env = (\<lambda>_. None)" "signal_ok s" "new_ids env (K + 2) w"
    and "trim ty = ty" "ty \<noteq> []" "trim src = src" "src \<noteq> []" "trim kind = kind" "kind \<noteq> []"
  shows "\<exists>w'. persist_event env ty src (signal_scope kind u s) t obs w = (Inr (), w') \<and> event_added env w w'"
proof -
  let ?i = "env_uuid4 env (ow_uuids w)" and ?j = "env_uuid4 env (Suc (ow_uuids w))"
  have sig: "trim (sig_account s) = sig_account s" "sig_account s \<noteq> []" "trim (sig_exchange s) = sig_exchange s"
    "sig_exchange s \<noteq> []" "trim (sig_symbol s) = sig_symbol s" "sig_symbol s \<noteq> []"
    using assms(2) trim_normalize
    by (cases s; simp add: signal_ok_def normalize_signal_def signal_rules_def; metis)+
  obtain e where e: "log_entry ?i ?j ty src (signal_scope kind u s) (Some (sig_symbol s)) t = Inr e"
    "evl_id e = ?i" "evl_event_id e = ?j" "make_event_log e = Inr e"
    using assms(4-9) sig
    by (simp add: log_entry_def make_event_log_def normalize_event_log_def event_log_rules_def signal_scope_def)
  have fresh: "?i \<notin> evl_id ` set (tb_events (ow_tables w))" "?j \<notin> evl_event_id ` set (tb_events (ow_tables w))"
    using assms(3) by (auto simp: new_ids_def)
  have save: "events_save e (ow_tables w) = Inr (e, (ow_tables w)\<lparr>tb_events := tb_events (ow_tables w) @ [e]\<rparr>)"
    using e(2-4) find_row_fresh [OF fresh(2)] fresh(1) by (simp add: events_save_def has_row_key [of evl_id])
  have log: "save_event_log env e (w\<lparr>ow_uuids := k\<rparr>) = (Inr e, w\<lparr>ow_uuids := k, ow_sessions := Suc (ow_sessions w),
      ow_tables := (ow_tables w)\<lparr>tb_events := tb_events (ow_tables w) @ [e]\<rparr>\<rparr>)" for k
    using save by (simp add: save_ok assms(1))
  have "persist_event env ty src (signal_scope kind u s) t obs w =
     observe ty (case obs_severity obs of None \<Rightarrow> severity_for_event ty | Some v \<Rightarrow> v) (obs_notify obs) (obs_bypass obs)
       (obs_reason obs) (w\<lparr>ow_uuids := ow_uuids w + 2, ow_sessions := Suc (ow_sessions w),
         ow_tables := (ow_tables w)\<lparr>tb_events := tb_events (ow_tables w) @ [e]\<rparr>\<rparr>)"
    using e(1) log by (simp add: persist_event_def bind_act_def fresh_uuid_def signal_scope_def)
  then show ?thesis
    using e(2,3) by (auto simp: event_added_def observe_def on_trader_def)
qed


lemma save_run:
  assumes "env_outage env = (\<lambda>_. None)"
  shows "intents_save (env_columns env) i (ow_tables w) = Inr (j, db) \<Longrightarrow>
      save_order_intent env i w = (Inr j, w\<lparr>ow_sessions := Suc (ow_sessions w), ow_tables := db\<rparr>)"
    "orders_save (env_columns env) r (ow_tables w) = Inr (r', db) \<Longrightarrow>
      save_order env r w = (Inr r', w\<lparr>ow_sessions := Suc (ow_sessions w), ow_tables := db\<rparr>)"
  by (simp_all add: save_ok assms)

lemma new_ids_event:
  assumes "event_added env w w'" "new_ids env (K + 2) w"
  shows "new_ids env K w'"
proof -
  obtain e where e: "ow_tables w' = (ow_tables w)\<lparr>tb_events := tb_events (ow_tables w) @ [e]\<rparr>"
    "evl_id e = env_uuid4 env (ow_uuids w)" "evl_event_id e = env_uuid4 env (Suc (ow_uuids w))"
    "ow_uuids w' = ow_uuids w + 2"
    using assms(1) by (auto simp: event_added_def)
  let ?A = "{ow_uuids w..<ow_uuids w + (K + 2)}"
  have sub: "{ow_uuids w'..<ow_uuids w' + K} \<subseteq> ?A" "ow_uuids w \<in> ?A" "Suc (ow_uuids w) \<in> ?A"
    using e(4) by auto
  have inj: "inj_on (env_uuid4 env) ?A"
    using assms(2) by (simp add: new_ids_def)
  have "env_uuid4 env n \<noteq> env_uuid4 env (ow_uuids w)" "env_uuid4 env n \<noteq> env_uuid4 env (Suc (ow_uuids w))"
    if "n \<in> {ow_uuids w'..<ow_uuids w' + K}" for n
    using inj_onD [OF inj, of n] sub that e(4) by auto
  then show ?thesis
    using assms(2) sub(1) e inj_on_subset [OF inj sub(1)] unfolding new_ids_def by auto
qed

lemma new_ids_intent:
  assumes "new_ids env (Suc K) w" "ow_uuids w' = Suc (ow_uuids w)" "tb_events (ow_tables w') = tb_events (ow_tables w)"
    "int_id ` set (tb_intents (ow_tables w')) \<subseteq> insert (env_uuid4 env (ow_uuids w)) (int_id ` set (tb_intents (ow_tables w)))"
  shows "new_ids env K w'"
proof -
  let ?A = "{ow_uuids w..<ow_uuids w + Suc K}"
  have sub: "{ow_uuids w'..<ow_uuids w' + K} \<subseteq> ?A" "ow_uuids w \<in> ?A"
    using assms(2) by auto
  have inj: "inj_on (env_uuid4 env) ?A"
    using assms(1) by (simp add: new_ids_def)
  have "env_uuid4 env n \<noteq> env_uuid4 env (ow_uuids w)" if "n \<in> {ow_uuids w'..<ow_uuids w' + K}" for n
    using inj_onD [OF inj, of n "ow_uuids w"] sub that assms(2) by auto
  moreover have "env_uuid4 env n \<notin> int_id ` set (tb_intents (ow_tables w))"
    "env_uuid4 env n \<notin> evl_id ` set (tb_events (ow_tables w))"
    "env_uuid4 env n \<notin> evl_event_id ` set (tb_events (ow_tables w))" if "n \<in> {ow_uuids w'..<ow_uuids w' + K}" for n
    using assms(1) subsetD [OF sub(1) that] by (simp_all add: new_ids_def)
  ultimately have "env_uuid4 env n \<notin> int_id ` set (tb_intents (ow_tables w'))"
    "env_uuid4 env n \<notin> evl_id ` set (tb_events (ow_tables w'))"
    "env_uuid4 env n \<notin> evl_event_id ` set (tb_events (ow_tables w'))" if "n \<in> {ow_uuids w'..<ow_uuids w' + K}" for n
    using that assms(3) subsetD [OF assms(4), of "env_uuid4 env n"] by auto
  with inj_on_subset [OF inj sub(1)] show ?thesis
    by (simp add: new_ids_def)
qed

lemma new_ids_mono:
  assumes "new_ids env K w" "ow_uuids w' = ow_uuids w" "tb_events (ow_tables w') = tb_events (ow_tables w)"
    "int_id ` set (tb_intents (ow_tables w')) \<subseteq> int_id ` set (tb_intents (ow_tables w))"
  shows "new_ids env K w'"
  using assms(1) subsetD [OF assms(4)] unfolding new_ids_def assms(2,3) by blast

lemma intents_save_fresh:
  assumes "intent_ok i" "int_id i \<notin> int_id ` set (tb_intents db)"
    "int_idempotency_key i \<notin> int_idempotency_key ` set (tb_intents db)"
    "int_signal_id i \<in> sig_id ` set (tb_signals db)"
  shows "intents_save q i db = Inr (i, db\<lparr>tb_intents := tb_intents db @ [store_intent q i]\<rparr>)"
proof -
  have "make_order_intent i = Inr i"
    using assms(1) by (auto simp: make_order_intent_iff intent_ok_def)
  then show ?thesis
    using find_row_fresh [OF assms(2)] find_row_fresh [OF assms(3)] assms(4)
    by (simp add: intents_save_def has_row_key [of sig_id])
qed


lemma orders_save_fresh:
  assumes "order_ok r" "ord_id r \<notin> ord_id ` set (tb_orders db)" "ord_exchange_order_id r = None"
    "ord_intent_id r \<in> int_id ` set (tb_intents db)"
  shows "orders_save q r db = Inr (r, db\<lparr>tb_orders := tb_orders db @ [store_order q r]\<rparr>)"
  using assms find_row_fresh [OF assms(2)]
  by (simp add: orders_save_def order_ok_make has_row_key [of int_id])

lemma prepare_order_run:
  assumes "env_outage env = (\<lambda>_. None)" "signal_ok s" "new_ids env (K + 4) w" "intent_ok i"
    "int_id i \<in> int_id ` set (tb_intents (ow_tables w))"
    "build_order_id_for_intent (env_uuid5 env) (int_id i) \<notin> ord_id ` set (tb_orders (ow_tables w))"
  shows "\<exists>r w'. prepare_order env s i (build_order_id_for_intent (env_uuid5 env) (int_id i)) t w = (Inr r, w')
    \<and> ord_status r = NEW \<and> ord_side r = int_side i \<and> ord_qty r = int_qty i \<and> ord_symbol r = int_symbol i
    \<and> new_ids env K w' \<and> ow_uuids w' = ow_uuids w + 4"
proof -
  have "new_ids env ((K + 2) + 2) w"
    using assms(3) by (simp add: numeral_eq_Suc)
  note n1 = this
  obtain w1 where e1: "persist_event env ''oms.order_intent_persisted'' ''trader_oms''
      (signal_scope ''order_intent'' (int_id i) s) t plain w = (Inr (), w1)" "event_added env w w1"
    using persist_event_run [OF assms(1,2) n1, of "''oms.order_intent_persisted''" "''trader_oms''" "''order_intent''" "int_id i" t plain]
    by auto
  have n2: "new_ids env (K + 2) w1"
    by (rule new_ids_event [OF e1(2) n1])
  obtain r where r: "create_order_from_intent (env_uuid5 env) t i None None (Some t) NEW = Inr r" "order_ok r"
    "ord_id r = build_order_id_for_intent (env_uuid5 env) (int_id i)" "ord_intent_id r = int_id i"
    "ord_status r = NEW" "ord_qty r = int_qty i" "ord_side r = int_side i" "ord_symbol r = int_symbol i"
    "ord_exchange_order_id r = None"
    using create_order_ok [OF assms(4)] by metis
  then have create: "create_order_from_intent (env_uuid5 env) t i
      (Some (build_order_id_for_intent (env_uuid5 env) (int_id i))) None (Some t) NEW = Inr r"
    by (simp add: create_order_from_intent_def)
  let ?db = "(ow_tables w1)\<lparr>tb_orders := tb_orders (ow_tables w1) @ [store_order (env_columns env) r]\<rparr>"
  let ?w2 = "w1\<lparr>ow_sessions := Suc (ow_sessions w1), ow_tables := ?db\<rparr>"
  have rows: "tb_orders (ow_tables w1) = tb_orders (ow_tables w)" "tb_intents (ow_tables w1) = tb_intents (ow_tables w)"
    using e1(2) by (auto simp: event_added_def)
  have "orders_save (env_columns env) r (ow_tables w1) = Inr (r, ?db)"
    using r assms(5,6) rows by (intro orders_save_fresh) simp_all
  note save = save_run(2) [OF assms(1) this]
  have n3: "new_ids env (K + 2) ?w2"
    using n2 by (simp add: new_ids_def)
  obtain w3 where e3: "persist_event env ''oms.order_persisted'' ''trader_oms''
      (signal_scope ''order'' (ord_id r) s) t plain ?w2 = (Inr (), w3)" "event_added env ?w2 w3"
    using persist_event_run [OF assms(1,2) n3, of "''oms.order_persisted''" "''trader_oms''" "''order''" "ord_id r" t plain]
    by auto
  have "prepare_order env s i (build_order_id_for_intent (env_uuid5 env) (int_id i)) t w = (Inr r, w3)"
    using e1(1) create save e3(1) by (simp add: prepare_order_def)
  then show ?thesis
    using r new_ids_event [OF e3(2) n3] e1(2) e3(2) by (auto simp: event_added_def)
qed


lemma intent_ok_status: "intent_ok i \<Longrightarrow> intent_ok (i\<lparr>int_status := st\<rparr>)"
  by (cases i) (simp add: intent_ok_def intent_rules_def normalize_intent_def)

lemma intents_save_again:
  assumes "e \<in> set (tb_intents db)" "int_id e = int_id i" "int_idempotency_key e = int_idempotency_key i"
    "tables_ok db" "int_signal_id i \<in> sig_id ` set (tb_signals db)" "intent_ok i"
  shows "\<exists>db'. intents_save q i db = Inr (i, db') \<and> tb_events db' = tb_events db
     \<and> int_id ` set (tb_intents db') \<subseteq> int_id ` set (tb_intents db)
     \<and> (\<exists>j \<in> set (tb_intents db'). int_id j = int_id i \<and> int_status j = int_status i)"
proof -
  obtain e' where e': "find_row (\<lambda>r. int_id r = int_id i) (tb_intents db) = Some e'" "int_id e' = int_id i"
    using find_row_None [of "\<lambda>r. int_id r = int_id i" "tb_intents db"] find_row_SomeD assms(1,2) by fastforce
  have "make_order_intent i = Inr i"
    using assms(6) by (auto simp: make_order_intent_iff intent_ok_def)
  moreover have "keyed int_idempotency_key (tb_intents db)"
    using assms(4) by (simp add: tables_ok_def)
  then have "\<not> has_row (\<lambda>r. int_idempotency_key r = int_idempotency_key i \<and> int_id r \<noteq> int_id i) (tb_intents db)"
    unfolding has_row_iff using keyedD assms(1-3) by metis
  moreover have "int_id i \<in> int_id ` set (tb_intents db)"
    using assms(1,2) by (metis image_eqI)
  ultimately show ?thesis
    using e' assms(5) by (auto simp: intents_save_def has_row_key [of sig_id] set_rewrite_rows)
qed

definition intent_stored :: "order_intent \<Rightarrow> order_intent_status \<Rightarrow> oms_world \<Rightarrow> bool" where
  "intent_stored i st w \<longleftrightarrow> (\<exists>j \<in> set (tb_intents (ow_tables w)). int_id j = int_id i \<and> int_status j = st)"

lemma intent_stored_calm: "calm_step w w' \<Longrightarrow> intent_stored i st w' = intent_stored i st w"
  by (simp add: intent_stored_def calm_step_def)

lemma bind_run: "m w = (Inr x, w1) \<Longrightarrow> bind_act m k w = k x w1"
  by (simp add: bind_act_def)

lemma place_order_hands_over:
  assumes "env_outage env = (\<lambda>_. None)"
    and "tables_ok (ow_tables w)" "new_ids env 7 w"
    and "plan_actionable p" "plan_signal p = s" "signal_ok s" "sig_id s \<in> sig_id ` set (tb_signals (ow_tables w))"
    and "market_state_ok (plan_market_context p)" "0 < plan_decision_price p"
    and "price_fits (plan_order_type p) (plan_price p)" "plan_reduce_only p \<Longrightarrow> plan_side p = Some SELL"
    and "build_order_intent_idempotency_key s \<notin> int_idempotency_key ` set (tb_intents (ow_tables w))"
    and "build_order_id_for_intent (env_uuid5 env) (env_uuid4 env (ow_uuids w)) \<notin> ord_id ` set (tb_orders (ow_tables w))"
  shows "\<exists>res w' r i. place_order env s p t w = (res, w') \<and> ow_submitted w' = ow_submitted w @ [(r, i)]
    \<and> ord_status r = NEW \<and> Some (ord_side r) = plan_side p \<and> ord_qty r = plan_qty p
    \<and> (case env_submit env (length (ow_submitted w)) r i of
         Inl e \<Rightarrow> (\<exists>e'. res = Inl e') \<and> intent_stored i INTENT_NEW w'
       | Inr rep \<Rightarrow> intent_stored i INTENT_SUBMITTED w'
           \<and> (\<exists>booked w0. ow_uuids w0 = ow_uuids w + 7
               \<and> (if execution_report_is_empty rep then pass r else apply_execution_report env rep r) w0 = (booked, w')
               \<and> res = res_map (\<lambda>r'. \<lparr>sub_signal = s, sub_plan = p,
                     sub_intent = i\<lparr>int_status := INTENT_SUBMITTED\<rparr>, sub_order = r'\<rparr>) booked))"
proof -
  let ?u = "env_uuid4 env (ow_uuids w)"
  obtain i where i: "to_order_intent ?u t p None (Some t) = Inr i" "intent_ok i" "int_id i = ?u"
    "int_signal_id i = sig_id s" "int_qty i = plan_qty p" "Some (int_side i) = plan_side p"
    "int_idempotency_key i = build_order_intent_idempotency_key s" "int_status i = INTENT_NEW"
    using to_order_intent_ok [of p ?u t] assms(4-11) by metis
  let ?db = "(ow_tables w)\<lparr>tb_intents := tb_intents (ow_tables w) @ [store_intent (env_columns env) i]\<rparr>"
  let ?w1 = "w\<lparr>ow_uuids := Suc (ow_uuids w), ow_sessions := Suc (ow_sessions w), ow_tables := ?db\<rparr>"
  have "?u \<notin> int_id ` set (tb_intents (ow_tables w))"
    using assms(3) by (simp add: new_ids_def)
  then have "intents_save (env_columns env) i (ow_tables w) = Inr (i, ?db)"
    using i(3,4,7) assms(7,12) by (intro intents_save_fresh i(2)) simp_all
  then have save: "save_order_intent env i (w\<lparr>ow_uuids := Suc (ow_uuids w)\<rparr>) = (Inr i, ?w1)"
    using save_run(1) [OF assms(1), of i "w\<lparr>ow_uuids := Suc (ow_uuids w)\<rparr>"] by simp
  have ok1: "tables_ok (ow_tables ?w1)"
    using books.stepsD [OF books_save(2) save] assms(2) by (simp add: oms_evolves_def)
  have n1: "new_ids env (2 + 4) ?w1"
    by (rule new_ids_intent [of _ _ w]) (use assms(3) i(3) in \<open>simp_all add: numeral_eq_Suc\<close>)
  let ?oid = "build_order_id_for_intent (env_uuid5 env) (int_id i)"
  obtain r w2 where r: "prepare_order env s i ?oid t ?w1 = (Inr r, w2)" "ord_status r = NEW" "ord_side r = int_side i"
    "ord_qty r = int_qty i" "new_ids env 2 w2" "ow_uuids w2 = Suc (ow_uuids w) + 4"
    using prepare_order_run [OF assms(1,6) n1 i(2), of t] i(3) assms(13) by auto
  have w2: "calm_step ?w1 w2" "oms_evolves ?w1 w2"
    using calm.stepsD [OF calm_prepare r(1)] books.stepsD [OF books_prepare r(1)] .
  have handed: "length (ow_submitted w2) = length (ow_submitted w)"
    using w2(1) by (simp add: calm_step_def)
  let ?w3 = "w2\<lparr>ow_submitted := ow_submitted w2 @ [(r, i)]\<rparr>"
  have place: "place_order env s p t w = bind_act (submit_intent env s i ?oid t)
      (\<lambda>(submitted, r'). pass \<lparr>sub_signal = s, sub_plan = p, sub_intent = submitted, sub_order = r'\<rparr>) ?w1"
    using i(1,8) save by (simp add: place_order_def fresh_uuid_def fulfil_intent_def bind_act_def)
  have fields: "ord_status r = NEW" "Some (ord_side r) = plan_side p" "ord_qty r = plan_qty p"
    "ow_submitted ?w3 = ow_submitted w @ [(r, i)]"
    using r i w2(1) by (simp_all add: calm_step_def)
  show ?thesis
  proof (cases "env_submit env (length (ow_submitted w)) r i")
    case (Inl e)
    then have sub: "submit_intent env s i ?oid t ?w1
        = bind_act (submission_failed env s r t e) (book_submission env s i r t) ?w3"
      using r(1) handed by (simp add: submit_intent_def bind_act_def try_except_def gateway_submit_def)
    obtain r4 :: "execution_report res" and w4 where f: "submission_failed env s r t e ?w3 = (r4, w4)"
      by fastforce
    then obtain e' where e': "r4 = Inl e'"
      by (cases r4) (simp_all add: submission_failed_raises)
    have c: "calm_step ?w3 w4"
      using calm.stepsD [OF calm_submission_failed f] .
    have "intent_stored i INTENT_NEW ?w3"
      using w2(1) i(8) by (auto simp: intent_stored_def calm_step_def)
    then have "intent_stored i INTENT_NEW w4"
      using intent_stored_calm [OF c] by simp
    moreover have "place_order env s p t w = (Inl e', w4)"
      using sub f e' by (simp add: place bind_act_def)
    moreover have "ow_submitted w4 = ow_submitted w @ [(r, i)]"
      using c fields(4) by (simp add: calm_step_def)
    ultimately show ?thesis
      using Inl fields by (intro exI [of _ "Inl e'"] exI [of _ w4] exI [of _ r] exI [of _ i]) simp
  next
    case (Inr rep)
    then have sub: "submit_intent env s i ?oid t ?w1 = book_submission env s i r t rep ?w3"
      using r(1) handed by (simp add: submit_intent_def bind_act_def try_except_def gateway_submit_def)
    have signals: "sig_id s \<in> sig_id ` set (tb_signals (ow_tables w2))"
      using w2(2) ok1 assms(7) by (auto simp: oms_evolves_def evolves_def dest: set_mono_prefix)
    let ?i = "i\<lparr>int_status := INTENT_SUBMITTED\<rparr>"
    obtain db where db: "intents_save (env_columns env) ?i (ow_tables ?w3) = Inr (?i, db)"
      "tb_events db = tb_events (ow_tables w2)" "int_id ` set (tb_intents db) \<subseteq> int_id ` set (tb_intents (ow_tables w2))"
      "\<exists>j \<in> set (tb_intents db). int_id j = int_id i \<and> int_status j = INTENT_SUBMITTED"
      using intents_save_again [of "store_intent (env_columns env) i" "ow_tables w2" ?i "env_columns env"] w2 ok1 signals
        i(4) intent_ok_status [OF i(2)] by (auto simp: calm_step_def oms_evolves_def)
    let ?w4 = "?w3\<lparr>ow_sessions := Suc (ow_sessions w2), ow_tables := db\<rparr>"
    have save3: "save_order_intent env ?i ?w3 = (Inr ?i, ?w4)"
      using save_run(1) [OF assms(1) db(1)] by simp
    have n4: "new_ids env (0 + 2) ?w4"
      by (rule new_ids_mono [of _ _ w2]) (use r(5) db(2,3) in \<open>simp_all add: numeral_2_eq_2\<close>)
    obtain w5 where w5: "persist_event env ''oms.execution_submission_requested'' ''trader_oms''
        (signal_scope ''order'' (ord_id r) s) t plain ?w4 = (Inr (), w5)" "event_added env ?w4 w5"
      using persist_event_run [OF assms(1,6) n4, of "''oms.execution_submission_requested''" "''trader_oms''" "''order''"
          "ord_id r" t plain] by auto
    let ?book = "if execution_report_is_empty rep then pass r else apply_execution_report env rep r"
    obtain booked w6 where b: "?book w5 = (booked, w6)"
      by fastforce
    have "submit_intent env s i ?oid t ?w1 = bind_act ?book (\<lambda>latest. pass (?i, latest)) w5"
      using w5(1) by (simp add: sub book_submission_def bind_run [of "save_order_intent env ?i" ?w3, OF save3]
          bind_act_def [of "persist_event env ty src sc u obs" for ty src sc u obs] del: if_split)
    then have run: "place_order env s p t w = (res_map (\<lambda>r'. \<lparr>sub_signal = s, sub_plan = p, sub_intent = ?i,
        sub_order = r'\<rparr>) booked, w6)"
      using b by (cases booked) (simp_all add: place bind_act_def)
    have "calm.steps ?book"
      by (simp add: calm_report calm.steps_rules)
    from calm.stepsD [OF this b] have c: "calm_step w5 w6" .
    have "intent_stored i INTENT_SUBMITTED w5" "ow_submitted w5 = ow_submitted w @ [(r, i)]" "ow_uuids w5 = ow_uuids w + 7"
      using w5(2) db(4) fields(4) r(6) by (auto simp: intent_stored_def event_added_def)
    note w5_facts = this
    have w6: "intent_stored i INTENT_SUBMITTED w6" "ow_submitted w6 = ow_submitted w @ [(r, i)]"
      using w5_facts(1,2) intent_stored_calm [OF c] c by (simp_all add: calm_step_def)
    let ?placed = "\<lambda>r'. \<lparr>sub_signal = s, sub_plan = p, sub_intent = ?i, sub_order = r'\<rparr>"
    have "\<exists>booked' w0. ow_uuids w0 = ow_uuids w + 7 \<and> ?book w0 = (booked', w6) \<and> res_map ?placed booked = res_map ?placed booked'"
      using b w5_facts(3) by blast
    then show ?thesis
      using run Inr fields(1-3) w6
      by (intro exI [of _ "res_map ?placed booked"] exI [of _ w6] exI [of _ r] exI [of _ i]) (simp del: if_split)
  qed
qed

lemma current_exposure_reads:
  assumes "current_exposure env q s p w = (Inr x, w1)"
  shows "ow_tables w1 = ow_tables w" "ow_uuids w1 = ow_uuids w" "ow_submitted w1 = ow_submitted w"
  using assms by (auto simp: current_exposure_def session_ok list_recent_active_order_intents_def split: if_splits)

text \<open>
  C4.  The way of an admitted signal.  When no session fails, a stored signal without an intent yet, whose
  plan from validated inputs asks for an order and passes the risk gate, is handed to the gateway as
  exactly one order, NEW, with the plan's side and quantity, whatever the gateway answers.  If it
  raises, the call raises and the intent stays NEW; if it answers, the intent is stored as
  SUBMITTED, and the call returns the order that booking the report leads to: the order itself
  when the report is empty.
\<close>

theorem admitted_signal_reaches_gateway:
  assumes "env_outage env = (\<lambda>_. None)"
    and "tables_ok (ow_tables w)" "new_ids env 7 w" "sig_id s \<in> sig_id ` set (tb_signals (ow_tables w))"
    and "build_order_intent_idempotency_key s \<notin> int_idempotency_key ` set (tb_intents (ow_tables w))"
    and "build_order_id_for_intent (env_uuid5 env) (env_uuid4 env (ow_uuids w)) \<notin> ord_id ` set (tb_orders (ow_tables w))"
    and "req_market q = Some m" "market_state_ok m" "req_rule q = Some rule" "sizing_inputs e s rule position"
    and "price_fits (req_type q) (req_price q)"
    and "plan_signal_order q s position = Inr (Some p)" "plan_actionable p"
    and "current_exposure env q s (Some p) w = (Inr (ps, recent), w1)"
    and "risk_evaluate (env_policy env)
         \<lparr>ctx_signal = s, ctx_decision_price = req_decision_price q, ctx_received_at = req_occurred_at q,
          ctx_symbol_rule = req_rule q, ctx_market_context = req_market q, ctx_current_position = position,
          ctx_open_positions = ps, ctx_recent_intents = recent, ctx_plan = Some p,
          ctx_order_type = req_type q, ctx_price = req_price q, ctx_control_state = control\<rparr> = Inr rr" "rr_allowed rr"
  shows "\<exists>res w' r i. decide_order env q control s position w = (res, w')
    \<and> ow_submitted w' = ow_submitted w @ [(r, i)]
    \<and> ord_status r = NEW \<and> Some (ord_side r) = plan_side p \<and> ord_qty r = plan_qty p
    \<and> (case env_submit env (length (ow_submitted w)) r i of
         Inl e \<Rightarrow> (\<exists>e'. res = Inl e') \<and> intent_stored i INTENT_NEW w'
       | Inr rep \<Rightarrow> intent_stored i INTENT_SUBMITTED w'
           \<and> (\<exists>booked w0.
               (if execution_report_is_empty rep then pass r else apply_execution_report env rep r) w0 = (booked, w')
               \<and> res = res_map (\<lambda>r'. Some \<lparr>sub_signal = s, sub_plan = p,
                     sub_intent = i\<lparr>int_status := INTENT_SUBMITTED\<rparr>, sub_order = r'\<rparr>) booked))"
proof -
  obtain price where price: "0 < price"
    "build_signal_order_intent_plan s rule position price m (req_type q) (req_price q) = Inr p"
    using assms(7,9,12) by (auto simp: plan_signal_order_def split: option.splits if_splits)
  note f = plan_fields [OF price(2)] and e = current_exposure_reads [OF assms(14)]
  have "plan_reduce_only p \<Longrightarrow> plan_side p = Some SELL"
    using price(2) assms(10) by (cases rule: plan_cases) (use assms(13) in \<open>auto simp: plan_actionable_def\<close>)
  moreover have "signal_ok s"
    using assms(10) by (simp add: sizing_inputs_def)
  moreover have "new_ids env 7 w1"
    using assms(3) e by (simp add: new_ids_def)
  ultimately obtain res w' r i where run: "place_order env s p (req_occurred_at q) w1 = (res, w')"
    "ow_submitted w' = ow_submitted w @ [(r, i)]" "ord_status r = NEW" "Some (ord_side r) = plan_side p"
    "ord_qty r = plan_qty p"
    and answer: "case env_submit env (length (ow_submitted w)) r i of
         Inl e \<Rightarrow> (\<exists>e'. res = Inl e') \<and> intent_stored i INTENT_NEW w'
       | Inr rep \<Rightarrow> intent_stored i INTENT_SUBMITTED w'
           \<and> (\<exists>booked w0. ow_uuids w0 = ow_uuids w1 + 7
               \<and> (if execution_report_is_empty rep then pass r else apply_execution_report env rep r) w0 = (booked, w')
               \<and> res = res_map (\<lambda>r'. \<lparr>sub_signal = s, sub_plan = p,
                     sub_intent = i\<lparr>int_status := INTENT_SUBMITTED\<rparr>, sub_order = r'\<rparr>) booked)"
    using place_order_hands_over [OF assms(1), of w1 p s "req_occurred_at q"] assms(2,4-6,8,11,13) price(1) f e by auto
  have decide: "decide_order env q control s position w = (res_map Some res, w')"
    using assms(12-16) run(1) unfolding decide_order_def by (cases res) (simp_all add: bind_act_def)
  show ?thesis
  proof (cases "env_submit env (length (ow_submitted w)) r i")
    case (Inl e)
    then show ?thesis
      using decide run answer by auto
  next
    case (Inr rep)
    then show ?thesis
      using decide run answer by (fastforce simp: res_bind_assoc)
  qed
qed

section \<open>A submission at concrete values\<close>

definition sample_oms_env :: oms_env where
  "sample_oms_env =
     \<lparr>env_columns = \<lparr>num = (\<lambda>x. x), conf = (\<lambda>x. x)\<rparr>, env_outage = (\<lambda>_. None), env_text = (\<lambda>_. ''timeout''),
      env_uuid5 = (\<lambda>s. of_nat (10000 + length s)), env_uuid4 = of_nat,
      env_clock = (\<lambda>n. sample_time + int n),
      env_submit = (\<lambda>_ _ _. Inr \<lparr>rep_source = ''paper'', rep_order_updates = [], rep_fill_events = []\<rparr>),
      env_cancel = (\<lambda>_ _. Inr \<lparr>rep_source = ''paper'', rep_order_updates = [], rep_fill_events = []\<rparr>),
      env_policy = default_policy, env_initial_cash = 100000, env_has_control = False\<rparr>"

definition sample_oms_world :: oms_world where
  "sample_oms_world =
     \<lparr>ow_tables = empty_tables, ow_sessions = 0, ow_uuids = 0, ow_trader = sample_world, ow_windows = (\<lambda>_. []),
      ow_submitted = [], ow_cancelled = []\<rparr>"

definition sample_request :: "rat \<Rightarrow> submission_request" where
  "sample_request target =
     \<lparr>req_signal = sample_signal target, req_rule = Some sample_rule, req_decision_price = Some 40,
      req_market = Some sample_market, req_position = None, req_type = MARKET, req_price = None,
      req_control = None, req_guard = None, req_occurred_at = sample_time + 2 * us_per_second\<rparr>"

text \<open>The world in which the signal is stored, after n sessions.\<close>

definition sample_stored :: "nat \<Rightarrow> oms_world" where
  "sample_stored n = sample_oms_world\<lparr>ow_tables := empty_tables\<lparr>tb_signals := [sample_signal 300]\<rparr>, ow_sessions := n\<rparr>"

lemma sample_oms_facts:
  "make_signal (sample_signal 300) = Inr (sample_signal 300)"
  "build_signal_order_intent_plan (sample_signal 300) sample_rule None 40 sample_market MARKET None = Inr (sample_plan 300 0 BUY 300)"
  "plan_actionable (sample_plan 300 0 BUY 300)"
  "risk_evaluate default_policy
     \<lparr>ctx_signal = sample_signal 300, ctx_decision_price = Some 40, ctx_received_at = sample_time + 2 * us_per_second,
      ctx_symbol_rule = Some sample_rule, ctx_market_context = Some sample_market, ctx_current_position = None,
      ctx_open_positions = [], ctx_recent_intents = [], ctx_plan = Some (sample_plan 300 0 BUY 300),
      ctx_order_type = MARKET, ctx_price = None, ctx_control_state = CTRL_NORMAL\<rparr>
   = Inr (risk_allow ''ALLOWED'' ''pre_trade_risk_gate'')"
  by code_simp+

lemma sample_env_fields [simp]:
  "env_outage sample_oms_env = (\<lambda>_. None)" "env_has_control sample_oms_env = False"
  "env_policy sample_oms_env = default_policy" "env_uuid4 sample_oms_env = of_nat"
  "store_signal (env_columns sample_oms_env) x = x"
  by (simp_all add: sample_oms_env_def store_signal_def option.map_ident)

lemma sample_request_fields [simp]:
  "req_signal (sample_request t) = sample_signal t" "req_rule (sample_request t) = Some sample_rule"
  "req_decision_price (sample_request t) = Some 40" "req_market (sample_request t) = Some sample_market"
  "req_position (sample_request t) = None" "req_type (sample_request t) = MARKET" "req_price (sample_request t) = None"
  "req_control (sample_request t) = None" "req_guard (sample_request t) = None"
  "req_occurred_at (sample_request t) = sample_time + 2 * us_per_second"
  by (simp_all add: sample_request_def)

lemma sample_stored_fields [simp]:
  "ow_tables (sample_stored n) = empty_tables\<lparr>tb_signals := [sample_signal 300]\<rparr>" "ow_sessions (sample_stored n) = n"
  "ow_uuids (sample_stored n) = 0" "ow_submitted (sample_stored n) = []"
  "sample_stored n\<lparr>ow_sessions := m\<rparr> = sample_stored m"
  "sample_stored n\<lparr>ow_tables := empty_tables\<lparr>tb_signals := [sample_signal 300]\<rparr>, ow_sessions := m\<rparr> = sample_stored m"
  by (simp_all add: sample_stored_def sample_oms_world_def)

lemma sample_steps:
  "save_signal sample_oms_env (sample_signal 300) sample_oms_world = (Inr (sample_signal 300), sample_stored 1)"
  "oms_get_position sample_oms_env a x y (sample_stored n) = (Inr None, sample_stored (Suc n))"
  "current_exposure sample_oms_env (sample_request 300) (sample_signal 300) (Some (sample_plan 300 0 BUY 300)) (sample_stored n)
     = (Inr ([], []), sample_stored (Suc (Suc n)))"
  "release_position_for_trade_date env None d t i = pass None"
proof -
  show "save_signal sample_oms_env (sample_signal 300) sample_oms_world = (Inr (sample_signal 300), sample_stored 1)"
    by (simp add: save_ok signals_save_def sample_oms_facts)
      (simp add: sample_stored_def sample_oms_world_def empty_tables_def find_row_def sample_oms_facts)
  show "oms_get_position sample_oms_env a x y (sample_stored n) = (Inr None, sample_stored (Suc n))"
    by (simp add: oms_get_position_def session_ok positions_get_by_symbol_def)
      (simp add: empty_tables_def find_row_def load_row_def sample_stored_def)
  have "load_runtime_state a None 0 (ow_tables (sample_stored n)) = Inr \<lparr>rec_open_orders = [], rec_open_positions = [],
      rec_latest_balances = [], rec_recent_events = []\<rparr>" for a n
    by (simp add: load_runtime_state_def active_order_rows_def latest_balance_rows_def recent_event_rows_def empty_tables_def)
  moreover have "recent_intent_rows a x s t (ow_tables (sample_stored n)) = []" for a x s t n
    by (simp add: recent_intent_rows_def empty_tables_def)
  ultimately show "current_exposure sample_oms_env (sample_request 300) (sample_signal 300) (Some (sample_plan 300 0 BUY 300))
      (sample_stored n) = (Inr ([], []), sample_stored (Suc (Suc n)))"
    by (simp add: current_exposure_def is_actionable_def sample_oms_facts list_recent_active_order_intents_def session_ok)
  show "release_position_for_trade_date env None d t i = pass None"
    by (simp add: release_position_for_trade_date_def)
qed

lemma sample_submission_run:
  "submit_signal sample_oms_env (sample_request 300) sample_oms_world =
     bind_act (place_order sample_oms_env (sample_signal 300) (sample_plan 300 0 BUY 300) (sample_time + 2 * us_per_second))
       (\<lambda>x. pass (Some x)) (sample_stored 4)"
proof -
  note [simp] = sample_oms_facts is_actionable_def rr_allowed_def risk_allow_def
  have plan: "plan_signal_order (sample_request 300) (sample_signal 300) None = Inr (Some (sample_plan 300 0 BUY 300))"
    by (simp add: plan_signal_order_def)
  have "decide_order sample_oms_env (sample_request 300) CTRL_NORMAL (sample_signal 300) None (sample_stored 2) =
      bind_act (place_order sample_oms_env (sample_signal 300) (sample_plan 300 0 BUY 300) (sample_time + 2 * us_per_second))
        (\<lambda>x. pass (Some x)) (sample_stored 4)"
    unfolding decide_order_def plan
    by (simp add: bind_act_def sample_steps)
  moreover have "resolve_control sample_oms_env (sample_request 300) = pass CTRL_NORMAL"
    "lease_admits sample_oms_env (sample_request 300) = pass True"
    by (simp_all add: resolve_control_def lease_admits_def)
  ultimately show ?thesis
    unfolding submit_signal_def
    by (simp add: bind_act_def sample_steps numeral_2_eq_2)
qed


lemma sample_inj: "inj_on (of_nat :: nat \<Rightarrow> uuid) {..<7}"
    by (rule inj_on_inverseI [of _ unat]) (simp add: unsigned_of_nat take_bit_nat_eq_self)

lemma sample_new_ids: "new_ids sample_oms_env 7 (sample_stored n)"
  using sample_inj by (simp add: new_ids_def empty_tables_def lessThan_atLeast0)

lemma sample_empty_answer:
  "env_submit sample_oms_env n r i = Inr \<lparr>rep_source = ''paper'', rep_order_updates = [], rep_fill_events = []\<rparr>"
  "execution_report_is_empty \<lparr>rep_source = ''paper'', rep_order_updates = [], rep_fill_events = []\<rparr>"
  by (simp_all add: sample_oms_env_def execution_report_is_empty_def)

text \<open>The sample submission returns and hands over one order.\<close>

lemma sample_submission:
  obtains x r i w' where "submit_signal sample_oms_env (sample_request 300) sample_oms_world = (Inr (Some x), w')"
    "ow_submitted w' = [(r, i)]" "ow_uuids w' = 7"
proof -
  have "\<exists>res w' r i. place_order sample_oms_env (sample_signal 300) (sample_plan 300 0 BUY 300)
      (sample_time + 2 * us_per_second) (sample_stored 4) = (res, w')
    \<and> ow_submitted w' = ow_submitted (sample_stored 4) @ [(r, i)]
    \<and> ord_status r = NEW \<and> Some (ord_side r) = plan_side (sample_plan 300 0 BUY 300)
    \<and> ord_qty r = plan_qty (sample_plan 300 0 BUY 300)
    \<and> (case env_submit sample_oms_env (length (ow_submitted (sample_stored 4))) r i of
         Inl e \<Rightarrow> (\<exists>e'. res = Inl e') \<and> intent_stored i INTENT_NEW w'
       | Inr rep \<Rightarrow> intent_stored i INTENT_SUBMITTED w'
           \<and> (\<exists>booked w0. ow_uuids w0 = ow_uuids (sample_stored 4) + 7
               \<and> (if execution_report_is_empty rep then pass r else apply_execution_report sample_oms_env rep r) w0
                   = (booked, w')
               \<and> res = res_map (\<lambda>r'. \<lparr>sub_signal = sample_signal 300, sub_plan = sample_plan 300 0 BUY 300,
                     sub_intent = i\<lparr>int_status := INTENT_SUBMITTED\<rparr>, sub_order = r'\<rparr>) booked))"
  proof (rule place_order_hands_over)
    show "tables_ok (ow_tables (sample_stored 4))"
      by (simp add: tables_ok_def empty_tables_def keyed_def)
    show "plan_actionable (sample_plan 300 0 BUY 300)"
      by (rule sample_oms_facts)
    show "signal_ok (sample_signal 300)" "market_state_ok (plan_market_context (sample_plan 300 0 BUY 300))"
      "0 < plan_decision_price (sample_plan 300 0 BUY 300)"
      "price_fits (plan_order_type (sample_plan 300 0 BUY 300)) (plan_price (sample_plan 300 0 BUY 300))"
      by code_simp+
  qed (simp_all add: sample_new_ids sample_plan_def empty_tables_def)
  then show thesis
    using that by (auto simp: sample_submission_run sample_empty_answer bind_act_def)
qed


theorem gateway_behind_the_gates_witness:
  "\<exists>w' r i p. snd (submit_signal sample_oms_env (sample_request 300) sample_oms_world) = w'
     \<and> ow_submitted w' = [(r, i)] \<and> ord_intent_id r = int_id i
     \<and> int_id i \<in> int_id ` set (tb_intents (ow_tables w')) \<and> plan_actionable p
     \<and> sig_id (plan_signal p) = sig_id (sample_signal 300)"
proof -
  obtain x r i w' where w': "submit_signal sample_oms_env (sample_request 300) sample_oms_world = (Inr (Some x), w')"
    "ow_submitted w' = [(r, i)]"
    by (rule sample_submission)
  show ?thesis
    using gateway_behind_the_gates [OF w'(1)] w'
    by (auto simp: sample_oms_world_def tables_ok_def empty_tables_def)
qed

theorem signal_handed_over_once_witness:
  "\<exists>x w1 new. submit_signal sample_oms_env (sample_request 300) sample_oms_world = (Inr (Some x), w1)
     \<and> ow_submitted (oms_run sample_oms_env [] w1) = ow_submitted w1 @ new
     \<and> build_order_intent_idempotency_key (sample_signal 300) \<notin> (int_idempotency_key \<circ> snd) ` set new"
proof -
  obtain x r i w1 where w1: "submit_signal sample_oms_env (sample_request 300) sample_oms_world = (Inr (Some x), w1)"
    "ow_uuids w1 = 7"
    by (rule sample_submission)
  have "\<exists>new. ow_submitted (oms_run sample_oms_env [] w1) = ow_submitted w1 @ new
     \<and> build_order_intent_idempotency_key (req_signal (sample_request 300)) \<notin> (int_idempotency_key \<circ> snd) ` set new"
  proof (rule signal_handed_over_once [OF w1(1) _ refl])
    show "tables_ok (ow_tables sample_oms_world)"
      by (simp add: sample_oms_world_def tables_ok_def empty_tables_def)
    show "inj_on (env_uuid4 sample_oms_env) {..<ow_uuids (oms_run sample_oms_env [] w1)}"
      using sample_inj w1(2) by (simp add: oms_run_def)
  qed (simp add: sample_oms_world_def empty_tables_def)
  then show ?thesis
    using w1(1) by simp
qed

theorem admitted_signal_reaches_gateway_witness:
  "\<exists>x w' r i. decide_order sample_oms_env (sample_request 300) CTRL_NORMAL (sample_signal 300) None (sample_stored 2)
       = (Inr (Some x), w')
     \<and> ow_submitted w' = [(r, i)] \<and> ord_status r = NEW \<and> ord_side r = BUY \<and> ord_qty r = 300"
proof -
  have "\<exists>res w' r i. decide_order sample_oms_env (sample_request 300) CTRL_NORMAL (sample_signal 300) None (sample_stored 2)
       = (res, w')
     \<and> ow_submitted w' = ow_submitted (sample_stored 2) @ [(r, i)]
     \<and> ord_status r = NEW \<and> Some (ord_side r) = plan_side (sample_plan 300 0 BUY 300)
     \<and> ord_qty r = plan_qty (sample_plan 300 0 BUY 300)
     \<and> (case env_submit sample_oms_env (length (ow_submitted (sample_stored 2))) r i of
         Inl e \<Rightarrow> (\<exists>e'. res = Inl e') \<and> intent_stored i INTENT_NEW w'
       | Inr rep \<Rightarrow> intent_stored i INTENT_SUBMITTED w'
           \<and> (\<exists>booked w0.
               (if execution_report_is_empty rep then pass r else apply_execution_report sample_oms_env rep r) w0 = (booked, w')
               \<and> res = res_map (\<lambda>r'. Some \<lparr>sub_signal = sample_signal 300, sub_plan = sample_plan 300 0 BUY 300,
                     sub_intent = i\<lparr>int_status := INTENT_SUBMITTED\<rparr>, sub_order = r'\<rparr>) booked))"
  proof (rule admitted_signal_reaches_gateway)
    show "tables_ok (ow_tables (sample_stored 2))"
      by (simp add: tables_ok_def empty_tables_def keyed_def)
    show "market_state_ok sample_market" "price_fits (req_type (sample_request 300)) (req_price (sample_request 300))"
      "sizing_inputs (- 10) (sample_signal 300) sample_rule None"
      by code_simp+
    show "plan_signal_order (sample_request 300) (sample_signal 300) None = Inr (Some (sample_plan 300 0 BUY 300))"
      by (simp add: plan_signal_order_def sample_oms_facts)
    show "plan_actionable (sample_plan 300 0 BUY 300)"
      by (rule sample_oms_facts)
    show "rr_allowed (risk_allow ''ALLOWED'' ''pre_trade_risk_gate'')"
      by (simp add: rr_allowed_def risk_allow_def)
  qed (use sample_oms_facts(4) in \<open>simp_all add: sample_new_ids sample_steps(3) empty_tables_def\<close>)
  then show ?thesis
    by (auto simp: sample_plan_def sample_empty_answer)
qed


theorem books_survive_every_call_witness:
  "let calls = [Submit_Signal (sample_request 300), Cancel_All ''paper_account_001'' None sample_time] in
   tables_ok (ow_tables (oms_run sample_oms_env calls sample_oms_world))
   \<and> evolves empty_tables (ow_tables (oms_run sample_oms_env calls sample_oms_world))"
  using books_survive_every_call [of sample_oms_world]
  by (simp add: sample_oms_world_def tables_ok_def empty_tables_def Let_def)

end
