(* ===== verification/Event_Bus.thy ===== *)
theory Event_Bus
  imports Prelude "HOL-Library.AList"
begin

text \<open>
  The event bus of the trader (src/src/infra/messaging/bus.py, InProcessEventBus): subscriptions,
  publication, the dispatcher task and the orderly stop.  What one coroutine does between two awaits
  is one function here; bus_step interleaves the dispatcher, the publishers that wait for a place in
  a bounded queue and the caller of stop in every order.  The asyncio queue is its items with the
  count of unfinished ones.  What a handler does is left to the client; only its exception, given by
  the parameter raises, matters to the bus.  One call of stop is followed at a time, and start is not
  called while it is under way.
\<close>

section \<open>Data\<close>

record 't subscription =
  es_id :: nat
  es_type :: 't
  es_name :: string

record ('t, 'h) binding =
  hb_subscription :: "'t subscription"
  hb_handler :: 'h

datatype 'e item = Event 'e | Stop_Sentinel

text \<open>
  The dispatcher task: not created, waiting for an item, calling the handlers that remain for an event,
  or done, with the exception it ended with.
\<close>

datatype ('e, 't, 'h) dispatcher =
    No_Task
  | Waiting
  | Handling 'e "('t, 'h) binding list"
  | Done "fault option"

text \<open>The caller of stop: none, in queue.join(), putting the sentinel, awaiting the task, returned.\<close>

datatype stop_call = Idle | Joining | Putting | Awaiting | Stopped "fault option"

record ('e, 't, 'h) bus =
  bus_maxsize :: nat
  bus_queue :: "'e item list"
  bus_unfinished :: nat
  bus_putters :: "'e list"
  bus_bindings :: "('t \<times> ('t, 'h) binding list) list"
  bus_next_id :: nat
  bus_dispatcher :: "('e, 't, 'h) dispatcher"
  bus_stopping :: bool
  bus_stop :: stop_call
  bus_calls :: "('h \<times> 'e) list"

text \<open>bus_calls records the handlers called so far, each with its event; the code keeps no such list.\<close>

definition new_bus :: "nat \<Rightarrow> ('e, 't, 'h) bus" where
  "new_bus queue_maxsize = \<lparr>bus_maxsize = queue_maxsize, bus_queue = [], bus_unfinished = 0,
     bus_putters = [], bus_bindings = [], bus_next_id = 1, bus_dispatcher = No_Task,
     bus_stopping = False, bus_stop = Idle, bus_calls = []\<rparr>"

section \<open>Client operations\<close>

fun is_running :: "('e, 't, 'h, 'x) bus_scheme \<Rightarrow> bool" where
  "is_running b = (case bus_dispatcher b of No_Task \<Rightarrow> False | Done f \<Rightarrow> False | _ \<Rightarrow> True)"

definition pending_count :: "('e, 't, 'h) bus \<Rightarrow> nat" where
  "pending_count b = length (bus_queue b)"

definition subscription_count :: "('e, 't, 'h) bus \<Rightarrow> nat" where
  "subscription_count b = sum_list (map (length \<circ> snd) (bus_bindings b))"

definition bindings_of :: "'t \<Rightarrow> ('e, 't, 'h) bus \<Rightarrow> ('t, 'h) binding list" where
  "bindings_of t b = (case map_of (bus_bindings b) t of None \<Rightarrow> [] | Some bs \<Rightarrow> bs)"

text \<open>name or getattr(handler, ...): a missing or empty name is replaced by the name of the handler.\<close>

definition subscribe ::
  "('h \<Rightarrow> string) \<Rightarrow> 't \<Rightarrow> 'h \<Rightarrow> string option \<Rightarrow> ('e, 't, 'h) bus \<Rightarrow> 't subscription \<times> ('e, 't, 'h) bus"
where
  "subscribe qualname t handler name b =
     (let s = \<lparr>es_id = bus_next_id b, es_type = t,
                es_name = (if name = None \<or> name = Some [] then qualname handler else the name)\<rparr>
      in (s, b\<lparr>bus_next_id := bus_next_id b + 1,
               bus_bindings := AList.update t (bindings_of t b @ [\<lparr>hb_subscription = s, hb_handler = handler\<rparr>])
                 (bus_bindings b)\<rparr>))"

definition unsubscribe :: "'t subscription \<Rightarrow> ('e, 't, 'h) bus \<Rightarrow> ('e, 't, 'h) bus" where
  "unsubscribe s b =
     (if bindings_of (es_type s) b = [] then b
      else let remaining = filter (\<lambda>x. es_id (hb_subscription x) \<noteq> es_id s) (bindings_of (es_type s) b)
           in if remaining \<noteq> []
              then b\<lparr>bus_bindings := AList.update (es_type s) remaining (bus_bindings b)\<rparr>
              else b\<lparr>bus_bindings := AList.delete (es_type s) (bus_bindings b)\<rparr>)"

definition start_bus :: "('e, 't, 'h) bus \<Rightarrow> ('e, 't, 'h) bus res" where
  "start_bus b =
     (if is_running b then Inl (RuntimeError ''event bus is already running'')
      else Inr (b\<lparr>bus_stopping := False, bus_dispatcher := Waiting\<rparr>))"

definition queue_full :: "('e, 't, 'h) bus \<Rightarrow> bool" where
  "queue_full b \<longleftrightarrow> 0 < bus_maxsize b \<and> bus_maxsize b \<le> length (bus_queue b)"

definition put_item :: "'e item \<Rightarrow> ('e, 't, 'h) bus \<Rightarrow> ('e, 't, 'h) bus" where
  "put_item i b = b\<lparr>bus_queue := bus_queue b @ [i], bus_unfinished := bus_unfinished b + 1\<rparr>"

text \<open>publish puts the event, or waits for a place when the queue is bounded and full.\<close>

definition publish :: "'e \<Rightarrow> ('e, 't, 'h) bus \<Rightarrow> ('e, 't, 'h) bus res" where
  "publish e b =
     (if \<not> is_running b then Inl (RuntimeError ''event bus must be started before publishing events'')
      else if bus_stopping b
      then Inl (RuntimeError ''event bus is stopping and no longer accepts new events'')
      else if queue_full b then Inr (b\<lparr>bus_putters := bus_putters b @ [e]\<rparr>)
      else Inr (put_item (Event e) b))"

text \<open>stop, up to its first await.\<close>

definition begin_stop :: "('e, 't, 'h) bus \<Rightarrow> ('e, 't, 'h) bus" where
  "begin_stop b =
     (case bus_dispatcher b of
        No_Task \<Rightarrow> b\<lparr>bus_stop := Stopped None\<rparr>
      | Done f \<Rightarrow> b\<lparr>bus_stop := Stopped f, bus_dispatcher := No_Task, bus_stopping := False\<rparr>
      | _ \<Rightarrow> b\<lparr>bus_stopping := True,
                bus_stop := (if 0 < bus_unfinished b then Joining else Putting)\<rparr>)"

text \<open>What wait_until_stopped gives: None while it has to wait.\<close>

definition wait_until_stopped :: "('e, 't, 'h) bus \<Rightarrow> unit res option" where
  "wait_until_stopped b =
     (case bus_dispatcher b of
        No_Task \<Rightarrow> Some (Inr ())
      | Done None \<Rightarrow> Some (Inr ())
      | Done (Some f) \<Rightarrow> Some (Inl f)
      | _ \<Rightarrow> None)"

section \<open>The dispatcher, the waiting publishers and the caller of stop\<close>

text \<open>isinstance(event, event_type) is the parameter inst.\<close>

definition matching_bindings :: "('e \<Rightarrow> 't \<Rightarrow> bool) \<Rightarrow> ('e, 't, 'h) bus \<Rightarrow> 'e \<Rightarrow> ('t, 'h) binding list" where
  "matching_bindings inst b e =
     concat (map snd (filter (\<lambda>(t, registered). inst e t) (bus_bindings b)))"

text \<open>queue.task_done(): the last item that is finished wakes the caller that joins the queue.\<close>

definition task_done :: "('e, 't, 'h) bus \<Rightarrow> ('e, 't, 'h) bus" where
  "task_done b =
     b\<lparr>bus_unfinished := bus_unfinished b - 1,
       bus_stop := (if bus_unfinished b = 1 \<and> bus_stop b = Joining then Putting else bus_stop b)\<rparr>"

definition dispatch_step ::
  "('e \<Rightarrow> 't \<Rightarrow> bool) \<Rightarrow> ('h \<Rightarrow> 'e \<Rightarrow> fault option) \<Rightarrow> ('e, 't, 'h) bus \<Rightarrow> ('e, 't, 'h) bus option"
where
  "dispatch_step inst raises b =
     (case bus_dispatcher b of
        Waiting \<Rightarrow>
          (case bus_queue b of
             [] \<Rightarrow> None
           | Event e # q \<Rightarrow> Some (b\<lparr>bus_queue := q, bus_dispatcher := Handling e (matching_bindings inst b e)\<rparr>)
           | Stop_Sentinel # q \<Rightarrow> Some (task_done (b\<lparr>bus_queue := q, bus_dispatcher := Done None\<rparr>)))
      | Handling e [] \<Rightarrow> Some (task_done (b\<lparr>bus_dispatcher := Waiting\<rparr>))
      | Handling e (h # hs) \<Rightarrow>
          (let b' = b\<lparr>bus_calls := bus_calls b @ [(hb_handler h, e)]\<rparr>
           in case raises (hb_handler h) e of
                None \<Rightarrow> Some (b'\<lparr>bus_dispatcher := Handling e hs\<rparr>)
              | Some f \<Rightarrow> Some (task_done (b'\<lparr>bus_dispatcher := Done (Some f)\<rparr>)))
      | _ \<Rightarrow> None)"

definition putter_step :: "('e, 't, 'h) bus \<Rightarrow> ('e, 't, 'h) bus option" where
  "putter_step b =
     (case bus_putters b of
        [] \<Rightarrow> None
      | e # es \<Rightarrow> if queue_full b then None else Some (put_item (Event e) (b\<lparr>bus_putters := es\<rparr>)))"

definition stop_step :: "('e, 't, 'h) bus \<Rightarrow> ('e, 't, 'h) bus option" where
  "stop_step b =
     (case bus_stop b of
        Putting \<Rightarrow> if queue_full b then None else Some (put_item Stop_Sentinel (b\<lparr>bus_stop := Awaiting\<rparr>))
      | Awaiting \<Rightarrow>
          (case bus_dispatcher b of
             Done f \<Rightarrow> Some (b\<lparr>bus_stop := Stopped f, bus_dispatcher := No_Task, bus_stopping := False\<rparr>)
           | _ \<Rightarrow> None)
      | _ \<Rightarrow> None)"

inductive bus_step ::
  "('e \<Rightarrow> 't \<Rightarrow> bool) \<Rightarrow> ('h \<Rightarrow> 'e \<Rightarrow> fault option) \<Rightarrow> ('e, 't, 'h) bus \<Rightarrow> ('e, 't, 'h) bus \<Rightarrow> bool"
for inst raises where
  Dispatch: "dispatch_step inst raises b = Some b' \<Longrightarrow> bus_step inst raises b b'"
| Put: "putter_step b = Some b' \<Longrightarrow> bus_step inst raises b b'"
| Stop: "stop_step b = Some b' \<Longrightarrow> bus_step inst raises b b'"

inductive_cases bus_stepE: "bus_step inst raises b b'"

section \<open>What the bus still owes\<close>

text \<open>
  The abstract view of the bus: the calls it still has to make, in order, for the event in hand and
  the events queued.  A step that no handler fails in moves calls from the front of this list to
  bus_calls.
\<close>

definition calls_for :: "('e \<Rightarrow> 't \<Rightarrow> bool) \<Rightarrow> ('e, 't, 'h) bus \<Rightarrow> 'e item \<Rightarrow> ('h \<times> 'e) list" where
  "calls_for inst b i =
     (case i of Event e \<Rightarrow> map (\<lambda>x. (hb_handler x, e)) (matching_bindings inst b e) | Stop_Sentinel \<Rightarrow> [])"

definition calls_due :: "('e \<Rightarrow> 't \<Rightarrow> bool) \<Rightarrow> ('e, 't, 'h) bus \<Rightarrow> ('h \<times> 'e) list" where
  "calls_due inst b =
     (case bus_dispatcher b of Handling e hs \<Rightarrow> map (\<lambda>x. (hb_handler x, e)) hs | _ \<Rightarrow> [])
     @ concat (map (calls_for inst b) (bus_queue b @ map Event (bus_putters b)))"

definition harmless :: "('h \<Rightarrow> 'e \<Rightarrow> fault option) \<Rightarrow> ('h \<times> 'e) list \<Rightarrow> bool" where
  "harmless raises cs \<longleftrightarrow> (\<forall>(h, e) \<in> set cs. raises h e = None)"

lemma harmless_simps [simp]:
  "harmless raises []"
  "harmless raises ((h, e) # cs) \<longleftrightarrow> raises h e = None \<and> harmless raises cs"
  "harmless raises (xs @ ys) \<longleftrightarrow> harmless raises xs \<and> harmless raises ys"
  by (auto simp: harmless_def)

lemmas bus_defs = dispatch_step_def putter_step_def stop_step_def put_item_def task_done_def Let_def

lemma bus_step_bindings: "bus_step inst raises b b' \<Longrightarrow> bus_bindings b' = bus_bindings b"
  by (erule bus_stepE) (auto simp: bus_defs split: dispatcher.splits list.splits item.splits option.splits
      stop_call.splits if_splits)

lemma bus_step_calls_for: "bus_step inst raises b b' \<Longrightarrow> calls_for inst b' = calls_for inst b"
  by (drule bus_step_bindings) (auto simp: calls_for_def matching_bindings_def fun_eq_iff split: item.split)

section \<open>Every run of the bus ends\<close>

text \<open>The steps an item still takes: one to get it, one per handler, one to finish it.\<close>

definition item_cost :: "('e \<Rightarrow> 't \<Rightarrow> bool) \<Rightarrow> ('e, 't, 'h) bus \<Rightarrow> 'e item \<Rightarrow> nat" where
  "item_cost inst b i =
     (case i of Event e \<Rightarrow> 2 + length (matching_bindings inst b e) | Stop_Sentinel \<Rightarrow> 1)"

fun dispatcher_cost :: "('e, 't, 'h) dispatcher \<Rightarrow> nat" where
  "dispatcher_cost (Handling e hs) = 1 + length hs"
| "dispatcher_cost _ = 0"

fun stop_cost :: "stop_call \<Rightarrow> nat" where
  "stop_cost Joining = 3"
| "stop_cost Putting = 3"
| "stop_cost Awaiting = 1"
| "stop_cost _ = 0"

definition bus_work :: "('e \<Rightarrow> 't \<Rightarrow> bool) \<Rightarrow> ('e, 't, 'h) bus \<Rightarrow> nat" where
  "bus_work inst b =
     dispatcher_cost (bus_dispatcher b) + sum_list (map (item_cost inst b) (bus_queue b))
     + sum_list (map (Suc \<circ> item_cost inst b \<circ> Event) (bus_putters b)) + stop_cost (bus_stop b)"

lemma item_cost_cong: "bus_bindings b' = bus_bindings b \<Longrightarrow> item_cost inst b' = item_cost inst b"
  by (auto simp: item_cost_def matching_bindings_def fun_eq_iff split: item.split)

lemma bus_step_work: "bus_step inst raises b b' \<Longrightarrow> bus_work inst b' < bus_work inst b"
proof -
  assume s: "bus_step inst raises b b'"
  have c: "item_cost inst b' = item_cost inst b"
    by (rule item_cost_cong [OF bus_step_bindings [OF s]])
  from s show ?thesis
    by (rule bus_stepE)
      (auto simp: bus_defs bus_work_def c item_cost_def split: dispatcher.splits list.splits item.splits
        option.splits stop_call.splits if_splits)
qed

lemma bus_run_bounded: "(bus_step inst raises ^^ n) b b' \<Longrightarrow> n + bus_work inst b' \<le> bus_work inst b"
proof (induction n arbitrary: b')
  case (Suc n)
  then obtain c where c: "(bus_step inst raises ^^ n) b c" "bus_step inst raises c b'"
    by (auto elim: relpowp_Suc_E)
  from Suc.IH [OF c(1)] bus_step_work [OF c(2)] show ?case by linarith
qed simp

section \<open>The buses of the program\<close>

text \<open>
  The buses a program can reach with its calls, in every order with the steps of the tasks.  A call
  that raises leaves the bus as it is.
\<close>

definition stop_under_way :: "('e, 't, 'h) bus \<Rightarrow> bool" where
  "stop_under_way b = (case bus_stop b of Idle \<Rightarrow> False | Stopped f \<Rightarrow> False | _ \<Rightarrow> True)"

inductive bus_reached ::
  "('h \<Rightarrow> string) \<Rightarrow> ('e \<Rightarrow> 't \<Rightarrow> bool) \<Rightarrow> ('h \<Rightarrow> 'e \<Rightarrow> fault option) \<Rightarrow> ('e, 't, 'h) bus \<Rightarrow> bool"
for qualname inst raises where
  New: "bus_reached qualname inst raises (new_bus m)"
| Subscribe: "bus_reached qualname inst raises b \<Longrightarrow>
    bus_reached qualname inst raises (snd (subscribe qualname t h name b))"
| Unsubscribe: "bus_reached qualname inst raises b \<Longrightarrow> bus_reached qualname inst raises (unsubscribe s b)"
| Start: "bus_reached qualname inst raises b \<Longrightarrow> \<not> stop_under_way b \<Longrightarrow> start_bus b = Inr b' \<Longrightarrow>
    bus_reached qualname inst raises b'"
| Publish: "bus_reached qualname inst raises b \<Longrightarrow> publish e b = Inr b' \<Longrightarrow> bus_reached qualname inst raises b'"
| Begin_Stop: "bus_reached qualname inst raises b \<Longrightarrow> \<not> stop_under_way b \<Longrightarrow>
    bus_reached qualname inst raises (begin_stop b)"
| Step: "bus_reached qualname inst raises b \<Longrightarrow> bus_step inst raises b b' \<Longrightarrow>
    bus_reached qualname inst raises b'"

fun in_hand :: "('e, 't, 'h) dispatcher \<Rightarrow> nat" where
  "in_hand (Handling e hs) = 1"
| "in_hand _ = 0"

text \<open>The count of unfinished items is the queue with the event in hand; nobody waits on an unbounded queue.\<close>

definition bus_ok :: "('e, 't, 'h) bus \<Rightarrow> bool" where
  "bus_ok b \<longleftrightarrow> bus_unfinished b = length (bus_queue b) + in_hand (bus_dispatcher b)
     \<and> (bus_maxsize b = 0 \<longrightarrow> bus_putters b = [])"

lemma bus_ok_step: "bus_step inst raises b b' \<Longrightarrow> bus_ok b \<Longrightarrow> bus_ok b'"
  by (erule bus_stepE) (auto simp: bus_defs bus_ok_def split: dispatcher.splits list.splits item.splits
      option.splits stop_call.splits if_splits)

lemma bus_ok_reached: "bus_reached qualname inst raises b \<Longrightarrow> bus_ok b"
proof (induction rule: bus_reached.induct)
  case (Start b b')
  then show ?case
    by (cases "bus_dispatcher b") (auto simp: bus_ok_def start_bus_def split: if_splits)
next
  case (Publish b e b')
  then show ?case
    by (auto simp: bus_ok_def publish_def put_item_def queue_full_def split: if_splits)
next
  case (Begin_Stop b)
  then show ?case
    by (auto simp: bus_ok_def begin_stop_def split: dispatcher.splits)
next
  case (Step b b')
  then show ?case by (blast intro: bus_ok_step)
qed (auto simp: bus_ok_def new_bus_def subscribe_def unsubscribe_def Let_def)

section \<open>The orderly stop\<close>

text \<open>The buses that stop goes through when no handler fails.\<close>

definition draining :: "('e, 't, 'h) bus \<Rightarrow> bool" where
  "draining b \<longleftrightarrow> bus_ok b \<and> bus_maxsize b = 0 \<and>
     (case bus_stop b of
        Idle \<Rightarrow> False
      | Joining \<Rightarrow> is_running b \<and> Stop_Sentinel \<notin> set (bus_queue b) \<and> 0 < bus_unfinished b
      | Putting \<Rightarrow> bus_dispatcher b = Waiting \<and> bus_queue b = []
      | Awaiting \<Rightarrow> bus_dispatcher b = Waiting \<and> bus_queue b = [Stop_Sentinel]
                    \<or> bus_dispatcher b = Done None \<and> bus_queue b = []
      | Stopped f \<Rightarrow> f = None \<and> bus_dispatcher b = No_Task \<and> bus_queue b = [])"

lemma dispatch_due:
  assumes "dispatch_step inst raises b = Some b'" "harmless raises (calls_due inst b)"
  shows "bus_calls b' @ calls_due inst b' = bus_calls b @ calls_due inst b
     \<and> harmless raises (calls_due inst b')"
proof -
  have c: "calls_for inst b' = calls_for inst b"
    using assms(1) by (intro bus_step_calls_for) (rule bus_step.Dispatch)
  show ?thesis
    using assms unfolding calls_due_def c
    by (auto simp: bus_defs calls_for_def split: dispatcher.splits list.splits item.splits option.splits)
qed

lemma draining_step:
  assumes "bus_step inst raises b b'" "draining b" "harmless raises (calls_due inst b)"
  shows "draining b' \<and> bus_calls b' @ calls_due inst b' = bus_calls b @ calls_due inst b
     \<and> harmless raises (calls_due inst b')"
proof -
  have ok: "bus_ok b'"
    using assms(1,2) bus_ok_step by (auto simp: draining_def)
  have c: "calls_for inst b' = calls_for inst b"
    by (rule bus_step_calls_for [OF assms(1)])
  from assms(1) show ?thesis
  proof (rule bus_stepE)
    assume d: "dispatch_step inst raises b = Some b'"
    have "draining b'"
      using d assms(2,3) ok
      by (auto simp: bus_defs draining_def bus_ok_def calls_due_def split: dispatcher.splits list.splits
          item.splits option.splits stop_call.splits if_splits)
    with dispatch_due [OF d assms(3)] show ?thesis by simp
  next
    assume "putter_step b = Some b'"
    then show ?thesis
      using assms(2) by (auto simp: putter_step_def draining_def bus_ok_def split: list.splits)
  next
    assume "stop_step b = Some b'"
    then show ?thesis
      using assms(2,3) ok unfolding calls_due_def c
      by (auto simp: bus_defs draining_def bus_ok_def queue_full_def calls_for_def
          split: dispatcher.splits stop_call.splits if_splits)
  qed
qed

lemma draining_progress:
  assumes "draining b" "bus_stop b \<noteq> Stopped None"
  shows "\<exists>b'. bus_step inst raises b b'"
proof -
  have "(\<exists>b'. dispatch_step inst raises b = Some b') \<or> (\<exists>b'. stop_step b = Some b')"
    using assms
    by (auto simp: draining_def bus_ok_def bus_defs queue_full_def split: dispatcher.splits list.splits
        item.splits option.splits stop_call.splits)
  then show ?thesis
    by (auto intro: bus_step.intros)
qed

lemma draining_run:
  assumes "(bus_step inst raises)\<^sup>*\<^sup>* b b'" "draining b" "harmless raises (calls_due inst b)"
  shows "draining b' \<and> bus_calls b' @ calls_due inst b' = bus_calls b @ calls_due inst b
     \<and> harmless raises (calls_due inst b')"
  using assms(1)
proof (induction rule: rtranclp_induct)
  case (step c d)
  then show ?case using draining_step [of inst raises c d] by auto
qed (simp add: assms(2,3))

lemma begin_stop_draining:
  assumes "bus_ok b" "is_running b" "bus_maxsize b = 0" "Stop_Sentinel \<notin> set (bus_queue b)"
  shows "draining (begin_stop b)"
  using assms
  by (cases "bus_dispatcher b") (auto simp: draining_def begin_stop_def bus_ok_def)

lemma begin_stop_due [simp]:
  "calls_due inst (begin_stop b) = calls_due inst b" "bus_calls (begin_stop b) = bus_calls b"
proof -
  have c: "calls_for inst (begin_stop b) = calls_for inst b"
    by (auto simp: calls_for_def matching_bindings_def begin_stop_def fun_eq_iff split: item.split dispatcher.split)
  show "calls_due inst (begin_stop b) = calls_due inst b" "bus_calls (begin_stop b) = bus_calls b"
    unfolding calls_due_def c by (auto simp: begin_stop_def split: dispatcher.split)
qed

lemma drained:
  "draining b \<Longrightarrow> bus_stop b = Stopped None \<Longrightarrow> bus_dispatcher b = No_Task \<and> bus_queue b = [] \<and> calls_due inst b = []"
  by (auto simp: draining_def calls_due_def bus_ok_def)

text \<open>
  C6.  The bus stops.  When stop is called on a running bus with an unbounded queue and no handler
  fails, whatever the order in which the tasks are scheduled, the bus takes a bounded number of steps,
  and it only comes to rest when stop has returned, with an empty queue, after every handler
  subscribed to each event published before has been called with it, in order.
\<close>

theorem stop_terminates:
  assumes "bus_reached qualname inst raises b" "is_running b" "bus_maxsize b = 0"
    and "Stop_Sentinel \<notin> set (bus_queue b)" "harmless raises (calls_due inst b)"
  shows "(\<forall>n b'. (bus_step inst raises ^^ n) (begin_stop b) b' \<longrightarrow> n \<le> bus_work inst (begin_stop b))
     \<and> (\<forall>b'. (bus_step inst raises)\<^sup>*\<^sup>* (begin_stop b) b' \<and> (\<nexists>c. bus_step inst raises b' c) \<longrightarrow>
          bus_stop b' = Stopped None \<and> bus_dispatcher b' = No_Task \<and> bus_queue b' = []
          \<and> bus_calls b' = bus_calls b @ calls_due inst b)"
proof (intro conjI allI impI)
  fix n b'
  assume "(bus_step inst raises ^^ n) (begin_stop b) b'"
  from bus_run_bounded [OF this] show "n \<le> bus_work inst (begin_stop b)" by simp
next
  fix b'
  assume r: "(bus_step inst raises)\<^sup>*\<^sup>* (begin_stop b) b' \<and> (\<nexists>c. bus_step inst raises b' c)"
  have "draining (begin_stop b)"
    by (rule begin_stop_draining [OF bus_ok_reached [OF assms(1)] assms(2-4)])
  with r assms(5) have d: "draining b'" "bus_calls b' @ calls_due inst b' = bus_calls b @ calls_due inst b"
    using draining_run [of inst raises "begin_stop b" b'] by simp_all
  with r have s: "bus_stop b' = Stopped None"
    using draining_progress by blast
  with d(2) drained [OF d(1) s, of inst]
  show "bus_stop b' = Stopped None" "bus_dispatcher b' = No_Task" "bus_queue b' = []"
    "bus_calls b' = bus_calls b @ calls_due inst b"
    by simp_all
qed

section \<open>A handler that fails while the bus stops\<close>

text \<open>Whatever tasks and clients do short of starting the bus again.\<close>

inductive bus_move ::
  "('h \<Rightarrow> string) \<Rightarrow> ('e \<Rightarrow> 't \<Rightarrow> bool) \<Rightarrow> ('h \<Rightarrow> 'e \<Rightarrow> fault option) \<Rightarrow> ('e, 't, 'h) bus \<Rightarrow> ('e, 't, 'h) bus \<Rightarrow> bool"
for qualname inst raises where
  "bus_step inst raises b b' \<Longrightarrow> bus_move qualname inst raises b b'"
| "publish e b = Inr b' \<Longrightarrow> bus_move qualname inst raises b b'"
| "bus_move qualname inst raises b (snd (subscribe qualname t h name b))"
| "bus_move qualname inst raises b (unsubscribe s b)"

lemma dead_bus_joins:
  assumes "bus_move qualname inst raises b b'" "bus_dispatcher b = Done f" "bus_stop b = Joining"
  shows "bus_dispatcher b' = Done f \<and> bus_stop b' = Joining"
  using assms
  by (cases rule: bus_move.cases)
    (auto simp: bus_defs publish_def subscribe_def unsubscribe_def elim!: bus_stepE split: list.splits if_splits)

text \<open>
  C38.  When a handler fails while stop waits for the queue and further events are queued, the task that
  would finish them has died: stop never returns, whatever the other tasks do, unless somebody
  starts the bus again.
\<close>

theorem stop_hangs_after_failure:
  assumes "bus_reached qualname inst raises b" "bus_stop b = Joining"
    and "bus_dispatcher b = Handling e (h # hs)" "raises (hb_handler h) e = Some f" "bus_queue b \<noteq> []"
  shows "\<exists>c. dispatch_step inst raises b = Some c \<and> bus_dispatcher c = Done (Some f)
     \<and> (\<forall>d. (bus_move qualname inst raises)\<^sup>*\<^sup>* c d \<longrightarrow> bus_stop d = Joining)"
proof -
  obtain c where c: "dispatch_step inst raises b = Some c" by (simp add: dispatch_step_def assms)
  have "bus_unfinished b \<noteq> 1"
    using bus_ok_reached [OF assms(1)] assms(3,5) by (simp add: bus_ok_def)
  with c have j: "bus_dispatcher c = Done (Some f) \<and> bus_stop c = Joining"
    using assms(2-4) by (auto simp: bus_defs)
  have "bus_dispatcher d = Done (Some f) \<and> bus_stop d = Joining"
    if "(bus_move qualname inst raises)\<^sup>*\<^sup>* c d" for d
    using that by (induction rule: rtranclp_induct) (use j dead_bus_joins in blast)+
  with c j show ?thesis by blast
qed

text \<open>
  When the handler fails on the last event, stop does return, with the exception, but it has put its
  sentinel in a queue that nobody reads any more: the next dispatcher task ends on it at once, and
  the restarted bus refuses every event.
\<close>

lemma failed_stop_leaves_sentinel:
  assumes "bus_ok b" "bus_stop b = Joining" "bus_maxsize b = 0"
    and "bus_dispatcher b = Handling e (h # hs)" "raises (hb_handler h) e = Some f" "bus_queue b = []"
  shows "\<exists>b1 b2 b3 b4 b5. dispatch_step inst raises b = Some b1 \<and> stop_step b1 = Some b2
     \<and> stop_step b2 = Some b3 \<and> bus_stop b3 = Stopped (Some f) \<and> start_bus b3 = Inr b4
     \<and> dispatch_step inst raises b4 = Some b5 \<and> \<not> is_running b5"
  using assms by (simp add: bus_defs bus_ok_def queue_full_def start_bus_def)

section \<open>Witnesses\<close>

text \<open>Events below 10 are bars; a recorder hears every event, a router the bars; the router may fail on 2.\<close>

definition demo_inst :: "nat \<Rightarrow> string \<Rightarrow> bool" where
  "demo_inst e t = (t = ''object'' \<or> t = ''bar'' \<and> e < 10)"

definition demo_raises :: "bool \<Rightarrow> string \<Rightarrow> nat \<Rightarrow> fault option" where
  "demo_raises faulty h e = (if faulty \<and> h = ''router'' \<and> e = 2 then Some AssertionError else None)"

definition demo_subscribed :: "(nat, string, string) bus" where
  "demo_subscribed = snd (subscribe id ''bar'' ''router'' None
     (snd (subscribe id ''object'' ''recorder'' (Some ''all'') (new_bus 0))))"

definition demo_bus :: "(nat, string, string) bus" where
  "demo_bus = put_item (Event 12) (put_item (Event 2) (demo_subscribed\<lparr>bus_dispatcher := Waiting\<rparr>))"

lemma demo_fields:
  "bus_dispatcher demo_bus = Waiting" "bus_maxsize demo_bus = 0" "bus_stop demo_bus = Idle"
  "bus_queue demo_bus = [Event 2, Event 12]" "bus_calls demo_bus = []" "bus_stopping demo_bus = False"
  "bus_putters demo_bus = []" "bus_unfinished demo_bus = 2"
  by (simp_all add: demo_bus_def demo_subscribed_def subscribe_def new_bus_def put_item_def Let_def)

lemma demo_matching:
  "map hb_handler (matching_bindings demo_inst demo_bus 2) = [''recorder'', ''router'']"
  "map hb_handler (matching_bindings demo_inst demo_bus 12) = [''recorder'']"
  by (simp_all add: matching_bindings_def demo_bus_def demo_subscribed_def subscribe_def new_bus_def
      put_item_def Let_def bindings_of_def demo_inst_def)

lemma demo_calls:
  "map (\<lambda>x. (hb_handler x, e)) (matching_bindings demo_inst demo_bus 2) = [(''recorder'', e), (''router'', e)]"
  "map (\<lambda>x. (hb_handler x, e)) (matching_bindings demo_inst demo_bus 12) = [(''recorder'', e)]"
  using demo_matching by (auto simp: map_eq_Cons_conv)

lemma demo_due:
  "calls_due demo_inst demo_bus = [(''recorder'', 2), (''router'', 2), (''recorder'', 12)]"
  by (simp add: calls_due_def demo_fields calls_for_def demo_calls)

lemma demo_reached: "bus_reached id demo_inst raises demo_bus"
proof -
  let ?b = "demo_subscribed\<lparr>bus_dispatcher := Waiting\<rparr>"
  have f: "bus_dispatcher demo_subscribed = No_Task" "bus_stopping demo_subscribed = False"
      "bus_stop demo_subscribed = Idle" "bus_maxsize demo_subscribed = 0"
    by (simp_all add: demo_subscribed_def subscribe_def new_bus_def Let_def)
  have "bus_reached id demo_inst raises demo_subscribed"
    unfolding demo_subscribed_def by (intro bus_reached.intros)
  then have "bus_reached id demo_inst raises ?b"
    by (rule bus_reached.Start) (simp_all add: f start_bus_def stop_under_way_def)
  then have "bus_reached id demo_inst raises (put_item (Event 2) ?b)"
    by (rule bus_reached.Publish) (simp add: f publish_def queue_full_def)
  then show ?thesis
    unfolding demo_bus_def
    by (rule bus_reached.Publish) (simp add: f publish_def queue_full_def put_item_def)
qed

theorem stop_terminates_witness:
  "{b'. (bus_step demo_inst (demo_raises False))\<^sup>*\<^sup>* (begin_stop demo_bus) b'
        \<and> (\<nexists>c. bus_step demo_inst (demo_raises False) b' c)}
     \<subseteq> {b'. bus_stop b' = Stopped None
           \<and> bus_calls b' = [(''recorder'', 2), (''router'', 2), (''recorder'', 12)]}"
  using stop_terminates [OF demo_reached [of "demo_raises False"]]
  by (simp add: demo_fields demo_due demo_raises_def subset_iff)

definition demo_stopping :: "(nat, string, string) bus" where
  "demo_stopping = (begin_stop demo_bus)\<lparr>bus_queue := [Event 12],
     bus_dispatcher := Handling 2 (tl (matching_bindings demo_inst demo_bus 2)),
     bus_calls := [(''recorder'', 2)]\<rparr>"

lemma demo_router:
  obtains r q where "matching_bindings demo_inst demo_bus 2 = [r, q]" "hb_handler r = ''recorder''" "hb_handler q = ''router''"
  using demo_matching(1) by (auto simp: map_eq_Cons_conv)

lemma demo_stopping_reached: "bus_reached id demo_inst (demo_raises True) demo_stopping"
proof -
  obtain r q where m: "matching_bindings demo_inst demo_bus 2 = [r, q]" "hb_handler r = ''recorder''"
    by (rule demo_router)
  let ?b = "begin_stop demo_bus"
  let ?c = "?b\<lparr>bus_queue := [Event 12], bus_dispatcher := Handling 2 [r, q]\<rparr>"
  have f: "?b = demo_bus\<lparr>bus_stopping := True, bus_stop := Joining\<rparr>"
    by (simp add: begin_stop_def demo_fields)
  have "matching_bindings demo_inst ?b = matching_bindings demo_inst demo_bus"
    by (simp add: f matching_bindings_def fun_eq_iff)
  then have s: "bus_step demo_inst (demo_raises True) ?b ?c"
      "bus_step demo_inst (demo_raises True) ?c demo_stopping"
    by (auto intro!: bus_step.Dispatch simp: dispatch_step_def demo_stopping_def f demo_fields m demo_raises_def)
  have "bus_reached id demo_inst (demo_raises True) ?b"
    by (rule bus_reached.Begin_Stop [OF demo_reached]) (simp add: stop_under_way_def demo_fields)
  with s show ?thesis by (blast intro: bus_reached.Step)
qed

theorem stop_hangs_after_failure_witness:
  "\<exists>c. dispatch_step demo_inst (demo_raises True) demo_stopping = Some c
     \<and> bus_dispatcher c = Done (Some AssertionError)
     \<and> {d. (bus_move id demo_inst (demo_raises True))\<^sup>*\<^sup>* c d} \<subseteq> {d. bus_stop d = Joining}"
proof -
  obtain r q where m: "matching_bindings demo_inst demo_bus 2 = [r, q]" "hb_handler q = ''router''"
    by (rule demo_router)
  have "\<exists>c. dispatch_step demo_inst (demo_raises True) demo_stopping = Some c
     \<and> bus_dispatcher c = Done (Some AssertionError)
     \<and> (\<forall>d. (bus_move id demo_inst (demo_raises True))\<^sup>*\<^sup>* c d \<longrightarrow> bus_stop d = Joining)"
    by (rule stop_hangs_after_failure [OF demo_stopping_reached, of 2 q "[]"])
      (simp_all add: demo_stopping_def begin_stop_def demo_fields m demo_raises_def)
  then show ?thesis
    by blast
qed

end
