(* ===== verification/Strategy_Audit.thy ===== *)
theory Strategy_Audit
  imports Signals
begin

text \<open>
  The decision-audit contract of src/src/domain/strategy/audit.py: the summary of one strategy decision
  that the trader persists and the research front ends show, built from explicit fields or recovered from
  the snapshots of the decision.  The text of a decimal is the parameter dec_str, since the model
  does not keep trailing zeros.
\<close>

datatype confidence = Confidence_Text string | Confidence_Decimal rat

record audit_summary =
  as_provider_id :: string
  as_version :: string
  as_decision :: string
  as_confidence :: "string option"
  as_reason_summary :: string
  as_fallback_used :: bool
  as_fallback_reason :: "string option"

type_synonym input_snapshot = "(string \<times> string option) list"
type_synonym signal_snapshot = "(string \<times> string) list"

record decision_audit =
  da_input_snapshot :: input_snapshot
  da_signal_snapshot :: signal_snapshot
  da_reason_summary :: string
  da_summary :: "audit_summary option"

definition default_provider_id :: string where
  "default_provider_id = ''deterministic_policy''"

definition normalize_optional_text :: "string option \<Rightarrow> string option" where
  "normalize_optional_text value =
     (case value of
        None \<Rightarrow> None
      | Some s \<Rightarrow> (let stripped = py_strip s in if stripped = [] then None else Some stripped))"

text \<open>value or default, for a value that may be None or empty.\<close>

definition text_or :: "string option \<Rightarrow> string \<Rightarrow> string" where
  "text_or x d = (case x of None \<Rightarrow> d | Some s \<Rightarrow> if s = [] then d else s)"

definition normalize_text :: "string option \<Rightarrow> string" where
  "normalize_text value = text_or (normalize_optional_text value) []"

definition normalize_confidence :: "(rat \<Rightarrow> string) \<Rightarrow> confidence option \<Rightarrow> string option" where
  "normalize_confidence dec_str value =
     (case value of
        None \<Rightarrow> None
      | Some (Confidence_Decimal d) \<Rightarrow> Some (dec_str d)
      | Some (Confidence_Text s) \<Rightarrow> normalize_optional_text (Some s))"

definition build_audit_summary ::
  "(rat \<Rightarrow> string) \<Rightarrow> string \<Rightarrow> string \<Rightarrow> string \<Rightarrow> confidence option \<Rightarrow> string \<Rightarrow> bool \<Rightarrow> string option
     \<Rightarrow> audit_summary" where
  "build_audit_summary dec_str provider_id version decision confidence reason_summary fallback_used
     fallback_reason =
     (let resolved_provider_id = text_or (Some (normalize_text (Some provider_id))) default_provider_id;
          resolved_version = text_or (Some (normalize_text (Some version))) resolved_provider_id;
          resolved_decision = lower (text_or (Some (normalize_text (Some decision))) ''hold'');
          resolved_reason = text_or (Some (normalize_text (Some reason_summary))) ''No decision summary provided.''
      in \<lparr>as_provider_id = resolved_provider_id, as_version = resolved_version,
          as_decision = resolved_decision, as_confidence = normalize_confidence dec_str confidence,
          as_reason_summary = resolved_reason, as_fallback_used = fallback_used,
          as_fallback_reason = normalize_optional_text fallback_reason\<rparr>)"

definition snapshot_text :: "input_snapshot \<Rightarrow> string \<Rightarrow> string option" where
  "snapshot_text snapshot key =
     normalize_optional_text (case map_of snapshot key of None \<Rightarrow> None | Some v \<Rightarrow> v)"

text \<open>The first text of a chain of or; the texts are normalised, so none of them is empty.\<close>

fun first_text :: "string option list \<Rightarrow> string option" where
  "first_text [] = None"
| "first_text (None # xs) = first_text xs"
| "first_text (Some s # xs) = Some s"

definition infer_audit_summary ::
  "(rat \<Rightarrow> string) \<Rightarrow> string \<Rightarrow> input_snapshot \<Rightarrow> signal_snapshot option \<Rightarrow> string option \<Rightarrow> string
     \<Rightarrow> confidence option \<Rightarrow> audit_summary" where
  "infer_audit_summary dec_str strategy_id input signals reason_summary fallback_decision confidence =
     (let field = snapshot_text input;
          provider = text_or (first_text
            [field ''audit_provider_id'', field ''provider_id'', field ''provider_name'']) default_provider_id;
          version = text_or (first_text
            [field ''audit_model_or_policy_version'', field ''model_or_policy_version'']) strategy_id;
          decision = text_or (first_text
            [field ''audit_decision'', field ''decision_action'',
             (case signals of None \<Rightarrow> None | Some m \<Rightarrow> normalize_optional_text (map_of m ''signal_type''))])
            fallback_decision;
          resolved_confidence =
            (case (confidence, signals) of
               (None, Some m) \<Rightarrow> map_option Confidence_Text (map_of m ''confidence'')
             | _ \<Rightarrow> confidence)
      in build_audit_summary dec_str provider version decision resolved_confidence
           (text_or (normalize_optional_text reason_summary) [])
           (field ''audit_fallback_used'' = Some ''true'') (field ''audit_fallback_reason''))"

definition text_json :: "string option \<Rightarrow> json" where
  "text_json x = (case x of None \<Rightarrow> JNull | Some s \<Rightarrow> JStr s)"

definition audit_keys :: "bool \<Rightarrow> string list" where
  "audit_keys camel_case =
     (if camel_case
      then [''providerId'', ''modelOrPolicyVersion'', ''decision'', ''confidence'', ''reasonSummary'',
            ''fallbackUsed'', ''fallbackReason'']
      else [''provider_id'', ''model_or_policy_version'', ''decision'', ''confidence'', ''reason_summary'',
            ''fallback_used'', ''fallback_reason''])"

definition serialize_audit_summary :: "bool \<Rightarrow> audit_summary \<Rightarrow> json_object" where
  "serialize_audit_summary camel_case s =
     zip (audit_keys camel_case)
       [JStr (as_provider_id s), JStr (as_version s), JStr (as_decision s), text_json (as_confidence s),
        JStr (as_reason_summary s), JBool (as_fallback_used s), text_json (as_fallback_reason s)]"

section \<open>Summaries are normal\<close>

text \<open>A field that shows something: stripped, and not blank.\<close>

definition shown :: "string \<Rightarrow> bool" where
  "shown s \<longleftrightarrow> s \<noteq> [] \<and> py_strip s = s"

definition summary_normal :: "audit_summary \<Rightarrow> bool" where
  "summary_normal s \<longleftrightarrow> shown (as_provider_id s) \<and> shown (as_version s)
     \<and> shown (as_decision s) \<and> lower (as_decision s) = as_decision s \<and> shown (as_reason_summary s)
     \<and> (\<forall>t. as_fallback_reason s = Some t \<longrightarrow> shown t)"

lemma normalize_optional_text_iff:
  "normalize_optional_text x = Some t \<longleftrightarrow> (\<exists>s. x = Some s \<and> t = py_strip s \<and> t \<noteq> [])"
  by (auto simp: normalize_optional_text_def Let_def split: option.split)

lemma text_or_shown: "shown d \<Longrightarrow> shown (text_or (Some (normalize_text x)) d)"
  by (auto simp: text_or_def normalize_text_def shown_def normalize_optional_text_def Let_def split: option.split)

lemma shown_lower: "shown s \<Longrightarrow> shown (lower s)"
  by (auto simp: shown_def lower_def) (metis lower_def py_strip_lower)

lemma shown_literals:
  "shown default_provider_id" "shown ''hold''" "shown ''No decision summary provided.''"
  by code_simp+

lemma build_summary_normal:
  "summary_normal (build_audit_summary dec_str provider_id version decision confidence reason used why)"
  by (auto simp: build_audit_summary_def summary_normal_def Let_def shown_literals shown_lower text_or_shown
      normalize_optional_text_iff shown_def [of "py_strip _"])

lemma shown_text_or: "shown s \<Longrightarrow> text_or (Some (normalize_text (Some s))) d = s"
  by (simp add: text_or_def normalize_text_def shown_def normalize_optional_text_def)

text \<open>
  A decision summary always shows a provider, a version, a lower-case decision and a reason, whatever
  blank or missing fields the strategy left, and building a summary again from its own fields
  changes nothing.
\<close>

lemma audit_summary_normal:
  "summary_normal (infer_audit_summary dec_str strategy_id input signals reason fallback confidence)
   \<and> (let s = infer_audit_summary dec_str strategy_id input signals reason fallback confidence
      in build_audit_summary dec_str (as_provider_id s) (as_version s) (as_decision s)
           (map_option Confidence_Text (as_confidence s)) (as_reason_summary s) (as_fallback_used s)
           (as_fallback_reason s)
         = s\<lparr>as_confidence := normalize_optional_text (as_confidence s)\<rparr>)"
proof -
  let ?s = "infer_audit_summary dec_str strategy_id input signals reason fallback confidence"
  have n: "summary_normal ?s"
    by (simp add: infer_audit_summary_def Let_def build_summary_normal)
  then have "build_audit_summary dec_str (as_provider_id ?s) (as_version ?s) (as_decision ?s)
         (map_option Confidence_Text (as_confidence ?s)) (as_reason_summary ?s) (as_fallback_used ?s)
         (as_fallback_reason ?s)
       = ?s\<lparr>as_confidence := normalize_optional_text (as_confidence ?s)\<rparr>"
    by (cases ?s)
      (auto simp: build_audit_summary_def Let_def summary_normal_def shown_text_or normalize_confidence_def
        normalize_optional_text_def shown_def split: option.splits)
  with n show ?thesis by (simp add: Let_def)
qed

end
