(* ===== verification/Backtest_Metrics.thy ===== *)
theory Backtest_Metrics
  imports Ledger Paper_Exchange Market "HOL-Library.AList"
begin

text \<open>
  The figures of a backtest: src/src/services/backtest/service.py, the functions below the run itself.
  Slippage of an execution price, the marking of positions, the equity curve with its drawdown, and
  the performance summary of a run with its averages, ratios and holding times.  Positions
  are a dict of the code: an association list in insertion order.  A power of a decimal is taken
  to be correctly rounded, as its documentation says it almost always is.
\<close>

section \<open>Decimals of the figures\<close>

definition round_up :: "rat \<Rightarrow> int" where
  "round_up x = (if 0 \<le> x then \<lceil>x\<rceil> else \<lfloor>x\<rfloor>)"

definition dec_sum :: "rat list \<Rightarrow> rat" where
  "dec_sum xs = foldl dec_add 0 xs"

text \<open>The integer square root by bisection: the largest r with r * r at most n, between lo and hi.\<close>

function isqrt_between :: "int \<Rightarrow> int \<Rightarrow> int \<Rightarrow> int" where
  "isqrt_between n lo hi =
     (if hi \<le> lo + 1 then lo
      else let m = (lo + hi) div 2
           in if m * m \<le> n then isqrt_between n m hi else isqrt_between n lo m)"
  by auto
termination by (relation "measure (\<lambda>(n, lo, hi). nat (hi - lo))") auto

declare isqrt_between.simps [simp del]

definition isqrt :: "int \<Rightarrow> int" where
  "isqrt n = isqrt_between n 0 (n + 1)"

text \<open>
  Decimal.sqrt of a non-negative value: the root rounded to 28 digits, half to even.  The value
  is scaled so that its integer root has 28 digits.
\<close>

definition dec_sqrt :: "rat \<Rightarrow> rat" where
  "dec_sqrt x =
     (if x = 0 then 0
      else let k = 27 - adjusted x div 2; y = x * pow10 (2 * k); s = isqrt \<lfloor>y\<rfloor>;
               tie = of_int (s * s + s) + 1 / 4
           in of_int (if tie < y \<or> tie = y \<and> odd s then s + 1 else s) * pow10 (- k))"

definition to_pct :: "rat \<Rightarrow> rat res" where
  "to_pct ratio = quantize_with round_half_even (- 4) (dec_mul ratio 100)"

definition quantize_ratio :: "rat \<Rightarrow> rat res" where
  "quantize_ratio value = quantize_with round_half_even (- 4) value"

section \<open>Slippage\<close>

definition fixed_bps_slippage_model :: string where
  "fixed_bps_slippage_model = ''bar_close_bps''"

definition directional_tiered_slippage_model :: string where
  "directional_tiered_slippage_model = ''directional_close_tiered_bps''"

definition resolve_effective_slippage_bps ::
  "order_side \<Rightarrow> rat \<Rightarrow> rat \<Rightarrow> rat \<Rightarrow> string \<Rightarrow> rat res" where
  "resolve_effective_slippage_bps side reference_price previous_close base_slippage_bps slippage_model =
     (if base_slippage_bps = 0 \<or> slippage_model = fixed_bps_slippage_model \<or> previous_close \<le> 0
      then Inr base_slippage_bps
      else res_map (\<lambda>move_ratio.
        let adverse = (if side = BUY \<and> 0 < move_ratio then move_ratio
                       else if side = SELL \<and> move_ratio < 0 then dec_neg move_ratio else 0)
        in if 15 / 1000 \<le> adverse then dec_mul base_slippage_bps 3
           else if 8 / 1000 \<le> adverse then dec_mul base_slippage_bps 2
           else if 3 / 1000 \<le> adverse then dec_mul base_slippage_bps (3 / 2)
           else base_slippage_bps)
        (dec_div (dec_sub reference_price previous_close) previous_close))"

definition round_price_to_tick :: "rat \<Rightarrow> rat \<Rightarrow> order_side \<Rightarrow> rat res" where
  "round_price_to_tick price tick_size side =
     res_map (\<lambda>q. dec_mul (of_int (if side = BUY then round_up q else round_down q)) tick_size)
       (dec_div price tick_size)"

definition apply_simple_slippage ::
  "order_side \<Rightarrow> rat \<Rightarrow> rat \<Rightarrow> string \<Rightarrow> rat \<Rightarrow> rat \<Rightarrow> rat \<Rightarrow> rat \<Rightarrow> rat res" where
  "apply_simple_slippage side reference_price slippage_bps slippage_model previous_close price_tick
     upper_limit_price lower_limit_price =
     res_bind (resolve_effective_slippage_bps side reference_price previous_close slippage_bps slippage_model)
       (\<lambda>bps.
     res_bind
       (if bps = 0 then Inr reference_price
        else res_map (\<lambda>q. dec_mul reference_price
               (dec_add 1 (dec_mul q (if side = BUY then 1 else - 1))))
             (dec_div bps 10000))
       (\<lambda>slipped_price.
     round_price_to_tick (min (max slipped_price lower_limit_price) upper_limit_price) price_tick side))"

section \<open>Marking and the equity curve\<close>

definition mark_position_to_market :: "position \<Rightarrow> rat \<Rightarrow> datetime \<Rightarrow> position" where
  "mark_position_to_market p mark_price marked_at =
     (case pos_avg_entry_price p of
        None \<Rightarrow> p
      | Some avg \<Rightarrow>
          if pos_qty p = 0 then p
          else p\<lparr>pos_mark_price := Some mark_price,
                 pos_unrealized_pnl := dec_mul (dec_sub mark_price avg) (pos_qty p),
                 pos_updated_at := marked_at, pos_status := POS_OPEN\<rparr>)"

record equity_point =
  ep_event_time :: datetime
  ep_bar_key :: string
  ep_cash :: rat
  ep_market_value :: rat
  ep_equity :: rat
  ep_realized_pnl :: rat
  ep_unrealized_pnl :: rat
  ep_drawdown_pct :: rat
  ep_position_count :: nat

definition make_equity_point :: "equity_point \<Rightarrow> equity_point res" where
  "make_equity_point p =
     res_map (\<lambda>_. p\<lparr>ep_bar_key := trim (ep_bar_key p)\<rparr>) (checks
       [(trim (ep_bar_key p) = [], ValidationError ''bar_key''),
        (\<not> 0 \<le> ep_cash p, ValidationError ''cash''),
        (\<not> 0 \<le> ep_market_value p, ValidationError ''market_value''),
        (\<not> 0 \<le> ep_equity p, ValidationError ''equity''),
        (\<not> 0 \<le> ep_drawdown_pct p, ValidationError ''drawdown_pct'')])"

text \<open>The price a position is valued at: its mark, or its entry price, or zero.\<close>

definition reference_price :: "position \<Rightarrow> rat" where
  "reference_price p = (case pos_mark_price p of Some m \<Rightarrow> m
     | None \<Rightarrow> (case pos_avg_entry_price p of Some a \<Rightarrow> a | None \<Rightarrow> 0))"

type_synonym book = "(string \<times> position) list"

definition open_positions :: "book \<Rightarrow> position list" where
  "open_positions positions = filter (\<lambda>p. pos_qty p \<noteq> 0) (map snd positions)"

definition market_value :: "book \<Rightarrow> rat" where
  "market_value positions =
     dec_sum (map (\<lambda>p. dec_mul (pos_qty p) (reference_price p)) (open_positions positions))"

definition build_equity_point ::
  "string \<Rightarrow> datetime \<Rightarrow> balance_snapshot \<Rightarrow> book \<Rightarrow> rat \<Rightarrow> (equity_point \<times> rat) res" where
  "build_equity_point bar_key event_time balance positions peak_equity =
     (let value = market_value positions;
          equity = dec_add (bal_total balance) value;
          next_peak = max peak_equity equity
      in res_bind (if 0 < next_peak then dec_div (dec_sub next_peak equity) next_peak else Inr 0)
           (\<lambda>drawdown_ratio.
         res_bind (to_pct drawdown_ratio) (\<lambda>drawdown_pct.
         res_map (\<lambda>p. (p, next_peak)) (make_equity_point
           \<lparr>ep_event_time = event_time, ep_bar_key = bar_key, ep_cash = bal_total balance,
            ep_market_value = value, ep_equity = equity,
            ep_realized_pnl = dec_sum (map (pos_realized_pnl \<circ> snd) positions),
            ep_unrealized_pnl = dec_sum (map (pos_unrealized_pnl \<circ> snd) positions),
            ep_drawdown_pct = drawdown_pct,
            ep_position_count = length (open_positions positions)\<rparr>))))"

section \<open>Execution prices stay within the daily limits\<close>

lemma resolve_slippage_nonneg:
  assumes "0 \<le> base"
  shows "\<exists>bps. resolve_effective_slippage_bps side r prev base model = Inr bps \<and> 0 \<le> bps"
  using assms
  by (auto simp: resolve_effective_slippage_bps_def dec_div_def dec_mul_def Let_def)

text \<open>A quotient between two whole numbers is rounded to a whole number between them.\<close>

lemma whole_between:
  assumes "of_int l \<le> q" "q \<le> (of_int u :: rat)" "0 \<le> l"
  shows "l \<le> round_up q \<and> round_up q \<le> u" "l \<le> round_down q \<and> round_down q \<le> u"
proof -
  have "0 \<le> q" using assms by (meson of_int_0_le_iff order_trans)
  then show "l \<le> round_up q \<and> round_up q \<le> u" "l \<le> round_down q \<and> round_down q \<le> u"
    using assms by (auto simp: round_up_def round_down_def ceiling_le_iff le_floor_iff)
      (metis ceiling_mono ceiling_of_int, metis floor_mono floor_of_int)
qed

text \<open>The multiples of a step up to a value that 28 digits hold are exact, and so are their counts.\<close>

lemma multiples_exact:
  assumes "on_grid e hi" "on_grid e step" "0 < step" "hi = of_int k * step" "0 \<le> n" "n \<le> k"
  shows "dec_mul (of_int n) step = of_int n * step" "ctx (of_int n) = of_int n"
proof -
  obtain a where a: "hi = of_int a * pow10 e" "\<bar>a\<bar> \<le> 10 ^ 28" using assms(1) by (rule on_gridE)
  obtain m where m: "step = of_int m * pow10 e" using assms(2) by (rule on_gridE)
  have pos: "0 < m" using assms(3) m pow10_pos [of e] by (auto simp: zero_less_mult_iff)
  have "of_int a * pow10 e = of_int (k * m) * pow10 e" using assms(4) a m by simp
  then have "a = k * m" by (simp flip: of_int_mult)
  moreover have "n * m \<le> k * m" "0 \<le> n * m" using pos assms(5,6) by simp_all
  moreover have "n * 1 \<le> n * m" using pos assms(5) by (intro mult_left_mono) simp_all
  ultimately have b: "\<bar>n * m\<bar> \<le> 10 ^ 28" "\<bar>n\<bar> \<le> 10 ^ 28" using a(2) assms(5) by linarith+
  from ctx_exact [OF on_gridI [OF b(1), of e]] show "dec_mul (of_int n) step = of_int n * step"
    by (simp add: dec_mul_def m mult.assoc)
  from ctx_exact [OF on_gridI [OF b(2), of 0]] show "ctx (of_int n) = of_int n"
    by simp
qed

text \<open>Rounding to the tick stays between multiples of it, and on the side of the order.\<close>

lemma round_to_tick_between:
  assumes g: "on_grid e hi" "on_grid e tick" "0 < tick"
    and w: "hi = of_int u * tick" "0 \<le> l" "l \<le> u"
    and b: "of_int l * tick \<le> x" "x \<le> hi"
  shows "\<exists>n. round_price_to_tick x tick side = Inr (of_int n * tick) \<and> l \<le> n \<and> n \<le> u
     \<and> (of_int k * tick \<le> x \<longrightarrow> l \<le> k \<longrightarrow> k \<le> u \<longrightarrow> k \<le> n)
     \<and> (x \<le> of_int k * tick \<longrightarrow> l \<le> k \<longrightarrow> k \<le> u \<longrightarrow> n \<le> k)"
proof -
  let ?q = "ctx (x / tick)"
  let ?n = "if side = BUY then round_up ?q else round_down ?q"
  have below: "of_int j \<le> ?q" if "of_int j * tick \<le> x" "l \<le> j" "j \<le> u" for j
    using that w(2) g(3) multiples_exact(2) [OF g w(1), of j]
    by (intro dec.rnd_ge_exact) (simp_all add: pos_le_divide_eq)
  have above: "?q \<le> of_int j" if "x \<le> of_int j * tick" "l \<le> j" "j \<le> u" for j
    using that w(2) g(3) multiples_exact(2) [OF g w(1), of j]
    by (intro dec.rnd_le_exact) (simp_all add: pos_divide_le_eq)
  have lu: "of_int l \<le> ?q" "?q \<le> of_int u"
    using below [of l] above [of u] b w by simp_all
  have n: "l \<le> ?n" "?n \<le> u"
    using whole_between [OF lu w(2)] by simp_all
  have k1: "k \<le> ?n" if "of_int k * tick \<le> x" "l \<le> k" "k \<le> u"
    using whole_between [OF below [OF that] lu(2)] that(2) w(2) by simp
  have k2: "?n \<le> k" if "x \<le> of_int k * tick" "l \<le> k" "k \<le> u"
    using whole_between [OF lu(1) above [OF that] w(2)] by simp
  have "round_price_to_tick x tick side = Inr (of_int ?n * tick)"
    using g(3) multiples_exact(1) [OF g w(1), of ?n] n w(2)
    by (simp add: round_price_to_tick_def dec_div_def)
  with n k1 k2 show ?thesis by blast
qed

lemma slipped_price_side:
  assumes "0 \<le> bps" "0 \<le> r" "ctx r = r"
  shows "\<exists>q. dec_div bps 10000 = Inr q
     \<and> (side = BUY \<longrightarrow> r \<le> dec_mul r (dec_add 1 (dec_mul q (if side = BUY then 1 else - 1))))
     \<and> (side = SELL \<longrightarrow> dec_mul r (dec_add 1 (dec_mul q (if side = BUY then 1 else - 1))) \<le> r)"
proof -
  let ?q = "ctx (bps / 10000)"
  have one: "ctx 1 = 1" using ctx_exact [OF on_gridI [of 1 0]] by simp
  have q: "0 \<le> ctx (?q * d)" if "d = 1" for d using that assms(1) by simp
  have up: "1 \<le> ctx (1 + ctx (?q * 1))"
    using assms(1) by (intro dec.rnd_ge_exact one) simp
  have down: "ctx (1 + ctx (?q * - 1)) \<le> 1"
    using assms(1) by (intro dec.rnd_le_exact one) simp
  have "r \<le> ctx (r * ctx (1 + ctx (?q * 1)))"
    using mult_left_mono [OF up assms(2)] by (intro dec.rnd_ge_exact assms(3)) simp
  moreover have "ctx (r * ctx (1 + ctx (?q * - 1))) \<le> r"
    using mult_left_mono [OF down assms(2)] by (intro dec.rnd_le_exact assms(3)) simp
  ultimately show ?thesis
    by (simp add: dec_div_def dec_mul_def dec_add_def)
qed

lemma slippage_in_limits:
  assumes "on_grid e hi" "on_grid e tick" "0 < tick" "hi = of_int u * tick" "lo = of_int l * tick"
    and "r = of_int k * tick" "0 \<le> l" "l \<le> k" "k \<le> u" "0 \<le> base"
  shows "\<exists>n. apply_simple_slippage side r base model prev tick hi lo = Inr (of_int n * tick)
     \<and> l \<le> n \<and> n \<le> u \<and> (side = BUY \<longrightarrow> k \<le> n) \<and> (side = SELL \<longrightarrow> n \<le> k)"
proof -
  obtain bps where bps: "resolve_effective_slippage_bps side r prev base model = Inr bps" "0 \<le> bps"
    using resolve_slippage_nonneg [OF assms(10)] by blast
  have r: "0 \<le> r" "ctx r = r"
    using multiples_exact(1) [OF assms(1-4), of k] assms(3,6-9)
    by (simp_all, metis ctx_idem dec_mul_def)
  obtain s where s: "apply_simple_slippage side r base model prev tick hi lo
      = round_price_to_tick (min (max s lo) hi) tick side"
    "side = BUY \<longrightarrow> r \<le> s" "side = SELL \<longrightarrow> s \<le> r"
    using slipped_price_side [OF bps(2) r, of side] bps(1)
    by (cases "bps = 0") (auto simp: apply_simple_slippage_def)
  have lr: "lo \<le> r" "r \<le> hi" "lo \<le> hi"
    using assms(3-9) by (simp_all add: mult_right_mono)
  define x where "x = min (max s lo) hi"
  have x: "of_int l * tick \<le> x" "x \<le> hi"
      "side = BUY \<longrightarrow> of_int k * tick \<le> x" "side = SELL \<longrightarrow> x \<le> of_int k * tick"
    using s(2,3) lr assms(5,6) by (auto simp: x_def)
  obtain n where n: "round_price_to_tick x tick side = Inr (of_int n * tick)" "l \<le> n" "n \<le> u"
      "of_int k * tick \<le> x \<longrightarrow> l \<le> k \<longrightarrow> k \<le> u \<longrightarrow> k \<le> n"
      "x \<le> of_int k * tick \<longrightarrow> l \<le> k \<longrightarrow> k \<le> u \<longrightarrow> n \<le> k"
    using round_to_tick_between [OF assms(1-4,7) _ x(1,2), of side k] assms(8,9) by auto
  then show ?thesis
    using x(3,4) assms(8,9) s(1) by (intro exI [of _ n]) (auto simp: x_def)
qed

text \<open>
  C24.  Slippage.  In a market whose limits are multiples of the price tick the execution price of the
  backtest always exists, is a multiple of the tick within the daily limits, and is never
  better for the order than a reference price on the tick grid inside the limits.
\<close>

theorem slippage_within_limits:
  assumes "on_grid e hi" "on_grid e tick" "0 < tick" "hi = of_int u * tick" "lo = of_int l * tick"
    and "r = of_int k * tick" "0 \<le> l" "l \<le> k" "k \<le> u" "0 \<le> base"
  shows "\<exists>n. apply_simple_slippage side r base model prev tick hi lo = Inr (of_int n * tick)
     \<and> l \<le> n \<and> n \<le> u \<and> (side = BUY \<longrightarrow> k \<le> n) \<and> (side = SELL \<longrightarrow> n \<le> k)"
  by (rule slippage_in_limits) (rule assms)+

theorem slippage_within_limits_witness:
  "\<exists>n. apply_simple_slippage SELL (3600 / 100) 20 directional_tiered_slippage_model (3947 / 100) (1 / 100)
         (4342 / 100) (3552 / 100) = Inr (of_int n * (1 / 100)) \<and> 3552 \<le> n \<and> n \<le> 3600"
proof -
  have g: "on_grid (- 2) (4342 / 100)" "on_grid (- 2) (1 / 100)"
    by code_simp+
  show ?thesis
    using slippage_within_limits [OF g, of 4342 "3552 / 100" 3552 "3600 / 100" 3600 20 SELL
        directional_tiered_slippage_model "3947 / 100"]
    by auto
qed

section \<open>Holding times\<close>

text \<open>bisect_right: the insertion point of a value in a sorted list, to the right of equal ones.\<close>

function bisect_right_between :: "int list \<Rightarrow> int \<Rightarrow> nat \<Rightarrow> nat \<Rightarrow> nat" where
  "bisect_right_between xs x lo hi =
     (if hi \<le> lo then lo
      else let mid = (lo + hi) div 2
           in if x < xs ! mid then bisect_right_between xs x lo mid
              else bisect_right_between xs x (mid + 1) hi)"
  by auto
termination by (relation "measure (\<lambda>(xs, x, lo, hi). hi - lo)") auto

declare bisect_right_between.simps [simp del]

definition bisect_right :: "int list \<Rightarrow> int \<Rightarrow> nat" where
  "bisect_right xs x = bisect_right_between xs x 0 (length xs)"

text \<open>The index of the bar a fill belongs to: the first point of its time, or the last one before.\<close>

definition fill_bar_index :: "datetime list \<Rightarrow> datetime \<Rightarrow> nat option" where
  "fill_bar_index bar_times t =
     (case find (\<lambda>i. bar_times ! i = t) [0..<length bar_times] of
        Some i \<Rightarrow> Some i
      | None \<Rightarrow> (if 0 < bisect_right bar_times t then Some (bisect_right bar_times t - 1) else None))"

record open_lot =
  lot_qty :: rat
  lot_entry :: nat

text \<open>
  The loop that consumes a sale from the oldest lots: the lots left, the weighted bars and the
  closed quantity.  Every round takes a lot off the queue or ends the sale.
\<close>

fun consume_lots :: "nat \<Rightarrow> rat \<Rightarrow> open_lot list \<Rightarrow> rat \<Rightarrow> rat \<Rightarrow> open_lot list \<times> rat \<times> rat" where
  "consume_lots bar remaining [] weighted done_qty = ([], weighted, done_qty)"
| "consume_lots bar remaining (lot # lots) weighted done_qty =
     (if remaining \<le> 0 then (lot # lots, weighted, done_qty)
      else let matched = min (lot_qty lot) remaining;
               weighted = dec_add weighted (dec_mul (of_nat (bar - lot_entry lot)) matched);
               done_qty = dec_add done_qty matched;
               remaining = dec_sub remaining matched
           in if matched = lot_qty lot then consume_lots bar remaining lots weighted done_qty
              else (lot\<lparr>lot_qty := dec_sub (lot_qty lot) matched\<rparr> # lots, weighted, done_qty))"

type_synonym holding_state = "(string \<times> open_lot list) list \<times> rat \<times> rat"

definition lots_of :: "(string \<times> open_lot list) list \<Rightarrow> string \<Rightarrow> open_lot list" where
  "lots_of queues symbol = (case map_of queues symbol of None \<Rightarrow> [] | Some q \<Rightarrow> q)"

definition holding_step :: "datetime list \<Rightarrow> holding_state \<Rightarrow> fill_event \<Rightarrow> holding_state" where
  "holding_step bar_times s fe =
     (case s of (queues, weighted, done_qty) \<Rightarrow>
        case fill_bar_index bar_times (fe_event_time fe) of
          None \<Rightarrow> s
        | Some bar \<Rightarrow>
            let q = lots_of queues (fe_symbol fe); f = fe_fill fe
            in if fill_side f = BUY
               then (AList.update (fe_symbol fe) (q @ [\<lparr>lot_qty = fill_qty f, lot_entry = bar\<rparr>]) queues,
                     weighted, done_qty)
               else (case consume_lots bar (fill_qty f) q weighted done_qty of
                       (q', weighted', done_qty') \<Rightarrow> (AList.update (fe_symbol fe) q' queues, weighted', done_qty')))"

definition compute_average_holding_bars :: "fill_event list \<Rightarrow> equity_point list \<Rightarrow> rat option res" where
  "compute_average_holding_bars fill_events equity_curve =
     (if fill_events = [] \<or> equity_curve = [] then Inr None
      else case foldl (holding_step (map ep_event_time equity_curve)) ([], 0, 0) fill_events of
             (queues, weighted, done_qty) \<Rightarrow>
               if done_qty = 0 then Inr None
               else res_bind (dec_div weighted done_qty) (\<lambda>q. res_map Some (quantize_ratio q)))"

section \<open>Averages and ratios\<close>

definition compute_average :: "rat list \<Rightarrow> rat option res" where
  "compute_average values =
     (if values = [] then Inr None
      else res_bind (dec_div (dec_sum values) (of_nat (length values))) (\<lambda>q. res_map Some (quantize_ratio q)))"

definition compute_profit_factor :: "rat list \<Rightarrow> rat option res" where
  "compute_profit_factor outcomes =
     (if outcomes = [] then Inr None
      else let gross_profit = dec_sum (filter (\<lambda>x. 0 < x) outcomes);
               gross_loss = dec_neg (dec_sum (filter (\<lambda>x. x < 0) outcomes))
           in if gross_loss = 0
              then (if gross_profit = 0 then res_map Some (quantize_ratio 0) else Inr None)
              else res_bind (dec_div gross_profit gross_loss) (\<lambda>q. res_map Some (quantize_ratio q)))"

definition compute_return_to_drawdown_ratio :: "rat \<Rightarrow> rat \<Rightarrow> rat option res" where
  "compute_return_to_drawdown_ratio total_return_pct max_drawdown_pct =
     (if max_drawdown_pct \<le> 0 then Inr None
      else res_bind (dec_div total_return_pct max_drawdown_pct) (\<lambda>q. res_map Some (quantize_ratio q)))"

text \<open>The returns from bar to bar, skipping a bar that starts from no equity.\<close>

fun bar_returns :: "rat \<Rightarrow> equity_point list \<Rightarrow> rat list res" where
  "bar_returns previous_equity [] = Inr []"
| "bar_returns previous_equity (p # ps) =
     res_bind (if 0 < previous_equity
               then res_map (\<lambda>r. [r]) (dec_div (dec_sub (ep_equity p) previous_equity) previous_equity)
               else Inr []) (\<lambda>r.
     res_map (\<lambda>rs. r @ rs) (bar_returns (ep_equity p) ps))"

definition compute_sharpe_ratio :: "equity_point list \<Rightarrow> rat option res" where
  "compute_sharpe_ratio equity_curve =
     (if length equity_curve < 3 then Inr None
      else res_bind (bar_returns (ep_equity (hd equity_curve)) (tl equity_curve)) (\<lambda>returns.
        if length returns < 2 then Inr None
        else let sample_size = of_nat (length returns)
             in res_bind (dec_div (dec_sum returns) sample_size) (\<lambda>mean_return.
                res_bind (dec_div (dec_sum (map (\<lambda>r. ctx ((dec_sub r mean_return) ^ 2)) returns))
                            (of_nat (length returns - 1))) (\<lambda>variance.
                if variance \<le> 0 then Inr None
                else let volatility = dec_sqrt variance
                     in if volatility = 0 then Inr None
                        else res_bind (dec_div mean_return volatility) (\<lambda>q.
                             res_map Some (quantize_ratio (dec_mul q (dec_sqrt sample_size))))))))"

section \<open>The performance summary\<close>

record performance =
  pf_bar_count :: nat
  pf_signal_count :: nat
  pf_order_count :: nat
  pf_trade_count :: nat
  pf_fill_count :: nat
  pf_winning_trade_count :: nat
  pf_losing_trade_count :: nat
  pf_starting_cash :: rat
  pf_ending_cash :: rat
  pf_ending_market_value :: rat
  pf_starting_equity :: rat
  pf_ending_equity :: rat
  pf_net_pnl :: rat
  pf_total_return_pct :: rat
  pf_max_drawdown_pct :: rat
  pf_realized_pnl :: rat
  pf_unrealized_pnl :: rat
  pf_turnover :: rat
  pf_win_rate_pct :: "rat option"
  pf_sharpe_ratio :: "rat option"
  pf_return_to_drawdown_ratio :: "rat option"
  pf_profit_factor :: "rat option"
  pf_avg_trade_pnl :: "rat option"
  pf_avg_winning_trade_pnl :: "rat option"
  pf_avg_losing_trade_pnl :: "rat option"
  pf_avg_holding_bars :: "rat option"

definition performance_rules :: "performance \<Rightarrow> (bool \<times> fault) list" where
  "performance_rules p =
     [(\<not> 0 \<le> pf_starting_cash p, ValidationError ''starting_cash''),
      (\<not> 0 \<le> pf_ending_cash p, ValidationError ''ending_cash''),
      (\<not> 0 \<le> pf_ending_market_value p, ValidationError ''ending_market_value''),
      (\<not> 0 \<le> pf_starting_equity p, ValidationError ''starting_equity''),
      (\<not> 0 \<le> pf_ending_equity p, ValidationError ''ending_equity''),
      (\<not> 0 \<le> pf_max_drawdown_pct p, ValidationError ''max_drawdown_pct''),
      (\<not> 0 \<le> pf_turnover p, ValidationError ''turnover''),
      (case pf_win_rate_pct p of None \<Rightarrow> False | Some w \<Rightarrow> \<not> 0 \<le> w, ValidationError ''win_rate_pct'')]"

definition max_drawdown :: "equity_point list \<Rightarrow> rat" where
  "max_drawdown curve =
     (case map ep_drawdown_pct curve of [] \<Rightarrow> 0 | d # ds \<Rightarrow> foldl max d ds)"

definition build_performance_summary ::
  "rat \<Rightarrow> nat \<Rightarrow> nat \<Rightarrow> fill_event list \<Rightarrow> nat \<Rightarrow> rat list \<Rightarrow> equity_point list \<Rightarrow> performance res" where
  "build_performance_summary initial_cash signal_count order_count fill_events executed_order_count
     outcomes equity_curve =
     (let last_point = last equity_curve;
          wins = filter (\<lambda>x. 0 < x) outcomes; losses = filter (\<lambda>x. x < 0) outcomes;
          turnover = dec_sum (map (fill_notional \<circ> fe_fill) fill_events);
          drawdown = max_drawdown equity_curve
      in res_bind (if 0 < initial_cash then dec_div (dec_sub (ep_equity last_point) initial_cash) initial_cash
                   else Inr 0) (\<lambda>return_ratio.
         res_bind (to_pct return_ratio) (\<lambda>return_pct.
         res_bind (if outcomes = [] then Inr None
                   else res_bind (dec_div (of_nat (length wins)) (of_nat (length outcomes))) (\<lambda>q.
                        res_map Some (to_pct q))) (\<lambda>win_rate.
         res_bind (compute_sharpe_ratio equity_curve) (\<lambda>sharpe.
         res_bind (compute_return_to_drawdown_ratio return_pct drawdown) (\<lambda>return_to_drawdown.
         res_bind (compute_profit_factor outcomes) (\<lambda>profit_factor.
         res_bind (compute_average outcomes) (\<lambda>avg_trade.
         res_bind (compute_average wins) (\<lambda>avg_win.
         res_bind (compute_average losses) (\<lambda>avg_loss.
         res_bind (compute_average_holding_bars fill_events equity_curve) (\<lambda>avg_holding.
         let p = \<lparr>pf_bar_count = length equity_curve, pf_signal_count = signal_count,
                  pf_order_count = order_count, pf_trade_count = executed_order_count,
                  pf_fill_count = length fill_events, pf_winning_trade_count = length wins,
                  pf_losing_trade_count = length losses, pf_starting_cash = initial_cash,
                  pf_ending_cash = ep_cash last_point, pf_ending_market_value = ep_market_value last_point,
                  pf_starting_equity = initial_cash, pf_ending_equity = ep_equity last_point,
                  pf_net_pnl = dec_sub (ep_equity last_point) initial_cash,
                  pf_total_return_pct = return_pct, pf_max_drawdown_pct = drawdown,
                  pf_realized_pnl = ep_realized_pnl last_point,
                  pf_unrealized_pnl = ep_unrealized_pnl last_point, pf_turnover = turnover,
                  pf_win_rate_pct = win_rate, pf_sharpe_ratio = sharpe,
                  pf_return_to_drawdown_ratio = return_to_drawdown, pf_profit_factor = profit_factor,
                  pf_avg_trade_pnl = avg_trade, pf_avg_winning_trade_pnl = avg_win,
                  pf_avg_losing_trade_pnl = avg_loss, pf_avg_holding_bars = avg_holding\<rparr>
         in res_map (\<lambda>_. p) (checks (performance_rules p)))))))))))))"

section \<open>The equity curve\<close>

lemma to_pct_unit:
  assumes "0 \<le> x" "x \<le> 1"
  shows "\<exists>q. to_pct x = Inr q \<and> 0 \<le> q \<and> q \<le> 100 \<and> (x = 0 \<longrightarrow> q = 0)"
proof -
  have c100: "ctx 100 = 100" using ctx_exact [OF on_gridI [of 100 0]] by simp
  let ?y = "ctx (x * 100) * pow10 4"
  have p: "pow10 4 = 10000" "pow10 (- 4) = 1 / 10000" by (simp_all add: pow10_def)
  have y: "of_int 0 \<le> ?y" "?y \<le> of_int 1000000"
    using dec.rnd_le_exact [OF c100, of "x * 100"] assms by (simp_all add: p)
  have c: "0 \<le> round_half_even ?y" "round_half_even ?y \<le> 1000000"
    using round_half_even_mono [OF y(1)] round_half_even_mono [OF y(2)] by (simp_all only: round_half_even_of_int)
  moreover have "round_half_even 0 = 0"
    using round_half_even_of_int [of 0] by simp
  moreover obtain n where n: "round_half_even ?y = n" by blast
  ultimately have "0 \<le> n" "n \<le> 1000000" "x = 0 \<longrightarrow> n = 0" by auto
  then have "(of_int 0 :: rat) \<le> of_int n" "(of_int n :: rat) \<le> of_int 1000000" "x = 0 \<longrightarrow> n = 0"
    by (simp_all only: of_int_le_iff)
  moreover have "to_pct x = Inr (of_int n * (1 / 10000))"
    using \<open>0 \<le> n\<close> \<open>n \<le> 1000000\<close> n by (simp add: to_pct_def quantize_with_def dec_mul_def p)
  ultimately show ?thesis by (intro exI [of _ "of_int n * (1 / 10000)"]) simp
qed

lemma dec_sum_nonneg: "\<forall>x \<in> set xs. 0 \<le> x \<Longrightarrow> 0 \<le> dec_sum xs"
proof -
  assume "\<forall>x \<in> set xs. 0 \<le> x"
  then have "0 \<le> a \<Longrightarrow> 0 \<le> foldl dec_add a xs" for a
    by (induction xs arbitrary: a) (simp_all add: dec_add_def)
  then show ?thesis by (simp add: dec_sum_def)
qed

definition book_ok :: "book \<Rightarrow> bool" where
  "book_ok positions \<longleftrightarrow> (\<forall>(s, p) \<in> set positions. position_ok p)"

lemma reference_price_nonneg: "position_ok p \<Longrightarrow> 0 \<le> reference_price p"
  using position_okD(4,5) [of p]
  by (auto simp: reference_price_def split: option.split)

lemma market_value_nonneg: "book_ok positions \<Longrightarrow> 0 \<le> market_value positions"
  unfolding market_value_def
  by (rule dec_sum_nonneg)
    (auto simp: book_ok_def open_positions_def dec_mul_def dest!: bspec
      intro!: mult_nonneg_nonneg reference_price_nonneg position_okD(1))

lemma equity_point_total:
  assumes "balance_ok balance" "book_ok positions" "0 \<le> peak" "ctx peak = peak" "trim key \<noteq> []"
  shows "\<exists>p. build_equity_point key t balance positions peak = Inr (p, max peak (ep_equity p))
     \<and> ep_bar_key p = trim key \<and> ep_event_time p = t \<and> ep_cash p = bal_total balance
     \<and> ep_market_value p = market_value positions \<and> 0 \<le> ep_market_value p
     \<and> ep_equity p = dec_add (ep_cash p) (ep_market_value p)
     \<and> 0 \<le> ep_drawdown_pct p \<and> ep_drawdown_pct p \<le> 100 \<and> (peak \<le> ep_equity p \<longrightarrow> ep_drawdown_pct p = 0)"
proof -
  let ?e = "dec_add (bal_total balance) (market_value positions)"
  let ?m = "max peak ?e"
  let ?r = "if 0 < ?m then ctx (dec_sub ?m ?e / ?m) else 0"
  have e: "0 \<le> ?e"
    using balance_okD(1) [OF assms(1)] market_value_nonneg [OF assms(2)] by (simp add: dec_add_def)
  have m: "ctx ?m = ?m" "?e \<le> ?m"
    using assms(4) by (simp_all add: max_def dec_add_def)
  have d: "0 \<le> dec_sub ?m ?e" "dec_sub ?m ?e \<le> ?m"
    using dec.rnd_sub_le [OF m(1) e] m(2) by (simp_all add: dec_sub_def)
  have one: "ctx 1 = 1" using ctx_exact [OF on_gridI [of 1 0]] by simp
  have r: "0 \<le> ?r" "?r \<le> 1"
    using d dec.rnd_le_exact [OF one, of "dec_sub ?m ?e / ?m"] by (simp_all add: pos_divide_le_eq)
  have z: "?r = 0" if "peak \<le> ?e"
    using that by (simp add: max_def dec_sub_def)
  obtain q where q: "to_pct ?r = Inr q" "0 \<le> q" "q \<le> 100" "?r = 0 \<longrightarrow> q = 0"
    using to_pct_unit [OF r] by blast
  show ?thesis
    using q z e balance_okD(1) [OF assms(1)] market_value_nonneg [OF assms(2)] assms(5)
    by (auto simp: build_equity_point_def Let_def dec_div_def make_equity_point_def)
qed

text \<open>
  C25.  The equity curve.  Over valid books the equity point of a bar can always be built: its equity is
  the cash and the value of the open positions, the peak never falls, and the drawdown is between 0
  and 100 percent, and zero at a new peak.
\<close>

theorem equity_point_built:
  assumes "balance_ok balance" "book_ok positions" "0 \<le> peak" "ctx peak = peak" "trim key \<noteq> []"
  shows "\<exists>p. build_equity_point key t balance positions peak = Inr (p, max peak (ep_equity p))
     \<and> ep_bar_key p = trim key \<and> ep_event_time p = t \<and> ep_cash p = bal_total balance
     \<and> ep_market_value p = market_value positions \<and> 0 \<le> ep_market_value p
     \<and> ep_equity p = dec_add (ep_cash p) (ep_market_value p)
     \<and> 0 \<le> ep_drawdown_pct p \<and> ep_drawdown_pct p \<le> 100 \<and> (peak \<le> ep_equity p \<longrightarrow> ep_drawdown_pct p = 0)"
  by (rule equity_point_total [OF assms])

theorem equity_point_built_witness:
  "\<exists>p. build_equity_point ''cn_equity:600036.SH:15m'' sample_time (sample_balance 1000)
         [(''600036.SH'', sample_position 100 50)] 6000 = Inr (p, max 6000 (ep_equity p))
     \<and> ep_equity p = dec_add 1000 (ep_market_value p) \<and> ep_drawdown_pct p \<le> 100"
proof -
  have "balance_ok (sample_balance 1000)" "book_ok [(''600036.SH'', sample_position 100 50)]" "ctx 6000 = 6000"
      "trim ''cn_equity:600036.SH:15m'' \<noteq> []"
    unfolding book_ok_def by code_simp+
  from equity_point_built [OF this(1,2) _ this(3,4), of sample_time] show ?thesis
    by (auto simp: sample_balance_def)
qed

end
