(* ===== verification/Backtest.thy ===== *)
theory Backtest
  imports Backtest_Metrics Strategy_Audit Order_Flow "HOL-Library.List_Lexorder" "HOL-Library.Char_ord" "HOL-Library.Sublist"
begin

text \<open>
  The backtest service of src/src/services/backtest/service.py with the records of its models.py: one
  replay of bars through the strategy, the sizing, the paper venue and the ledger that the trader
  uses.  The strategy is a parameter with a state of its own; so are uuid5, the identifiers of
  new rows, the texts of decimals and the hash that fingerprints a run.
\<close>

section \<open>The strategy port\<close>

record non_signal_decision =
  nd_audit :: decision_audit
  nd_skip_reason :: string

record backtest_payload =
  bp_strategy_id :: "string option"
  bp_description :: "string option"
  bp_parameters :: "(string \<times> string) list"

text \<open>
  What the service uses of a strategy: its class name, its _strategy_id when that is a text, on_bar,
  and the optional methods backtest_metadata, build_decision_audit and build_non_signal_decision.
\<close>

record 's strategy =
  st_type_name :: string
  st_strategy_id :: "string option"
  st_metadata :: "backtest_payload option"
  st_on_bar :: "'s \<Rightarrow> bar_event \<Rightarrow> uuid \<Rightarrow> datetime \<Rightarrow> (signal option \<times> 's) res"
  st_decision_audit :: "('s \<Rightarrow> bar_event \<Rightarrow> signal \<Rightarrow> decision_audit res) option"
  st_non_signal :: "('s \<Rightarrow> bar_event \<Rightarrow> non_signal_decision option res) option"

definition resolve_strategy_id :: "'s strategy \<Rightarrow> signal option \<Rightarrow> string" where
  "resolve_strategy_id strategy s =
     (case s of
        Some s \<Rightarrow> sig_strategy s
      | None \<Rightarrow>
          (case st_strategy_id strategy of
             Some i \<Rightarrow> (if py_strip i \<noteq> [] then i else st_type_name strategy)
           | None \<Rightarrow> st_type_name strategy))"

definition phase_value :: "trading_phase \<Rightarrow> string" where
  "phase_value p = (case p of PRE_OPEN \<Rightarrow> ''PRE_OPEN'' | CONTINUOUS_AUCTION \<Rightarrow> ''CONTINUOUS_AUCTION''
     | MIDDAY_BREAK \<Rightarrow> ''MIDDAY_BREAK'' | PHASE_CLOSED \<Rightarrow> ''CLOSED'' | PHASE_UNKNOWN \<Rightarrow> ''UNKNOWN'')"

definition source_kind_value :: "bar_source_kind \<Rightarrow> string" where
  "source_kind_value k = (case k of Historical \<Rightarrow> ''historical'' | Realtime \<Rightarrow> ''realtime'')"

definition default_strategy_input_snapshot :: "(rat \<Rightarrow> string) \<Rightarrow> bar_event \<Rightarrow> input_snapshot" where
  "default_strategy_input_snapshot dec_str e =
     (let m = be_market_state e in
      [(''bar_key'', Some (be_bar_key e)),
       (''source_kind'', map_option source_kind_value (be_source_kind e)),
       (''bar_start_time'', Some (isoformat (be_start e))),
       (''bar_end_time'', Some (isoformat (be_end e))),
       (''close'', Some (dec_str (be_close e))),
       (''trade_date'', map_option (date_isoformat \<circ> ms_trade_date) m),
       (''trading_phase'', map_option (phase_value \<circ> ms_phase) m),
       (''previous_close'', map_option (dec_str \<circ> ms_previous_close) m)])"

definition signal_type_value :: "signal_type \<Rightarrow> string" where
  "signal_type_value t = (case t of ENTRY \<Rightarrow> ''ENTRY'' | EXIT \<Rightarrow> ''EXIT'' | REDUCE \<Rightarrow> ''REDUCE''
     | REBALANCE \<Rightarrow> ''REBALANCE'')"

definition default_signal_snapshot :: "(rat \<Rightarrow> string) \<Rightarrow> signal \<Rightarrow> signal_snapshot" where
  "default_signal_snapshot dec_str s =
     [(''signal_id'', uuid_str (sig_id s)), (''signal_type'', signal_type_value (sig_type s)),
      (''target_position'', dec_str (sig_target s)), (''event_time'', isoformat (sig_event_time s)),
      (''created_at'', isoformat (sig_created_at s))]"

record strategy_audit =
  sa_input_snapshot :: input_snapshot
  sa_signal_snapshot :: "signal_snapshot option"
  sa_reason_summary :: "string option"
  sa_skip_reason :: "string option"
  sa_audit_summary :: json_object

definition audit_of ::
  "(rat \<Rightarrow> string) \<Rightarrow> string \<Rightarrow> decision_audit \<Rightarrow> string option \<Rightarrow> string \<Rightarrow> confidence option \<Rightarrow> strategy_audit"
where
  "audit_of dec_str strategy_id a skip_reason fallback_decision confidence =
     \<lparr>sa_input_snapshot = da_input_snapshot a, sa_signal_snapshot = Some (da_signal_snapshot a),
      sa_reason_summary = Some (da_reason_summary a), sa_skip_reason = skip_reason,
      sa_audit_summary = serialize_audit_summary False
        (case da_summary a of Some s \<Rightarrow> s
         | None \<Rightarrow> infer_audit_summary dec_str strategy_id (da_input_snapshot a)
             (Some (da_signal_snapshot a)) (Some (da_reason_summary a)) fallback_decision confidence)\<rparr>"

definition default_audit ::
  "(rat \<Rightarrow> string) \<Rightarrow> string \<Rightarrow> bar_event \<Rightarrow> signal option \<Rightarrow> strategy_audit" where
  "default_audit dec_str strategy_id e s =
     (let input = default_strategy_input_snapshot dec_str e;
          snapshot = map_option (default_signal_snapshot dec_str) s;
          reason = (case s of None \<Rightarrow> None | Some s \<Rightarrow> sig_reason s)
      in \<lparr>sa_input_snapshot = input, sa_signal_snapshot = snapshot, sa_reason_summary = reason,
          sa_skip_reason = None,
          sa_audit_summary = serialize_audit_summary False
            (infer_audit_summary dec_str strategy_id input snapshot reason
               (case s of None \<Rightarrow> ''hold'' | Some s \<Rightarrow> signal_type_value (sig_type s))
               (case s of None \<Rightarrow> None | Some s \<Rightarrow> map_option Confidence_Decimal (sig_confidence s)))\<rparr>)"

definition resolve_strategy_audit ::
  "(rat \<Rightarrow> string) \<Rightarrow> 's strategy \<Rightarrow> 's \<Rightarrow> bar_event \<Rightarrow> signal option \<Rightarrow> strategy_audit res" where
  "resolve_strategy_audit dec_str strategy st e s =
     (let strategy_id = resolve_strategy_id strategy s in
      case s of
        None \<Rightarrow>
          (case st_non_signal strategy of
             None \<Rightarrow> Inr (default_audit dec_str strategy_id e None)
           | Some build \<Rightarrow> res_map (\<lambda>d.
               case d of
                 None \<Rightarrow> default_audit dec_str strategy_id e None
               | Some d \<Rightarrow> audit_of dec_str strategy_id (nd_audit d) (Some (nd_skip_reason d)) ''hold'' None)
               (build st e))
      | Some sg \<Rightarrow>
          (case st_decision_audit strategy of
             None \<Rightarrow> Inr (default_audit dec_str strategy_id e s)
           | Some build \<Rightarrow> res_map (\<lambda>a.
               audit_of dec_str strategy_id a None (signal_type_value (sig_type sg))
                 (map_option Confidence_Decimal (sig_confidence sg)))
               (build st e sg)))"

section \<open>The service and its manifest\<close>

record backtest_env =
  bk_u5 :: "string \<Rightarrow> uuid"
  bk_fresh :: "nat \<Rightarrow> uuid"
  bk_dec_str :: "rat \<Rightarrow> string"

record backtest_service =
  bs_account :: string
  bs_symbol_rules :: "(string \<times> symbol_rule) list"
  bs_cost_model :: cost_model
  bs_initial_cash :: rat
  bs_slippage_bps :: rat
  bs_slippage_model :: string

definition supported_slippage_models :: "string list" where
  "supported_slippage_models = [fixed_bps_slippage_model, directional_tiered_slippage_model]"

text \<open>The dict of symbol rules: a later entry replaces an earlier one of the same symbol.\<close>

definition make_backtest_service :: "backtest_service \<Rightarrow> backtest_service res" where
  "make_backtest_service s =
     res_map (\<lambda>_. s\<lparr>bs_symbol_rules :=
         foldl (\<lambda>d (symbol, rule). AList.update (normalize_symbol symbol) rule d) [] (bs_symbol_rules s)\<rparr>)
       (checks
         [(bs_initial_cash s \<le> 0, ValueError ''initial_cash must be positive''),
          (bs_slippage_bps s < 0, ValueError ''slippage_bps cannot be negative''),
          (bs_slippage_model s \<notin> set supported_slippage_models, ValueError ''Unsupported slippage_model'')])"

record dataset_metadata =
  ds_exchange :: string
  ds_symbols :: "string list"
  ds_timeframe :: string
  ds_bar_count :: nat
  ds_start_time :: datetime
  ds_end_time :: datetime
  ds_source_kinds :: "string list"
  ds_data_fingerprint :: string

definition sorted_distinct :: "string list \<Rightarrow> string list" where
  "sorted_distinct xs = sort (remdups xs)"

fun dataset_guards :: "bar_event \<Rightarrow> bar_event list \<Rightarrow> (bool \<times> fault) list" where
  "dataset_guards b [] = []"
| "dataset_guards b (c # cs) =
     (be_exchange c \<noteq> be_exchange b, ValueError ''BacktestService only supports a single exchange per run'')
     # (be_timeframe c \<noteq> be_timeframe b, ValueError ''BacktestService only supports a single timeframe per run'')
     # dataset_guards b cs"

text \<open>The hash of the serialised bars is the parameter fingerprint.\<close>

definition build_dataset_metadata :: "(bar_event list \<Rightarrow> string) \<Rightarrow> bar_event list \<Rightarrow> dataset_metadata res" where
  "build_dataset_metadata fingerprint bars =
     res_map (\<lambda>_. \<lparr>ds_exchange = be_exchange (hd bars),
         ds_symbols = sorted_distinct (map be_symbol bars),
         ds_timeframe = be_timeframe (hd bars), ds_bar_count = length bars,
         ds_start_time = be_start (hd bars), ds_end_time = be_end (last bars),
         ds_source_kinds = sorted_distinct (List.map_filter (map_option source_kind_value \<circ> be_source_kind) bars),
         ds_data_fingerprint = fingerprint bars\<rparr>)
       (checks (dataset_guards (hd bars) (tl bars)))"

record strategy_metadata =
  sm_strategy_id :: string
  sm_handler_name :: string
  sm_description :: "string option"
  sm_parameters :: "(string \<times> string) list"

definition resolve_strategy_metadata :: "'s strategy \<Rightarrow> strategy_metadata" where
  "resolve_strategy_metadata strategy =
     (let own_id = (case st_strategy_id strategy of None \<Rightarrow> st_type_name strategy | Some i \<Rightarrow> i)
      in case st_metadata strategy of
           None \<Rightarrow> \<lparr>sm_strategy_id = own_id, sm_handler_name = st_type_name strategy,
                     sm_description = None, sm_parameters = []\<rparr>
         | Some p \<Rightarrow>
             \<lparr>sm_strategy_id = (case bp_strategy_id p of None \<Rightarrow> own_id | Some i \<Rightarrow> i),
              sm_handler_name = st_type_name strategy, sm_description = bp_description p,
              sm_parameters = bp_parameters p\<rparr>)"

record cost_assumptions =
  ca_cost_model :: cost_model
  ca_slippage_bps :: rat
  ca_slippage_model :: string
  ca_execution_constraints :: "string list"

definition build_execution_constraints :: "string \<Rightarrow> string list" where
  "build_execution_constraints slippage_model =
     [if slippage_model = fixed_bps_slippage_model
      then ''Slippage uses fixed bar-close bps against the decision price.''
      else ''Slippage uses directional close tiers against previous_close and decision_price.'',
      ''Backtest still assumes full fills once an order is accepted; ''
        @ ''partial fills and fill failures are not simulated.'',
      ''There is no resting order-book queue, intrabar path reconstruction, ''
        @ ''or latency competition in current backtest execution.'']"

record run_manifest =
  rm_run_id :: uuid
  rm_account :: string
  rm_initial_cash :: rat
  rm_strategy :: strategy_metadata
  rm_dataset :: dataset_metadata
  rm_cost_assumptions :: cost_assumptions
  rm_symbol_rules :: "(string \<times> symbol_rule) list"
  rm_fingerprint :: string

text \<open>The hash of the serialised core of the manifest is the parameter digest.\<close>

definition build_manifest ::
  "backtest_env \<Rightarrow> (string \<Rightarrow> rat \<Rightarrow> strategy_metadata \<Rightarrow> dataset_metadata \<Rightarrow> cost_assumptions
      \<Rightarrow> (string \<times> symbol_rule) list \<Rightarrow> string)
     \<Rightarrow> backtest_service \<Rightarrow> dataset_metadata \<Rightarrow> strategy_metadata \<Rightarrow> cost_assumptions \<Rightarrow> run_manifest" where
  "build_manifest env digest s ds sm ca =
     (let rules = List.map_filter (\<lambda>symbol. map_option (Pair symbol) (map_of (bs_symbol_rules s) symbol))
                    (ds_symbols ds);
          fp = digest (bs_account s) (bs_initial_cash s) sm ds ca rules
      in \<lparr>rm_run_id = bk_u5 env (''signalark:backtest:'' @ fp), rm_account = bs_account s,
          rm_initial_cash = bs_initial_cash s, rm_strategy = sm, rm_dataset = ds,
          rm_cost_assumptions = ca, rm_symbol_rules = rules, rm_fingerprint = fp\<rparr>)"

definition resolve_received_at :: "bar_event \<Rightarrow> datetime" where
  "resolve_received_at e = max (be_event_time e) (be_ingest e)"

section \<open>The scenario of an order\<close>

definition build_scenario :: "backtest_service \<Rightarrow> order \<Rightarrow> order_intent \<Rightarrow> scenario res" where
  "build_scenario s r i =
     (case map_of (bs_symbol_rules s) (ord_symbol r) of
        None \<Rightarrow> Inl (ValueError ''Missing symbol rule for backtest symbol'')
      | Some rule \<Rightarrow>
          (case (if ord_type r = LIMIT then ord_price r else int_decision_price i) of
             None \<Rightarrow> Inl (ValueError ''Backtest paper scenario requires a reference price'')
           | Some reference \<Rightarrow>
               (case int_market_context i of
                  None \<Rightarrow> Inl (ValueError ''Backtest paper scenario requires market_state'')
                | Some m \<Rightarrow> res_map (\<lambda>price.
                    \<lparr>scn_slices = [\<lparr>slice_qty = ord_qty r, slice_price = Some price, slice_liquidity = TAKER\<rparr>],
                     scn_cancel_remaining = False, scn_reject_code = None, scn_reject_message = None\<rparr>)
                    (apply_simple_slippage (ord_side r) reference (bs_slippage_bps s) (bs_slippage_model s)
                       (ms_previous_close m) (rule_price_tick rule) (ms_upper_limit m) (ms_lower_limit m)))))"

text \<open>submit_order of the paper adapter with build_scenario as its resolver, which may raise.\<close>

definition submit_with_scenario ::
  "backtest_env \<Rightarrow> backtest_service \<Rightarrow> datetime \<Rightarrow> order \<Rightarrow> order_intent \<Rightarrow> execution_report res" where
  "submit_with_scenario env s base r i =
     res_bind (validate_order_pair r i) (\<lambda>_.
     res_bind (validate_a_share_contract (bk_u5 env) r i base) (\<lambda>rejected.
       case rejected of
         Some rep \<Rightarrow> Inr rep
       | None \<Rightarrow> res_bind (build_scenario s r i) (\<lambda>scn.
           build_execution_report (bk_u5 env) (bs_cost_model s) r i scn base)))"

section \<open>The run\<close>

record decision_record =
  dr_bar_key :: string
  dr_exchange :: string
  dr_symbol :: string
  dr_timeframe :: string
  dr_event_time :: datetime
  dr_audit :: strategy_audit
  dr_signal :: "signal option"
  dr_order_plan :: "order_plan option"
  dr_order_intent :: "order_intent option"
  dr_order :: "order option"
  dr_fill_count :: nat
  dr_skip_reason :: "string option"

text \<open>The state of the loop over the bars; rn_next counts the identifiers drawn.\<close>

record 's run_state =
  rn_strategy :: 's
  rn_next :: nat
  rn_balance :: balance_snapshot
  rn_positions :: book
  rn_decisions :: "decision_record list"
  rn_signals :: "signal list"
  rn_intents :: "order_intent list"
  rn_orders :: "order list"
  rn_fills :: "fill_event list"
  rn_seen :: "string list"
  rn_executed :: "uuid list"
  rn_outcomes :: "rat list"
  rn_curve :: "equity_point list"
  rn_peak :: rat
  rn_previous :: "datetime option"

definition release_symbol :: "bar_event \<Rightarrow> book \<Rightarrow> book" where
  "release_symbol e positions =
     (case (map_of positions (be_symbol e), be_market_state e) of
        (Some p, Some m) \<Rightarrow> AList.update (be_symbol e)
          (rel_position (release_position_sellable_qty p (ms_trade_date m) (be_event_time e))) positions
      | _ \<Rightarrow> positions)"

definition mark_symbol :: "string \<Rightarrow> bar_event \<Rightarrow> book \<Rightarrow> book" where
  "mark_symbol symbol e positions =
     (case map_of positions symbol of
        None \<Rightarrow> positions
      | Some p \<Rightarrow> (if 0 < pos_qty p
                   then AList.update symbol (mark_position_to_market p (be_close e) (be_event_time e)) positions
                   else positions))"

text \<open>One fill of a report onto the books of the run.\<close>

definition book_backtest_fill :: "backtest_env \<Rightarrow> 's run_state \<Rightarrow> fill_event \<Rightarrow> 's run_state res" where
  "book_backtest_fill env st fe =
     res_map (\<lambda>u. st\<lparr>
         rn_next := rn_next st + 2,
         rn_positions := AList.update (fe_symbol fe) (pu_position u) (rn_positions st),
         rn_balance := pu_balance u, rn_fills := rn_fills st @ [fe],
         rn_outcomes := rn_outcomes st @ (if fill_side (fe_fill fe) = SELL then [pu_realized_delta u] else [])\<rparr>)
       (apply_fill_event_to_portfolio (bk_fresh env (rn_next st)) (bk_fresh env (rn_next st + 1)) fe
          (map_of (rn_positions st) (fe_symbol fe)) (Some (rn_balance st)))"

definition log_order :: "order_intent \<Rightarrow> order \<Rightarrow> execution_report \<Rightarrow> 's run_state \<Rightarrow> 's run_state" where
  "log_order i final rep st =
     st\<lparr>rn_next := rn_next st + 1, rn_intents := rn_intents st @ [i], rn_orders := rn_orders st @ [final],
        rn_executed := (if rep_fill_events rep = [] then rn_executed st
                        else List.insert (ord_id final) (rn_executed st))\<rparr>"

text \<open>An actionable plan is turned into an intent and an order, executed and booked.\<close>

definition execute_plan ::
  "backtest_env \<Rightarrow> backtest_service \<Rightarrow> bar_event \<Rightarrow> order_plan \<Rightarrow> 's run_state
     \<Rightarrow> (order_intent \<times> order \<times> nat \<times> 's run_state) res" where
  "execute_plan env s e plan st =
     (let received_at = resolve_received_at e in
      res_bind (to_order_intent (bk_fresh env (rn_next st)) received_at plan None (Some received_at)) (\<lambda>i.
      res_bind (create_order_from_intent (bk_u5 env) received_at i None None (Some received_at) NEW) (\<lambda>r.
      res_bind (submit_with_scenario env s received_at r i) (\<lambda>rep.
      res_bind (res_fold apply_order_update r (rep_order_updates rep)) (\<lambda>final.
      res_bind (res_fold (book_backtest_fill env) (log_order i final rep st) (rep_fill_events rep)) (\<lambda>st.
      Inr (i, final, length (rep_fill_events rep),
           st\<lparr>rn_positions := mark_symbol (sig_symbol (plan_signal plan)) e (rn_positions st)\<rparr>)))))))"

definition or_skip :: "string option \<Rightarrow> string \<Rightarrow> string option" where
  "or_skip x d = Some (text_or x d)"

text \<open>What follows a signal: the plan, the intent, the order, the fills and the reason to skip.\<close>

definition follow_signal ::
  "backtest_env \<Rightarrow> backtest_service \<Rightarrow> bar_event \<Rightarrow> signal option \<Rightarrow> string option \<Rightarrow> 's run_state
     \<Rightarrow> (order_plan option \<times> order_intent option \<times> order option \<times> nat \<times> string option \<times> 's run_state) res"
where
  "follow_signal env s e sg skip_reason st =
     (case sg of
        None \<Rightarrow> Inr (None, None, None, 0, or_skip skip_reason ''strategy_returned_none'', st)
      | Some sg \<Rightarrow>
          let st = st\<lparr>rn_signals := rn_signals st @ [sg]\<rparr> in
          case map_of (bs_symbol_rules s) (sig_symbol sg) of
            None \<Rightarrow> Inr (None, None, None, 0, Some ''missing_symbol_rule'', st)
          | Some rule \<Rightarrow>
              (case be_market_state e of
                 None \<Rightarrow> Inr (None, None, None, 0, Some ''missing_market_context'', st)
               | Some m \<Rightarrow>
                   res_bind (build_signal_order_intent_plan sg rule (map_of (rn_positions st) (sig_symbol sg))
                      (be_decision_price e) m MARKET None) (\<lambda>plan.
                   if plan_actionable plan
                   then res_map (\<lambda>(i, r, n, st). (Some plan, Some i, Some r, n, skip_reason, st))
                          (execute_plan env s e plan st)
                   else Inr (Some plan, None, None, 0, plan_skip_reason plan, st))))"

definition record_equity :: "bar_event \<Rightarrow> 's run_state \<Rightarrow> 's run_state res" where
  "record_equity e st =
     res_map (\<lambda>(p, peak). st\<lparr>rn_curve := rn_curve st @ [p], rn_peak := peak\<rparr>)
       (build_equity_point (be_bar_key e) (be_event_time e) (rn_balance st) (rn_positions st) (rn_peak st))"

definition note_decision ::
  "bar_event \<Rightarrow> strategy_audit \<Rightarrow> signal option
     \<Rightarrow> order_plan option \<times> order_intent option \<times> order option \<times> nat \<times> string option
     \<Rightarrow> 's run_state \<Rightarrow> 's run_state" where
  "note_decision e audit sg outcome st =
     (case outcome of (plan, i, r, fill_count, skip_reason) \<Rightarrow>
        st\<lparr>rn_decisions := rn_decisions st @
          [\<lparr>dr_bar_key = be_bar_key e, dr_exchange = be_exchange e, dr_symbol = be_symbol e,
            dr_timeframe = be_timeframe e, dr_event_time = be_event_time e, dr_audit = audit,
            dr_signal = sg, dr_order_plan = plan, dr_order_intent = i, dr_order = r,
            dr_fill_count = fill_count, dr_skip_reason = skip_reason\<rparr>]\<rparr>)"

text \<open>The decision of the strategy on a new actionable bar, and what comes of it.\<close>

definition decide_bar ::
  "backtest_env \<Rightarrow> backtest_service \<Rightarrow> 's strategy \<Rightarrow> uuid \<Rightarrow> bar_event \<Rightarrow> 's run_state \<Rightarrow> 's run_state res" where
  "decide_bar env s strategy run_id e st =
     (let st = st\<lparr>rn_seen := be_bar_key e # rn_seen st\<rparr> in
      res_bind (st_on_bar strategy (rn_strategy st) e run_id (resolve_received_at e)) (\<lambda>(sg, strategy_state).
      let st = st\<lparr>rn_strategy := strategy_state\<rparr> in
      res_bind (resolve_strategy_audit (bk_dec_str env) strategy (rn_strategy st) e sg) (\<lambda>audit.
      res_bind (follow_signal env s e sg (sa_skip_reason audit) st)
        (\<lambda>(plan, i, r, fill_count, skip_reason, st).
      Inr (note_decision e audit sg (plan, i, r, fill_count, skip_reason) st)))))"

definition run_bar ::
  "backtest_env \<Rightarrow> backtest_service \<Rightarrow> 's strategy \<Rightarrow> uuid \<Rightarrow> 's run_state \<Rightarrow> bar_event \<Rightarrow> 's run_state res" where
  "run_bar env s strategy run_id st e =
     (if (case rn_previous st of None \<Rightarrow> False | Some t \<Rightarrow> be_event_time e < t)
      then Inl (ValueError ''BacktestService.run requires bars ordered by event_time'')
      else
        let st = st\<lparr>rn_previous := Some (be_event_time e),
                    rn_positions := mark_symbol (be_symbol e) e (release_symbol e (rn_positions st))\<rparr>
        in if \<not> be_actionable e \<or> be_bar_key e \<in> set (rn_seen st) then record_equity e st
           else res_bind (decide_bar env s strategy run_id e st) (record_equity e))"

definition initial_state ::
  "backtest_env \<Rightarrow> backtest_service \<Rightarrow> 's \<Rightarrow> bar_event \<Rightarrow> 's run_state res" where
  "initial_state env s strategy_state first =
     res_map (\<lambda>balance.
         \<lparr>rn_strategy = strategy_state, rn_next = 1, rn_balance = balance, rn_positions = [],
          rn_decisions = [], rn_signals = [], rn_intents = [], rn_orders = [], rn_fills = [],
          rn_seen = [], rn_executed = [], rn_outcomes = [], rn_curve = [],
          rn_peak = bs_initial_cash s, rn_previous = None\<rparr>)
       (make_balance
         \<lparr>bal_id = bk_fresh env 0, bal_account = bs_account s, bal_exchange = be_exchange first,
          bal_asset = ''CNY'', bal_total = bs_initial_cash s, bal_available = bs_initial_cash s,
          bal_locked = 0, bal_snapshot_time = be_start first, bal_created_at = be_start first\<rparr>)"

definition run_bars ::
  "backtest_env \<Rightarrow> backtest_service \<Rightarrow> 's strategy \<Rightarrow> uuid \<Rightarrow> 's run_state \<Rightarrow> bar_event list \<Rightarrow> 's run_state res" where
  "run_bars env s strategy run_id = res_fold (run_bar env s strategy run_id)"

definition run_backtest ::
  "backtest_env \<Rightarrow> (bar_event list \<Rightarrow> string)
     \<Rightarrow> (string \<Rightarrow> rat \<Rightarrow> strategy_metadata \<Rightarrow> dataset_metadata \<Rightarrow> cost_assumptions
          \<Rightarrow> (string \<times> symbol_rule) list \<Rightarrow> string)
     \<Rightarrow> backtest_service \<Rightarrow> 's strategy \<Rightarrow> 's \<Rightarrow> bar_event list
     \<Rightarrow> (run_manifest \<times> performance \<times> 's run_state) res" where
  "run_backtest env fingerprint digest s strategy strategy_state bars =
     (if bars = [] then Inl (ValueError ''BacktestService.run requires at least one BarEvent'')
      else
        res_bind (build_dataset_metadata fingerprint bars) (\<lambda>ds.
        let ca = \<lparr>ca_cost_model = bs_cost_model s, ca_slippage_bps = bs_slippage_bps s,
                  ca_slippage_model = bs_slippage_model s,
                  ca_execution_constraints = build_execution_constraints (bs_slippage_model s)\<rparr>;
            manifest = build_manifest env digest s ds (resolve_strategy_metadata strategy) ca
        in res_bind (initial_state env s strategy_state (hd bars)) (\<lambda>st.
           res_bind (run_bars env s strategy (rm_run_id manifest) st bars) (\<lambda>st.
           res_map (\<lambda>performance. (manifest, performance, st))
             (build_performance_summary (bs_initial_cash s) (length (rn_signals st)) (length (rn_orders st))
                (rn_fills st) (length (rn_executed st)) (rn_outcomes st) (rn_curve st))))))"

section \<open>What a step of the run does\<close>

lemma set_alist_update: "x \<in> set (AList.update k v xs) \<Longrightarrow> x = (k, v) \<or> x \<in> set xs"
  by (induction xs) (auto split: if_splits)

lemma book_ok_update: "book_ok b \<Longrightarrow> position_ok p \<Longrightarrow> book_ok (AList.update k p b)"
  by (auto simp: book_ok_def dest!: set_alist_update)

lemma book_ok_lookup: "book_ok b \<Longrightarrow> map_of b k = Some p \<Longrightarrow> position_ok p"
  by (auto simp: book_ok_def dest!: map_of_SomeD)

lemma release_symbol_ok: "book_ok b \<Longrightarrow> book_ok (release_symbol e b)"
  by (auto simp: release_symbol_def split: option.split intro!: book_ok_update release_ok dest: book_ok_lookup)

lemma mark_ok:
  assumes "position_ok p" "0 < price"
  shows "position_ok (mark_position_to_market p price t)"
  using assms
  by (auto simp: mark_position_to_market_def position_ok_def position_rules_def normalize_position_iff
      split: option.split)

lemma mark_symbol_ok: "book_ok b \<Longrightarrow> 0 < be_close e \<Longrightarrow> book_ok (mark_symbol k e b)"
  by (auto simp: mark_symbol_def split: option.split intro!: book_ok_update mark_ok dest: book_ok_lookup)

definition books_ok :: "'s run_state \<Rightarrow> bool" where
  "books_ok st \<longleftrightarrow> balance_ok (rn_balance st) \<and> book_ok (rn_positions st)
     \<and> 0 \<le> rn_peak st \<and> ctx (rn_peak st) = rn_peak st"

text \<open>The parts of the state a booking leaves alone.\<close>

definition same_journal :: "'s run_state \<Rightarrow> 's run_state \<Rightarrow> bool" where
  "same_journal st st' \<longleftrightarrow> rn_strategy st' = rn_strategy st \<and> rn_decisions st' = rn_decisions st
     \<and> rn_seen st' = rn_seen st \<and> rn_curve st' = rn_curve st \<and> rn_peak st' = rn_peak st
     \<and> rn_previous st' = rn_previous st"

definition cash_flow :: "fill_event \<Rightarrow> rat" where
  "cash_flow fe = cb_net_cash_flow (fe_cost fe)"

text \<open>The cash after a list of fills, as the decimal context adds it up.\<close>

definition cash_after :: "rat \<Rightarrow> fill_event list \<Rightarrow> rat" where
  "cash_after cash fes = foldl dec_add cash (map cash_flow fes)"

lemma book_fill_step:
  assumes "book_backtest_fill env st fe = Inr st'"
  shows "same_journal st st' \<and> rn_fills st' = rn_fills st @ [fe] \<and> rn_intents st' = rn_intents st
     \<and> rn_orders st' = rn_orders st \<and> rn_signals st' = rn_signals st
     \<and> bal_total (rn_balance st') = cash_after (bal_total (rn_balance st)) [fe]
     \<and> (books_ok st \<longrightarrow> books_ok st')"
proof -
  obtain u where u: "apply_fill_event_to_portfolio (bk_fresh env (rn_next st)) (bk_fresh env (rn_next st + 1)) fe
        (map_of (rn_positions st) (fe_symbol fe)) (Some (rn_balance st)) = Inr u"
    and st': "rn_positions st' = AList.update (fe_symbol fe) (pu_position u) (rn_positions st)"
      "rn_balance st' = pu_balance u" "rn_fills st' = rn_fills st @ [fe]" "same_journal st st'"
      "rn_intents st' = rn_intents st" "rn_orders st' = rn_orders st" "rn_signals st' = rn_signals st"
    using assms by (auto simp: book_backtest_fill_def same_journal_def)
  have b: "apply_cash_flow (bk_fresh env (rn_next st + 1)) fe (Some (rn_balance st)) = Inr (pu_balance u)"
    and p: "position_ok (pu_position u)"
    using u by (auto simp: apply_fill_iff intro: side_fill_ok)
  have "balance_ok (pu_balance u)"
      "bal_total (pu_balance u) = dec_add (bal_total (rn_balance st)) (cb_net_cash_flow (fe_cost fe))"
    using b by (auto simp: apply_cash_flow_def Let_def make_balance_iff normalize_balance_def split: if_splits)
  then show ?thesis
    using st' p by (auto simp: books_ok_def cash_after_def cash_flow_def same_journal_def intro: book_ok_update)
qed

lemma book_fills_fold:
  assumes "res_fold (book_backtest_fill env) st fes = Inr st'"
  shows "same_journal st st' \<and> rn_fills st' = rn_fills st @ fes \<and> rn_intents st' = rn_intents st
     \<and> rn_orders st' = rn_orders st \<and> rn_signals st' = rn_signals st
     \<and> bal_total (rn_balance st') = cash_after (bal_total (rn_balance st)) fes
     \<and> (books_ok st \<longrightarrow> books_ok st')"
  using assms
proof (induction fes arbitrary: st)
  case (Cons fe fes)
  then obtain u where u: "book_backtest_fill env st fe = Inr u" "res_fold (book_backtest_fill env) u fes = Inr st'"
    by auto
  from Cons.IH [OF u(2)] book_fill_step [OF u(1)] show ?case
    by (auto simp: same_journal_def cash_after_def)
qed (simp add: same_journal_def cash_after_def)

text \<open>An order with the fills of its report: the order reflects exactly them.\<close>

definition executed_order :: "order_intent \<times> order \<times> fill_event list \<Rightarrow> bool" where
  "executed_order x \<longleftrightarrow> (case x of (i, r, fes) \<Rightarrow>
     order_ok r \<and> ord_intent_id r = int_id i \<and> ord_symbol r = normalize_symbol (int_symbol i)
     \<and> ord_side r = int_side i \<and> ord_qty r = int_qty i \<and> (ord_status r = REJECTED \<longrightarrow> fes = [])
     \<and> order_reflects_fills r (map fe_fill fes)
     \<and> (\<forall>fe \<in> set fes. fill_event_ok fe \<and> fe_order_id fe = ord_id r \<and> fill_side (fe_fill fe) = ord_side r))"

text \<open>The journal of a run: its intents, orders and fills, order by order.\<close>

definition run_journal :: "(order_intent \<times> order \<times> fill_event list) list \<Rightarrow> 's run_state \<Rightarrow> bool" where
  "run_journal js st \<longleftrightarrow> rn_intents st = map fst js \<and> rn_orders st = map (fst \<circ> snd) js
     \<and> rn_fills st = concat (map (snd \<circ> snd) js) \<and> list_all executed_order js"

lemma submit_with_scenario_as_venue:
  assumes "submit_with_scenario env s base r i = Inr rep"
  shows "\<exists>resolver. submit_order (bk_u5 env) (bs_cost_model s) resolver base r i = Inr rep"
proof -
  obtain v where v: "validate_order_pair r i = Inr ()"
      "validate_a_share_contract (bk_u5 env) r i base = Inr v"
    using assms by (auto simp: submit_with_scenario_def)
  show ?thesis
  proof (cases v)
    case (Some x)
    then show ?thesis using assms v by (auto simp: submit_with_scenario_def submit_order_def)
  next
    case None
    then obtain scn where "build_execution_report (bk_u5 env) (bs_cost_model s) r i scn base = Inr rep"
      using assms v by (auto simp: submit_with_scenario_def)
    with None v show ?thesis
      by (intro exI [of _ "Some (\<lambda>_ _. scn)"]) (simp add: submit_order_def)
  qed
qed

lemma create_order_new:
  assumes "create_order_from_intent u5 now i None None (Some t) NEW = Inr r"
  shows "order_ok r" "ord_status r = NEW" "ord_submitted_at r = t" "ord_exchange_order_id r = None"
    "ord_intent_id r = int_id i" "ord_symbol r = normalize_symbol (int_symbol i)" "ord_side r = int_side i"
    "ord_qty r = int_qty i"
  using assms by (auto simp: create_order_from_intent_def Let_def make_order_iff normalize_order_def)

lemma submitted_order_executed:
  assumes "create_order_from_intent u5 now i None None (Some t) NEW = Inr r"
    and "submit_with_scenario env s t r i = Inr rep"
    and "res_fold apply_order_update r (rep_order_updates rep) = Inr final"
  shows "executed_order (i, final, rep_fill_events rep)"
proof -
  note c = create_order_new [OF assms(1)]
  obtain resolver where sub: "submit_order (bk_u5 env) (bs_cost_model s) resolver t r i = Inr rep"
    using submit_with_scenario_as_venue [OF assms(2)] by blast
  have ok: "order_ok r" "ord_status r = NEW" "ord_submitted_at r \<le> t" "ord_exchange_order_id r = None"
    using c by simp_all
  have "(ord_status final = REJECTED \<longrightarrow> rep_fill_events rep = [])
     \<and> (\<forall>fe \<in> set (rep_fill_events rep). fill_event_ok fe \<and> fe_order_id fe = ord_id r
          \<and> fill_side (fe_fill fe) = ord_side r)"
    using submit_order_applies [OF sub ok] assms(3) by auto
  then show ?thesis
    using submit_order_reflects [OF sub ok assms(3)] apply_order_updates_run [OF assms(3) ok(1)] c(5-8)
    by (simp add: executed_order_def same_order_def)
qed

text \<open>What executing a plan adds to the state, and what it keeps.\<close>

lemma execute_plan_step:
  assumes "execute_plan env s e plan st = Inr (i, r, n, st')" "run_journal js st" "0 < be_close e"
  shows "same_journal st st' \<and> rn_signals st' = rn_signals st
     \<and> (\<exists>fes. run_journal (js @ [(i, r, fes)]) st' \<and> n = length fes
          \<and> bal_total (rn_balance st') = cash_after (bal_total (rn_balance st)) fes)
     \<and> (books_ok st \<longrightarrow> books_ok st')"
proof -
  let ?t = "resolve_received_at e"
  obtain r0 rep st2 where
    c: "create_order_from_intent (bk_u5 env) ?t i None None (Some ?t) NEW = Inr r0"
    and sub: "submit_with_scenario env s ?t r0 i = Inr rep"
    and up: "res_fold apply_order_update r0 (rep_order_updates rep) = Inr r"
    and f: "res_fold (book_backtest_fill env) (log_order i r rep st) (rep_fill_events rep) = Inr st2"
    and st': "st' = st2\<lparr>rn_positions := mark_symbol (sig_symbol (plan_signal plan)) e (rn_positions st2)\<rparr>"
      "n = length (rep_fill_events rep)"
    using assms(1) by (auto simp: execute_plan_def Let_def)
  define st1 where "st1 = log_order i r rep st"
  have st1: "same_journal st st1" "rn_intents st1 = rn_intents st @ [i]" "rn_orders st1 = rn_orders st @ [r]"
      "rn_fills st1 = rn_fills st" "rn_signals st1 = rn_signals st" "rn_balance st1 = rn_balance st"
      "rn_positions st1 = rn_positions st"
    by (simp_all add: st1_def log_order_def same_journal_def)
  note f = f [folded st1_def]
  note ex = submitted_order_executed [OF c sub up]
  note b = book_fills_fold [OF f]
  have "run_journal (js @ [(i, r, rep_fill_events rep)]) st'"
    using assms(2) st1 b st' ex by (auto simp: run_journal_def)
  moreover have "books_ok st1 = books_ok st"
    using st1 by (simp add: books_ok_def same_journal_def)
  ultimately show ?thesis
    using st1 b st' assms(3) by (auto simp: same_journal_def books_ok_def intro: mark_symbol_ok)
qed

lemma follow_signal_step:
  assumes "follow_signal env s e sg skip st = Inr (plan, i, r, n, skip', st')" "run_journal js st"
    and "0 < be_close e"
  shows "same_journal st st' \<and> prefix (rn_signals st) (rn_signals st')
     \<and> (\<exists>new. run_journal (js @ new) st'
          \<and> bal_total (rn_balance st') = cash_after (bal_total (rn_balance st)) (concat (map (snd \<circ> snd) new)))
     \<and> (books_ok st \<longrightarrow> books_ok st')"
proof -
  have idle: ?thesis if "st' = st \<or> (\<exists>g. st' = st\<lparr>rn_signals := rn_signals st @ [g]\<rparr>)"
    using that assms(2)
    by (auto simp: same_journal_def run_journal_def books_ok_def cash_after_def intro!: exI [of _ "[]"])
  show ?thesis
  proof (cases sg)
    case None
    then show ?thesis using assms(1) idle by (simp add: follow_signal_def)
  next
    case (Some g)
    define st1 where "st1 = st\<lparr>rn_signals := rn_signals st @ [g]\<rparr>"
    consider "st' = st1" | p i' r' where "execute_plan env s e p st1 = Inr (i', r', n, st')"
      using assms(1) unfolding Some follow_signal_def
      by (auto simp: Let_def st1_def split: option.splits if_splits)
    then show ?thesis
    proof cases
      case 1
      then show ?thesis using idle by (auto simp: st1_def)
    next
      case 2
      have j: "run_journal js st1" using assms(2) by (simp add: run_journal_def st1_def)
      obtain fes where fes: "run_journal (js @ [(i', r', fes)]) st'"
          "bal_total (rn_balance st') = cash_after (bal_total (rn_balance st1)) fes"
        and rest: "same_journal st1 st'" "rn_signals st' = rn_signals st1" "books_ok st1 \<longrightarrow> books_ok st'"
        using execute_plan_step [OF 2 j assms(3)] by blast
      have "\<exists>new. run_journal (js @ new) st'
          \<and> bal_total (rn_balance st') = cash_after (bal_total (rn_balance st)) (concat (map (snd \<circ> snd) new))"
        using fes by (intro exI [of _ "[(i', r', fes)]"]) (simp add: st1_def)
      moreover have "prefix (rn_signals st) (rn_signals st')"
        using rest(2) by (simp add: st1_def)
      ultimately show ?thesis
        using rest by (auto simp: same_journal_def books_ok_def st1_def)
    qed
  qed
qed

lemma decide_bar_step:
  assumes "decide_bar env s strategy run_id e st = Inr st'" "run_journal js st" "0 < be_close e"
  shows "prefix (rn_signals st) (rn_signals st')
     \<and> (\<exists>d. rn_decisions st' = rn_decisions st @ [d] \<and> dr_bar_key d = be_bar_key e)
     \<and> rn_seen st' = be_bar_key e # rn_seen st \<and> rn_curve st' = rn_curve st \<and> rn_previous st' = rn_previous st
     \<and> (\<exists>new. run_journal (js @ new) st'
          \<and> bal_total (rn_balance st') = cash_after (bal_total (rn_balance st)) (concat (map (snd \<circ> snd) new)))
     \<and> (books_ok st \<longrightarrow> books_ok st')"
proof -
  obtain sg strategy_state audit plan i r n skip st2 where
    f: "follow_signal env s e sg (sa_skip_reason audit)
          (st\<lparr>rn_seen := be_bar_key e # rn_seen st, rn_strategy := strategy_state\<rparr>)
        = Inr (plan, i, r, n, skip, st2)"
    and st': "st' = note_decision e audit sg (plan, i, r, n, skip) st2"
    using assms(1) by (auto simp: decide_bar_def Let_def split: prod.splits)
  have "run_journal js (st\<lparr>rn_seen := be_bar_key e # rn_seen st, rn_strategy := strategy_state\<rparr>)"
    using assms(2) by (simp add: run_journal_def)
  from follow_signal_step [OF f this assms(3)] show ?thesis
    by (auto simp: st' note_decision_def same_journal_def run_journal_def books_ok_def)
qed

text \<open>A point of the equity curve over valid books.\<close>

definition point_ok :: "equity_point \<Rightarrow> bool" where
  "point_ok p \<longleftrightarrow> ep_equity p = dec_add (ep_cash p) (ep_market_value p) \<and> 0 \<le> ep_cash p
     \<and> 0 \<le> ep_market_value p \<and> 0 \<le> ep_drawdown_pct p \<and> ep_drawdown_pct p \<le> 100"

lemma record_equity_step:
  assumes "record_equity e st = Inr st'" "books_ok st"
  shows "\<exists>p. st' = st\<lparr>rn_curve := rn_curve st @ [p], rn_peak := max (rn_peak st) (ep_equity p)\<rparr>
     \<and> point_ok p \<and> ep_bar_key p = trim (be_bar_key e) \<and> ep_event_time p = be_event_time e
     \<and> ep_cash p = bal_total (rn_balance st)"
    and "books_ok st'"
proof -
  obtain q where q: "build_equity_point (be_bar_key e) (be_event_time e) (rn_balance st) (rn_positions st)
      (rn_peak st) = Inr q"
    using assms(1) by (auto simp: record_equity_def)
  have "trim (be_bar_key e) \<noteq> []"
    using q by (auto simp: build_equity_point_def Let_def make_equity_point_def)
  from equity_point_total [OF _ _ _ _ this, of "rn_balance st" "rn_positions st" "rn_peak st" "be_event_time e"] q assms(2)
  obtain p where p: "q = (p, max (rn_peak st) (ep_equity p))" "point_ok p" "ep_bar_key p = trim (be_bar_key e)"
      "ep_event_time p = be_event_time e" "ep_cash p = bal_total (rn_balance st)"
    using balance_okD(1) [of "rn_balance st"] by (auto simp: books_ok_def point_ok_def)
  then have st': "st' = st\<lparr>rn_curve := rn_curve st @ [p], rn_peak := max (rn_peak st) (ep_equity p)\<rparr>"
    using assms(1) q by (simp add: record_equity_def)
  with p show "\<exists>p. st' = st\<lparr>rn_curve := rn_curve st @ [p], rn_peak := max (rn_peak st) (ep_equity p)\<rparr>
     \<and> point_ok p \<and> ep_bar_key p = trim (be_bar_key e) \<and> ep_event_time p = be_event_time e
     \<and> ep_cash p = bal_total (rn_balance st)" by blast
  have "ctx (ep_equity p) = ep_equity p"
    using p(2) by (simp add: point_ok_def dec_add_def)
  then show "books_ok st'"
    using assms(2) by (auto simp: st' books_ok_def max_def)
qed

lemma run_bar_step:
  assumes "run_bar env s strategy run_id st e = Inr st'" "run_journal js st" "books_ok st" "0 < be_close e"
  shows "books_ok st' \<and> rn_previous st' = Some (be_event_time e) \<and> prefix (rn_signals st) (rn_signals st')
     \<and> (\<exists>p. rn_curve st' = rn_curve st @ [p] \<and> point_ok p \<and> ep_bar_key p = trim (be_bar_key e)
          \<and> ep_event_time p = be_event_time e \<and> ep_cash p = bal_total (rn_balance st'))
     \<and> (if be_actionable e \<and> be_bar_key e \<notin> set (rn_seen st)
        then rn_seen st' = be_bar_key e # rn_seen st
          \<and> (\<exists>d. rn_decisions st' = rn_decisions st @ [d] \<and> dr_bar_key d = be_bar_key e)
        else rn_seen st' = rn_seen st \<and> rn_decisions st' = rn_decisions st)
     \<and> (\<exists>new. run_journal (js @ new) st'
          \<and> bal_total (rn_balance st') = cash_after (bal_total (rn_balance st)) (concat (map (snd \<circ> snd) new)))"
proof -
  define st1 where "st1 = st\<lparr>rn_previous := Some (be_event_time e),
      rn_positions := mark_symbol (be_symbol e) e (release_symbol e (rn_positions st))\<rparr>"
  have j: "run_journal js st1" using assms(2) by (simp add: run_journal_def st1_def)
  have ok: "books_ok st1"
    using assms(3,4) by (auto simp: books_ok_def st1_def intro: mark_symbol_ok release_symbol_ok)
  show ?thesis
  proof (cases "be_actionable e \<and> be_bar_key e \<notin> set (rn_seen st)")
    case False
    then have "record_equity e st1 = Inr st'"
      using assms(1) by (auto simp: run_bar_def st1_def Let_def split: if_splits option.splits)
    from record_equity_step [OF this ok] False j show ?thesis
      by (auto simp: st1_def run_journal_def cash_after_def intro!: exI [of _ "[]"])
  next
    case True
    then obtain st2 where d: "decide_bar env s strategy run_id e st1 = Inr st2" "record_equity e st2 = Inr st'"
      using assms(1) by (auto simp: run_bar_def st1_def Let_def split: if_splits option.splits)
    note ds = decide_bar_step [OF d(1) j assms(4)]
    then have "books_ok st2" using ok by blast
    from record_equity_step [OF d(2) this] ds True show ?thesis
      by (auto simp: st1_def run_journal_def)
  qed
qed

section \<open>What a run guarantees\<close>

lemma cash_after_append: "cash_after c (xs @ ys) = cash_after (cash_after c xs) ys"
  by (simp add: cash_after_def)

definition fills_of_journal :: "(order_intent \<times> order \<times> fill_event list) list \<Rightarrow> fill_event list" where
  "fills_of_journal js = concat (map (snd \<circ> snd) js)"

definition decisions_ok :: "'s run_state \<Rightarrow> bool" where
  "decisions_ok st \<longleftrightarrow> map dr_bar_key (rn_decisions st) = rev (rn_seen st) \<and> distinct (rn_seen st)"

definition actionable_keys :: "bar_event list \<Rightarrow> string set" where
  "actionable_keys bars = be_bar_key ` {e \<in> set bars. be_actionable e}"

definition point_of_bar :: "bar_event \<Rightarrow> equity_point \<Rightarrow> bool" where
  "point_of_bar e p \<longleftrightarrow> point_ok p \<and> ep_bar_key p = trim (be_bar_key e) \<and> ep_event_time p = be_event_time e"

lemma run_bars_run:
  assumes "run_bars env s strategy run_id st bars = Inr st'" "run_journal js st" "books_ok st"
    and "\<forall>e \<in> set bars. 0 < be_close e"
  shows "books_ok st' \<and> prefix (rn_signals st) (rn_signals st')
     \<and> (\<exists>ps. rn_curve st' = rn_curve st @ ps \<and> list_all2 point_of_bar bars ps
          \<and> (bars \<noteq> [] \<longrightarrow> ep_cash (last ps) = bal_total (rn_balance st')))
     \<and> prefix (rn_decisions st) (rn_decisions st')
     \<and> (decisions_ok st \<longrightarrow> decisions_ok st' \<and> set (rn_seen st') = set (rn_seen st) \<union> actionable_keys bars)
     \<and> (\<exists>new. run_journal (js @ new) st'
          \<and> bal_total (rn_balance st') = cash_after (bal_total (rn_balance st)) (fills_of_journal new))"
  using assms
proof (induction bars arbitrary: st js)
  case Nil
  then show ?case
    by (auto simp: run_bars_def actionable_keys_def cash_after_def fills_of_journal_def intro!: exI [of _ "[]"])
next
  case (Cons e bars)
  obtain st1 where s: "run_bar env s strategy run_id st e = Inr st1"
      "run_bars env s strategy run_id st1 bars = Inr st'"
    using Cons.prems(1) by (auto simp: run_bars_def)
  have e: "0 < be_close e" using Cons.prems(4) by simp
  note step = run_bar_step [OF s(1) Cons.prems(2,3) e]
  obtain new where new: "run_journal (js @ new) st1"
      "bal_total (rn_balance st1) = cash_after (bal_total (rn_balance st)) (fills_of_journal new)"
    using step by (auto simp: fills_of_journal_def)
  obtain p where p: "rn_curve st1 = rn_curve st @ [p]" "point_of_bar e p"
      "ep_cash p = bal_total (rn_balance st1)"
    using step by (auto simp: point_of_bar_def)
  have ok: "books_ok st1" "prefix (rn_signals st) (rn_signals st1)" "prefix (rn_decisions st) (rn_decisions st1)"
    using step by (auto split: if_splits)
  have dec: "decisions_ok st1 \<and> set (rn_seen st1) = set (rn_seen st) \<union> actionable_keys [e]" if "decisions_ok st"
    using step that by (auto simp: decisions_ok_def actionable_keys_def split: if_splits)
  have IH: "books_ok st' \<and> prefix (rn_signals st1) (rn_signals st')
     \<and> (\<exists>ps. rn_curve st' = rn_curve st1 @ ps \<and> list_all2 point_of_bar bars ps
          \<and> (bars \<noteq> [] \<longrightarrow> ep_cash (last ps) = bal_total (rn_balance st')))
     \<and> prefix (rn_decisions st1) (rn_decisions st')
     \<and> (decisions_ok st1 \<longrightarrow> decisions_ok st' \<and> set (rn_seen st') = set (rn_seen st1) \<union> actionable_keys bars)
     \<and> (\<exists>more. run_journal ((js @ new) @ more) st'
          \<and> bal_total (rn_balance st') = cash_after (bal_total (rn_balance st1)) (fills_of_journal more))"
    by (rule Cons.IH [OF s(2) new(1) ok(1)]) (use Cons.prems(4) in simp)
  obtain ps where ps: "rn_curve st' = rn_curve st1 @ ps" "list_all2 point_of_bar bars ps"
      "bars \<noteq> [] \<longrightarrow> ep_cash (last ps) = bal_total (rn_balance st')"
    using IH by blast
  obtain more where more: "run_journal ((js @ new) @ more) st'"
      "bal_total (rn_balance st') = cash_after (bal_total (rn_balance st1)) (fills_of_journal more)"
    using IH by blast
  have "\<exists>ps. rn_curve st' = rn_curve st @ ps \<and> list_all2 point_of_bar (e # bars) ps
          \<and> (e # bars \<noteq> [] \<longrightarrow> ep_cash (last ps) = bal_total (rn_balance st'))"
  proof (intro exI conjI impI)
    show "rn_curve st' = rn_curve st @ p # ps" "list_all2 point_of_bar (e # bars) (p # ps)"
      using ps p by simp_all
    show "ep_cash (last (p # ps)) = bal_total (rn_balance st')"
    proof (cases bars)
      case Nil
      then show ?thesis using ps(2) p(3) s(2) by (simp add: run_bars_def)
    next
      case (Cons b bs)
      then show ?thesis using ps by (auto simp: list_all2_Cons1)
    qed
  qed
  moreover have "\<exists>new. run_journal (js @ new) st'
       \<and> bal_total (rn_balance st') = cash_after (bal_total (rn_balance st)) (fills_of_journal new)"
    using more new(2) by (intro exI [of _ "new @ more"]) (simp add: fills_of_journal_def cash_after_append)
  moreover have "decisions_ok st' \<and> set (rn_seen st') = set (rn_seen st) \<union> actionable_keys (e # bars)"
    if "decisions_ok st"
    using dec [OF that] IH by (auto simp: actionable_keys_def)
  ultimately show ?case
    using IH ok(2,3) by (meson prefix_order.trans)
qed

lemma initial_state_D:
  assumes "initial_state env s x e = Inr st" "0 < bs_initial_cash s" "ctx (bs_initial_cash s) = bs_initial_cash s"
  shows "run_journal [] st" "books_ok st" "decisions_ok st" "rn_curve st = []" "rn_decisions st = []"
    "rn_fills st = []" "rn_seen st = []" "bal_total (rn_balance st) = bs_initial_cash s"
  using assms
  by (auto simp: initial_state_def make_balance_iff run_journal_def books_ok_def book_ok_def decisions_ok_def
      normalize_balance_def)

text \<open>
  C8.  A backtest accounts for every bar.  When a run returns, its equity curve has one sound point for
  every bar in order, every actionable bar was decided exactly once, every order is valid and reflects
  exactly its own fills, the fills of the run are those of its orders, and the final cash is the
  initial cash with the cash flow of every fill, nothing else.
\<close>

theorem backtest_accounts_every_bar:
  assumes "run_backtest env fingerprint digest s strategy x bars = Inr (manifest, performance, st)"
    and "0 < bs_initial_cash s" "ctx (bs_initial_cash s) = bs_initial_cash s" "\<forall>e \<in> set bars. 0 < be_close e"
  shows "list_all2 point_of_bar bars (rn_curve st) \<and> pf_bar_count performance = length bars
     \<and> distinct (map dr_bar_key (rn_decisions st))
     \<and> set (map dr_bar_key (rn_decisions st)) = actionable_keys bars
     \<and> balance_ok (rn_balance st) \<and> book_ok (rn_positions st)
     \<and> (\<exists>js. run_journal js st)
     \<and> pf_ending_cash performance = bal_total (rn_balance st)
     \<and> bal_total (rn_balance st) = cash_after (bs_initial_cash s) (rn_fills st)"
proof -
  obtain st0 where st0: "initial_state env s x (hd bars) = Inr st0"
      "run_bars env s strategy (rm_run_id manifest) st0 bars = Inr st" "bars \<noteq> []"
    and pf: "build_performance_summary (bs_initial_cash s) (length (rn_signals st)) (length (rn_orders st))
        (rn_fills st) (length (rn_executed st)) (rn_outcomes st) (rn_curve st) = Inr performance"
    using assms(1) by (auto simp: run_backtest_def Let_def split: if_splits)
  have pf': "pf_bar_count performance = length (rn_curve st)" "pf_ending_cash performance = ep_cash (last (rn_curve st))"
    using pf by (auto simp: build_performance_summary_def Let_def)
  note i = initial_state_D [OF st0(1) assms(2,3)]
  note r = run_bars_run [OF st0(2) i(1,2) assms(4)]
  obtain new where new: "run_journal new st"
      "bal_total (rn_balance st) = cash_after (bs_initial_cash s) (fills_of_journal new)"
    using r i(8) by auto
  have "fills_of_journal new = rn_fills st" using new(1) by (simp add: run_journal_def fills_of_journal_def)
  moreover have d: "decisions_ok st" "set (rn_seen st) = actionable_keys bars"
    using r i(3,7) by auto
  moreover have "list_all2 point_of_bar bars (rn_curve st)" "ep_cash (last (rn_curve st)) = bal_total (rn_balance st)"
    using r i(4) st0(3) by auto
  ultimately show ?thesis
    using new pf' r by (auto simp: decisions_ok_def books_ok_def list_all2_lengthD)
qed

section \<open>Witnesses\<close>

definition demo_env :: backtest_env where
  "demo_env = \<lparr>bk_u5 = (\<lambda>s. of_nat (length s)), bk_fresh = of_nat, bk_dec_str = (\<lambda>d. ''0'')\<rparr>"

definition demo_service :: backtest_service where
  "demo_service = \<lparr>bs_account = ''paper_account_001'', bs_symbol_rules = [(''600036.SH'', sample_rule)],
     bs_cost_model = sample_cost_model, bs_initial_cash = 100000, bs_slippage_bps = 5,
     bs_slippage_model = fixed_bps_slippage_model\<rparr>"

definition demo_audit :: decision_audit where
  "demo_audit = \<lparr>da_input_snapshot = [], da_signal_snapshot = [], da_reason_summary = ''demo'',
     da_summary = Some \<lparr>as_provider_id = ''demo'', as_version = ''demo'', as_decision = ''hold'',
       as_confidence = None, as_reason_summary = ''demo'', as_fallback_used = False,
       as_fallback_reason = None\<rparr>\<rparr>"

text \<open>A strategy that asks for 200 shares on its first bar and is silent afterwards.\<close>

definition demo_strategy :: "nat strategy" where
  "demo_strategy = \<lparr>st_type_name = ''Demo'', st_strategy_id = None, st_metadata = None,
     st_on_bar = (\<lambda>n e run_id received_at.
        Inr (if n = 0 then Some (sample_signal 200) else None, n + 1)),
     st_decision_audit = Some (\<lambda>n e s. Inr demo_audit),
     st_non_signal = Some (\<lambda>n e. Inr (Some \<lparr>nd_audit = demo_audit, nd_skip_reason = ''silent''\<rparr>))\<rparr>"

definition demo_bar :: "int \<Rightarrow> bar_event" where
  "demo_bar k =
     (let start = sample_time + k * (15 * us_per_minute) in
      \<lparr>be_id = 3, be_exchange = ''cn_equity'', be_symbol = ''600036.SH'', be_timeframe = ''15m'',
       be_start = start, be_end = start + 15 * us_per_minute, be_event_time = start + 15 * us_per_minute,
       be_ingest = start + 15 * us_per_minute, be_open = 39, be_high = 40, be_low = 38, be_close = 79 / 2,
       be_volume = 1000, be_quote_volume = None, be_trade_count = None, be_closed = True, be_final = True,
       be_source_kind = Some Historical, be_market_state = Some sample_market, be_payload = JNull\<rparr>)"

text \<open>
  The stages of its run over two bars: the plan, the intent and its order, the report of the venue, the
  order, position and cash after it, and the equity points.
\<close>

definition demo_received :: datetime where
  "demo_received = sample_time + 15 * us_per_minute"

definition demo_balance :: balance_snapshot where
  "demo_balance = \<lparr>bal_id = 0, bal_account = ''paper_account_001'', bal_exchange = ''cn_equity'', bal_asset = ''CNY'',
     bal_total = 100000, bal_available = 100000, bal_locked = 0, bal_snapshot_time = sample_time,
     bal_created_at = sample_time\<rparr>"

definition demo_plan :: order_plan where
  "demo_plan =
     \<lparr>plan_signal = sample_signal 200, plan_side = Some BUY, plan_qty = 200, plan_target = 200,
      plan_current_qty = 0, plan_current_sellable = 0, plan_raw_delta = 200, plan_decision_price = 79 / 2,
      plan_market_context = sample_market, plan_reduce_only = False, plan_odd_lot_sell = False,
      plan_skip_reason = None, plan_order_type = MARKET, plan_tif = DAY, plan_price = None\<rparr>"

definition demo_intent :: "order_intent" where
  "demo_intent =
     \<lparr>int_id = 1, int_signal_id = 11, int_strategy = ''baseline_momentum_v1'', int_run_id = 7,
     int_account = ''paper_account_001'', int_exchange = ''cn_equity'', int_symbol = ''600036.SH'',
     int_side = BUY, int_type = MARKET, int_tif = DAY, int_qty = 200, int_price = None,
     int_decision_price = Some (79 / 2), int_reduce_only = False, int_market_context = Some
     \<lparr>ms_trade_date = 20544, ms_previous_close = 3947 / 100, ms_upper_limit = 2171 / 50,
     ms_lower_limit = 888 / 25, ms_phase = CONTINUOUS_AUCTION, ms_suspension = ACTIVE\<rparr>,
     int_idempotency_key = ''signalark:signal:00000000-0000-0000-0000-00000000000b:order_intent'',
     int_status = INTENT_NEW, int_risk_decision = ALLOW, int_risk_reason = None, int_created_at =
     1775038500000000\<rparr>"

definition demo_order :: "order" where
  "demo_order =
     \<lparr>ord_id = 52, ord_intent_id = 1, ord_run_id = 7, ord_exchange_order_id = None, ord_account =
     ''paper_account_001'', ord_exchange = ''cn_equity'', ord_symbol = ''600036.SH'', ord_side = BUY,
     ord_type = MARKET, ord_tif = DAY, ord_qty = 200, ord_price = None, ord_filled_qty = 0,
     ord_avg_fill_price = None, ord_status = NEW, ord_submitted_at = 1775038500000000, ord_updated_at =
     1775038500000000, ord_error_code = None, ord_error_message = None\<rparr>"

definition demo_updates :: "order_update list" where
  "demo_updates =
     [\<lparr>upd_id = 69, upd_order_id = 52, upd_intent_id = 1, upd_run_id = 7, upd_account =
     ''paper_account_001'', upd_exchange = ''cn_equity'', upd_symbol = ''600036.SH'', upd_status = ACK,
     upd_exchange_order_id = Some ''paper-order-000000000000'', upd_filled_qty = 0, upd_avg_fill_price =
     None, upd_error_code = None, upd_error_message = None, upd_event_time = 1775038500000000,
     upd_created_at = 1775038500000000\<rparr>, \<lparr>upd_id = 72, upd_order_id = 52, upd_intent_id =
     1, upd_run_id = 7, upd_account = ''paper_account_001'', upd_exchange = ''cn_equity'', upd_symbol =
     ''600036.SH'', upd_status = FILLED, upd_exchange_order_id = Some ''paper-order-000000000000'',
     upd_filled_qty = 200, upd_avg_fill_price = Some (988 / 25), upd_error_code = None, upd_error_message
     = None, upd_event_time = 1775038501000000, upd_created_at = 1775038501000000\<rparr>]"

definition demo_fills :: "fill_event list" where
  "demo_fills =
     [\<lparr>fe_id = 65, fe_order_id = 52, fe_intent_id = 1, fe_run_id = 7, fe_account =
     ''paper_account_001'', fe_exchange = ''cn_equity'', fe_symbol = ''600036.SH'', fe_fill =
     \<lparr>fill_id = 59, fill_order_id = 52, fill_run_id = 7, fill_exchange_fill_id = Some
     ''paper-fill-000000000000-1'', fill_account = ''paper_account_001'', fill_exchange = ''cn_equity'',
     fill_symbol = ''600036.SH'', fill_side = BUY, fill_qty = 200, fill_price = 988 / 25, fill_fee = 988
     / 125, fill_fee_asset = Some ''CNY'', fill_liquidity = TAKER, fill_time = 1775038501000000,
     fill_created_at = 1775038501000000\<rparr>, fe_cost = \<lparr>cb_currency = ''CNY'',
     cb_gross_notional = 7904, cb_commission = 988 / 125, cb_transfer_fee = 0, cb_stamp_duty = 0,
     cb_total_fee = 988 / 125, cb_net_cash_flow = - (988988 / 125)\<rparr>, fe_event_time =
     1775038501000000, fe_created_at = 1775038501000000\<rparr>]"

definition demo_final :: "order" where
  "demo_final =
     \<lparr>ord_id = 52, ord_intent_id = 1, ord_run_id = 7, ord_exchange_order_id = Some
     ''paper-order-000000000000'', ord_account = ''paper_account_001'', ord_exchange = ''cn_equity'',
     ord_symbol = ''600036.SH'', ord_side = BUY, ord_type = MARKET, ord_tif = DAY, ord_qty = 200,
     ord_price = None, ord_filled_qty = 200, ord_avg_fill_price = Some (988 / 25), ord_status = FILLED,
     ord_submitted_at = 1775038500000000, ord_updated_at = 1775038501000000, ord_error_code = None,
     ord_error_message = None\<rparr>"

definition demo_position :: "position" where
  "demo_position =
     \<lparr>pos_id = 2, pos_account = ''paper_account_001'', pos_exchange = ''cn_equity'', pos_symbol =
     ''600036.SH'', pos_side = LONG, pos_qty = 200, pos_sellable_qty = 0, pos_avg_entry_price = Some (988
     / 25), pos_mark_price = Some (988 / 25), pos_unrealized_pnl = 0, pos_realized_pnl = - (988 / 125),
     pos_status = POS_OPEN, pos_updated_at = 1775038501000000\<rparr>"

definition demo_cash :: "balance_snapshot" where
  "demo_cash =
     \<lparr>bal_id = 3, bal_account = ''paper_account_001'', bal_exchange = ''cn_equity'', bal_asset =
     ''CNY'', bal_total = 11511012 / 125, bal_available = 11511012 / 125, bal_locked = 0,
     bal_snapshot_time = 1775038501000000, bal_created_at = 1775038501000000\<rparr>"

definition demo_point :: "string \<Rightarrow> datetime \<Rightarrow> equity_point" where
  "demo_point key t =
     \<lparr>ep_event_time = t, ep_bar_key = key, ep_cash = 11511012 / 125, ep_market_value = 7900,
      ep_equity = 12498512 / 125, ep_realized_pnl = - (988 / 125), ep_unrealized_pnl = - 4,
      ep_drawdown_pct = 119 / 10000, ep_position_count = 1\<rparr>"

definition demo_held :: "datetime \<Rightarrow> position" where
  "demo_held t = demo_position\<lparr>pos_mark_price := Some (79 / 2), pos_unrealized_pnl := - 4, pos_updated_at := t\<rparr>"

lemma demo_opening: "make_balance demo_balance = Inr demo_balance" by code_simp

lemma demo_sizing:
  "build_signal_order_intent_plan (sample_signal 200) sample_rule None (79 / 2) sample_market MARKET None
     = Inr demo_plan" by code_simp

lemma demo_intended:
  "to_order_intent 1 demo_received demo_plan None (Some demo_received) = Inr demo_intent" by code_simp

lemma demo_ordered:
  "create_order_from_intent (bk_u5 demo_env) demo_received demo_intent None None (Some demo_received) NEW
     = Inr demo_order" by code_simp

lemma demo_venue:
  "validate_order_pair demo_order demo_intent = Inr ()"
  "validate_a_share_contract (bk_u5 demo_env) demo_order demo_intent demo_received = Inr None"
  "build_scenario demo_service demo_order demo_intent = Inr
     \<lparr>scn_slices = [\<lparr>slice_qty = 200, slice_price = Some (988 / 25), slice_liquidity = TAKER\<rparr>],
      scn_cancel_remaining = False, scn_reject_code = None, scn_reject_message = None\<rparr>"
  by code_simp+

lemma demo_loop:
  "fill_loop (bk_u5 demo_env) sample_cost_model demo_order (79 / 2) demo_received (Suc 0) 0 0
     [\<lparr>slice_qty = 200, slice_price = Some (988 / 25), slice_liquidity = TAKER\<rparr>]
   = Inr (tl demo_updates, demo_fills, 200, 7904, 2)"
  by code_simp

lemma demo_applied:
  "res_fold apply_order_update demo_order demo_updates = Inr demo_final" by code_simp

lemma demo_booked:
  "apply_fill_event_to_portfolio 2 3 (hd demo_fills) None (Some demo_balance) = Inr
     \<lparr>pu_position = demo_position, pu_balance = demo_cash, pu_released_qty = 0,
      pu_realized_delta = - (988 / 125), pu_cash_delta = - (988988 / 125)\<rparr>"
  by code_simp

lemma demo_marked:
  "mark_position_to_market demo_position (79 / 2) t = demo_held t"
  "mark_position_to_market (demo_held s) (79 / 2) t = demo_held t"
  "0 < pos_qty demo_position" "0 < pos_qty (demo_held t)"
  "rel_position (release_position_sellable_qty (demo_held demo_received) (date_of sample_time) t) = demo_held demo_received"
proof -
  have "dec_mul (dec_sub (79 / 2) (988 / 25)) 200 = - 4" by code_simp
  then show "mark_position_to_market demo_position (79 / 2) t = demo_held t"
    "mark_position_to_market (demo_held s) (79 / 2) t = demo_held t"
    by (simp_all add: mark_position_to_market_def demo_position_def demo_held_def)
  show "0 < pos_qty demo_position" "0 < pos_qty (demo_held t)"
    by (simp_all add: demo_position_def demo_held_def)
  have "date_of sample_time \<le> date_of demo_received" by code_simp
  then show "rel_position (release_position_sellable_qty (demo_held demo_received) (date_of sample_time) t) = demo_held demo_received"
    by (simp add: release_position_sellable_qty_def demo_held_def)
qed

lemma demo_pointed:
  assumes "trim key \<noteq> []"
  shows "build_equity_point key t demo_cash [(''600036.SH'', demo_held u)] 100000
     = Inr (demo_point (trim key) t, 100000)"
proof -
  have leaves: "dec_sum [dec_mul 200 (79 / 2)] = 7900" "dec_sum [- (988 / 125)] = - (988 / 125)" "dec_sum [- 4] = - 4"
    "dec_add (11511012 / 125) 7900 = 12498512 / 125"
    "dec_div (dec_sub 100000 (12498512 / 125)) 100000 = Inr (93 / 781250)"
    "to_pct (93 / 781250) = Inr (119 / 10000)"
    by code_simp+
  show ?thesis
    using assms by (simp add: leaves build_equity_point_def market_value_def open_positions_def demo_held_def demo_position_def
        demo_cash_def reference_price_def make_equity_point_def checks.simps(2) demo_point_def Let_def)
qed

lemma demo_figures:
  "dec_div (dec_sub (12498512 / 125) 100000) 100000 = Inr (- (93 / 781250))"
  "to_pct (- (93 / 781250)) = Inr (- (119 / 10000))"
  "compute_return_to_drawdown_ratio (- (119 / 10000)) (119 / 10000) = Inr (Some (- 1))"
  by code_simp+

lemma demo_holding:
  "compute_average_holding_bars demo_fills [demo_point k demo_received, demo_point l (demo_received + 15 * us_per_minute)]
     = Inr None"
  by code_simp

lemma demo_ack:
  "paper_update (bk_u5 demo_env) demo_order ''ack'' ACK (Some (exchange_order_id (ord_id demo_order))) 0 None
     None None demo_received = Inr (hd demo_updates)"
  by code_simp

lemma demo_terms:
  "ord_type demo_order = MARKET" "int_decision_price demo_intent = Some (79 / 2)" "ord_id demo_order = 52"
  "ord_id demo_final = 52" "demo_updates = hd demo_updates # tl demo_updates"
  "fe_symbol (hd demo_fills) = ''600036.SH''" "fill_side (fe_fill (hd demo_fills)) = BUY" "demo_fills = [hd demo_fills]"
  "rep_fill_events (paper_report demo_updates demo_fills) = demo_fills"
  "rep_order_updates (paper_report demo_updates demo_fills) = demo_updates" "length demo_fills = Suc 0"
  by (simp_all add: demo_order_def demo_intent_def demo_final_def demo_updates_def demo_fills_def paper_report_def)

lemma demo_reported:
  "submit_with_scenario demo_env demo_service demo_received demo_order demo_intent
     = Inr (paper_report demo_updates demo_fills)"
proof -
  have "bs_cost_model demo_service = sample_cost_model"
    by (simp add: demo_service_def)
  then show ?thesis
    using demo_terms(5)
    by (simp add: submit_with_scenario_def demo_venue build_execution_report_def scenario_rejected_def demo_ack
        demo_loop demo_terms(1,2))
qed

lemma demo_bars:
  "be_event_time (demo_bar k) = demo_received + k * (15 * us_per_minute)"
  "resolve_received_at (demo_bar k) = be_event_time (demo_bar k)"
  "be_close (demo_bar k) = 79 / 2" "be_decision_price (demo_bar k) = 79 / 2"
  "be_market_state (demo_bar k) = Some sample_market" "be_symbol (demo_bar k) = ''600036.SH''"
  "be_actionable (demo_bar k)"
  by (simp_all add: demo_bar_def demo_received_def resolve_received_at_def be_decision_price_def be_actionable_def Let_def)

lemma demo_rules: "map_of (bs_symbol_rules demo_service) ''600036.SH'' = Some sample_rule"
  by (simp add: demo_service_def)

lemma demo_execute:
  assumes "rn_next st = 1" "rn_balance st = demo_balance" "rn_positions st = []" "rn_fills st = []" "rn_outcomes st = []"
  shows "execute_plan demo_env demo_service (demo_bar 0) demo_plan st = Inr (demo_intent, demo_final, 1,
     (log_order demo_intent demo_final (paper_report demo_updates demo_fills) st)
       \<lparr>rn_next := 4, rn_positions := [(''600036.SH'', demo_held demo_received)], rn_balance := demo_cash,
        rn_fills := demo_fills\<rparr>)"
proof -
  let ?st = "log_order demo_intent demo_final (paper_report demo_updates demo_fills) st"
  have fresh: "bk_fresh demo_env = of_nat" by (simp add: demo_env_def)
  have b: "book_backtest_fill demo_env ?st (hd demo_fills)
      = Inr (?st\<lparr>rn_next := 4, rn_positions := [(''600036.SH'', demo_position)], rn_balance := demo_cash, rn_fills := demo_fills\<rparr>)"
    using assms demo_booked demo_terms(8)
    by (simp add: book_backtest_fill_def log_order_def fresh demo_terms(6,7))
  have f: "res_fold (book_backtest_fill demo_env) ?st demo_fills
      = Inr (?st\<lparr>rn_next := 4, rn_positions := [(''600036.SH'', demo_position)], rn_balance := demo_cash, rn_fills := demo_fills\<rparr>)"
    by (subst demo_terms(8)) (simp add: b)
  have "sig_symbol (plan_signal demo_plan) = ''600036.SH''"
    by (simp add: demo_plan_def sample_signal_def)
  then show ?thesis
    using assms demo_intended demo_ordered demo_terms(8)
    by (simp add: execute_plan_def demo_bars fresh demo_reported demo_terms(9-11) demo_applied f mark_symbol_def
        demo_marked)
qed

lemma strip_by_nonempty:
  assumes "c \<in> set s" "\<not> p c"
  shows "strip_by p s \<noteq> []"
proof
  assume "strip_by p s = []"
  then have all: "\<forall>x \<in> set (dropWhile p s). p x"
    by (simp add: strip_by_def dropWhile_eq_Nil_conv)
  have "dropWhile p s \<noteq> []"
    using assms by (auto simp: dropWhile_eq_Nil_conv)
  with hd_dropWhile [of p s] all show False
    by (metis hd_in_set)
qed

lemma demo_key: "trim (be_bar_key (demo_bar k)) \<noteq> []"
unfolding trim_def
proof (rule strip_by_nonempty)
  show "CHR ''c'' \<in> set (be_bar_key (demo_bar k))"
    by (simp add: be_bar_key_def demo_bar_def join_colon_def Let_def)
  show "\<not> is_trim_space CHR ''c''" by code_simp
qed

lemma demo_keys: "be_bar_key (demo_bar 1) \<noteq> be_bar_key (demo_bar 0)"
  by code_simp

definition demo_state :: "nat run_state" where
  "demo_state = \<lparr>rn_strategy = 0, rn_next = 1, rn_balance = demo_balance, rn_positions = [],
      rn_decisions = [], rn_signals = [], rn_intents = [], rn_orders = [], rn_fills = [],
      rn_seen = [], rn_executed = [], rn_outcomes = [], rn_curve = [], rn_peak = 100000, rn_previous = None\<rparr>"

lemma demo_initial: "initial_state demo_env demo_service 0 (demo_bar 0) = Inr demo_state"
  using demo_opening
  by (simp add: initial_state_def demo_service_def demo_env_def demo_bar_def demo_balance_def demo_state_def Let_def)

lemma demo_follow:
  assumes "rn_next st = 1" "rn_balance st = demo_balance" "rn_positions st = []" "rn_fills st = []" "rn_outcomes st = []"
  shows "follow_signal demo_env demo_service (demo_bar 0) (Some (sample_signal 200)) skip st
    = Inr (Some demo_plan, Some demo_intent, Some demo_final, 1, skip,
       (log_order demo_intent demo_final (paper_report demo_updates demo_fills)
          (st\<lparr>rn_signals := rn_signals st @ [sample_signal 200]\<rparr>))
       \<lparr>rn_next := 4, rn_positions := [(''600036.SH'', demo_held demo_received)], rn_balance := demo_cash,
        rn_fills := demo_fills\<rparr>)"
proof -
  have "sig_symbol (sample_signal 200) = ''600036.SH''" by (simp add: sample_signal_def)
  moreover have "plan_actionable demo_plan" by (simp add: plan_actionable_def demo_plan_def)
  ultimately show ?thesis
    using assms by (simp add: follow_signal_def Let_def demo_rules demo_bars demo_sizing demo_execute)
qed

lemma demo_strategy_calls:
  "st_on_bar demo_strategy n e run_id t = Inr (if n = 0 then Some (sample_signal 200) else None, n + 1)"
  "\<exists>a. resolve_strategy_audit dec_str demo_strategy n e sg = Inr a"
  by (cases sg; simp add: demo_strategy_def resolve_strategy_audit_def Let_def)+

lemma demo_equity:
  assumes "rn_balance st = demo_cash" "rn_positions st = [(''600036.SH'', demo_held t)]" "rn_peak st = 100000"
  shows "record_equity (demo_bar k) st
    = Inr (st\<lparr>rn_curve := rn_curve st @ [demo_point (trim (be_bar_key (demo_bar k))) (be_event_time (demo_bar k))]\<rparr>)"
  using assms by (simp add: record_equity_def demo_pointed [OF demo_key])

text \<open>What the first bar leaves: the position, the cash and one equity point.\<close>

definition demo_after :: "nat \<Rightarrow> nat run_state \<Rightarrow> bool" where
  "demo_after n st \<longleftrightarrow> rn_balance st = demo_cash \<and> rn_fills st = demo_fills \<and> rn_peak st = 100000
     \<and> rn_strategy st = n \<and> rn_outcomes st = []
     \<and> length (rn_signals st) = 1 \<and> length (rn_orders st) = 1 \<and> length (rn_executed st) = 1"

lemma demo_first_bar:
  "\<exists>st. run_bar demo_env demo_service demo_strategy run_id demo_state (demo_bar 0) = Inr st
     \<and> demo_after 1 st \<and> rn_positions st = [(''600036.SH'', demo_held demo_received)]
     \<and> rn_curve st = [demo_point (trim (be_bar_key (demo_bar 0))) demo_received]
     \<and> rn_seen st = [be_bar_key (demo_bar 0)] \<and> rn_previous st = Some demo_received"
proof -
  define st0 where "st0 = demo_state\<lparr>rn_previous := Some demo_received\<rparr>"
  define st1 where "st1 = st0\<lparr>rn_seen := [be_bar_key (demo_bar 0)], rn_strategy := Suc 0\<rparr>"
  have c: "rn_next st1 = 1" "rn_balance st1 = demo_balance" "rn_positions st1 = []" "rn_fills st1 = []"
      "rn_outcomes st1 = []" "rn_seen st0 = []" "rn_strategy st0 = 0"
    by (simp_all add: st1_def st0_def demo_state_def)
  obtain a where a: "resolve_strategy_audit (bk_dec_str demo_env) demo_strategy 1 (demo_bar 0)
      (Some (sample_signal 200)) = Inr a"
    using demo_strategy_calls(2) by blast
  define st2 where "st2 = (log_order demo_intent demo_final (paper_report demo_updates demo_fills)
          (st1\<lparr>rn_signals := rn_signals st1 @ [sample_signal 200]\<rparr>))
       \<lparr>rn_next := 4, rn_positions := [(''600036.SH'', demo_held demo_received)], rn_balance := demo_cash,
        rn_fills := demo_fills\<rparr>"
  have st2: "follow_signal demo_env demo_service (demo_bar 0) (Some (sample_signal 200)) (sa_skip_reason a) st1
      = Inr (Some demo_plan, Some demo_intent, Some demo_final, 1, sa_skip_reason a, st2)"
    unfolding st2_def by (rule demo_follow [OF c(1-5)])
  have "demo_fills \<noteq> []" using demo_terms(11) by auto
  then have "demo_after 1 st2" "rn_positions st2 = [(''600036.SH'', demo_held demo_received)]" "rn_curve st2 = []"
      "rn_seen st2 = [be_bar_key (demo_bar 0)]" "rn_previous st2 = Some demo_received"
    by (simp_all add: demo_after_def st2_def log_order_def st1_def st0_def demo_state_def paper_report_def)
  moreover have "decide_bar demo_env demo_service demo_strategy run_id (demo_bar 0) st0
      = Inr (note_decision (demo_bar 0) a (Some (sample_signal 200))
          (Some demo_plan, Some demo_intent, Some demo_final, 1, sa_skip_reason a) st2)"
    using a st2 c(6,7) by (simp add: decide_bar_def demo_strategy_calls st1_def [symmetric])
  moreover have "run_bar demo_env demo_service demo_strategy run_id demo_state (demo_bar 0)
      = res_bind (decide_bar demo_env demo_service demo_strategy run_id (demo_bar 0) st0) (record_equity (demo_bar 0))"
    by (simp add: run_bar_def demo_state_def st0_def demo_bars release_symbol_def mark_symbol_def)
  ultimately show ?thesis
    by (simp add: note_decision_def demo_after_def demo_equity demo_bars)
qed

lemma demo_second_bar:
  assumes "demo_after 1 st" "rn_positions st = [(''600036.SH'', demo_held demo_received)]"
    and "rn_seen st = [be_bar_key (demo_bar 0)]" "rn_previous st = Some demo_received"
  shows "\<exists>st'. run_bar demo_env demo_service demo_strategy run_id st (demo_bar 1) = Inr st'
     \<and> demo_after 2 st'
     \<and> rn_curve st' = rn_curve st @ [demo_point (trim (be_bar_key (demo_bar 1))) (demo_received + 15 * us_per_minute)]"
proof -
  define st0 where "st0 = st\<lparr>rn_previous := Some (be_event_time (demo_bar 1)),
      rn_positions := mark_symbol (be_symbol (demo_bar 1)) (demo_bar 1) (release_symbol (demo_bar 1) (rn_positions st))\<rparr>"
  have pos: "rn_positions st0 = [(''600036.SH'', demo_held (be_event_time (demo_bar 1)))]"
    using assms(2)
    by (simp add: st0_def mark_symbol_def release_symbol_def demo_bars demo_marked sample_market_def)
  obtain a where a: "resolve_strategy_audit (bk_dec_str demo_env) demo_strategy 2 (demo_bar 1) None = Inr a"
    using demo_strategy_calls(2) by blast
  obtain st1 where st1: "decide_bar demo_env demo_service demo_strategy run_id (demo_bar 1) st0 = Inr st1"
      "demo_after 2 st1" "rn_positions st1 = rn_positions st0" "rn_curve st1 = rn_curve st"
    using a assms(1)
    by (simp add: decide_bar_def demo_strategy_calls follow_signal_def st0_def demo_after_def note_decision_def
        numeral_2_eq_2)
  have "(0::int) \<le> 15 * us_per_minute" by code_simp
  then have "run_bar demo_env demo_service demo_strategy run_id st (demo_bar 1)
      = res_bind (decide_bar demo_env demo_service demo_strategy run_id (demo_bar 1) st0) (record_equity (demo_bar 1))"
    using assms(3,4) demo_keys by (simp add: run_bar_def st0_def demo_bars(1,7))
  with st1 pos show ?thesis
    by (simp add: demo_equity demo_after_def) (simp add: demo_bars)
qed

definition demo_backtest :: "(run_manifest \<times> performance \<times> nat run_state) res" where
  "demo_backtest = run_backtest demo_env (\<lambda>bars. ''data'') (\<lambda>a c sm ds ca rules. ''core'') demo_service
     demo_strategy 0 [demo_bar 0, demo_bar 1]"

lemma demo_run:
  "\<exists>st. run_bars demo_env demo_service demo_strategy run_id demo_state [demo_bar 0, demo_bar 1] = Inr st
     \<and> demo_after 2 st
     \<and> rn_curve st = [demo_point (trim (be_bar_key (demo_bar 0))) demo_received,
          demo_point (trim (be_bar_key (demo_bar 1))) (demo_received + 15 * us_per_minute)]"
proof -
  obtain st where st: "run_bar demo_env demo_service demo_strategy run_id demo_state (demo_bar 0) = Inr st"
      "demo_after 1 st" "rn_positions st = [(''600036.SH'', demo_held demo_received)]"
      "rn_curve st = [demo_point (trim (be_bar_key (demo_bar 0))) demo_received]"
      "rn_seen st = [be_bar_key (demo_bar 0)]" "rn_previous st = Some demo_received"
    using demo_first_bar by blast
  from demo_second_bar [OF st(2,3,5,6)] st(1,4) show ?thesis
    by (auto simp: run_bars_def)
qed

lemma demo_performance:
  "\<exists>p. build_performance_summary 100000 1 1 demo_fills 1 []
      [demo_point k demo_received, demo_point l (demo_received + 15 * us_per_minute)] = Inr p"
proof -
  have leaves: "compute_sharpe_ratio [demo_point k t, demo_point l u] = Inr None"
      "max_drawdown [demo_point k t, demo_point l u] = 119 / 10000"
      "ep_equity (demo_point k t) = 12498512 / 125" "ep_cash (demo_point k t) = 11511012 / 125"
      "ep_market_value (demo_point k t) = 7900" for k l t u
    by (simp_all add: compute_sharpe_ratio_def max_drawdown_def demo_point_def)
  have "0 \<le> dec_sum (map (fill_notional \<circ> fe_fill) demo_fills)"
    by (subst demo_terms(8)) (simp, code_simp)
  then show ?thesis
    by (simp add: leaves build_performance_summary_def Let_def demo_figures demo_holding compute_profit_factor_def
        compute_average_def performance_rules_def)
qed

lemma demo_backtest_ok:
  "\<exists>m p st. demo_backtest = Inr (m, p, st) \<and> demo_after 2 st"
proof -
  have d: "\<exists>ds. build_dataset_metadata (\<lambda>bars. ''data'') [demo_bar 0, demo_bar 1] = Inr ds"
    by (simp add: build_dataset_metadata_def demo_bar_def Let_def)
  have cash: "bs_initial_cash demo_service = 100000"
    by (simp add: demo_service_def)
  show ?thesis
    using d demo_run demo_performance
    by (fastforce simp: demo_backtest_def run_backtest_def Let_def demo_initial cash demo_after_def)
qed

lemma demo_cash_exact: "0 < bs_initial_cash demo_service" "ctx (bs_initial_cash demo_service) = bs_initial_cash demo_service"
proof -
  have "bs_initial_cash demo_service = 100000" "ctx 100000 = 100000" by code_simp+
  then show "0 < bs_initial_cash demo_service" "ctx (bs_initial_cash demo_service) = bs_initial_cash demo_service"
    by simp_all
qed

theorem backtest_accounts_every_bar_witness:
  "\<exists>m p st. demo_backtest = Inr (m, p, st) \<and> rn_fills st = demo_fills \<and> length (rn_curve st) = 2
     \<and> bal_total (rn_balance st) = cash_after 100000 demo_fills \<and> pf_bar_count p = 2"
proof -
  obtain m p st where st: "demo_backtest = Inr (m, p, st)" "demo_after 2 st"
    using demo_backtest_ok by blast
  have "\<forall>e \<in> set [demo_bar 0, demo_bar 1]. 0 < be_close e" by (simp add: demo_bars)
  note r = backtest_accounts_every_bar [OF st(1) [unfolded demo_backtest_def] demo_cash_exact this]
  then have "length (rn_curve st) = 2" "pf_bar_count p = 2"
    by (auto dest: list_all2_lengthD)
  moreover have "bs_initial_cash demo_service = 100000" by (simp add: demo_service_def)
  ultimately show ?thesis
    using r st by (intro exI [of _ m] exI [of _ p] exI [of _ st]) (simp add: demo_after_def)
qed

section \<open>Marking a position keeps it locked\<close>

text \<open>
  Marking to market sets updated_at, which the T+1 release reads as the date of the last booking: when
  the first bar of a trade date has no market state, the mark it leaves makes every later
  release of that date do nothing, and what was bought the day before cannot be sold.
\<close>

lemma marking_blocks_release:
  assumes "map_of positions (be_symbol e) = Some p" "pos_sellable_qty p < pos_qty p" "0 < pos_qty p"
    and "pos_avg_entry_price p = Some avg" "be_market_state e = None"
    and "ms_trade_date m \<le> date_of (be_event_time e)"
  shows "\<exists>q. map_of (mark_symbol (be_symbol e) e (release_symbol e positions)) (be_symbol e) = Some q
     \<and> rel_position (release_position_sellable_qty q (ms_trade_date m) t) = q
     \<and> pos_sellable_qty q = pos_sellable_qty p"
  using assms
  by (simp add: release_symbol_def mark_symbol_def update_conv' mark_position_to_market_def
      release_position_sellable_qty_def)

end
