(* ===== verification/Trader_Reconciliation.thy ===== *)
theory Trader_Reconciliation
  imports Oms_Safety Reconciliation
begin

text \<open>
  Startup recovery and the periodic reconciliation of a trader: SessionFactoryBackedReconciliationStore
  and TraderReconciliationRuntime of src/apps/trader/reconciliation.py, over the tables, the control
  store and the order management service of Trader_Oms and the comparison of Reconciliation.  The
  reconciliation has its own instance of the order management service; the two share their state in the
  model, of which they only use the database.  UUID, which reads the text of an identifier, is a
  parameter; payloads and messages of events are left out.
\<close>

section \<open>Facts from the tables\<close>

text \<open>
  Every row of the account becomes a domain object again, and is checked again; the rows are ordered as
  the queries order them.  The exchange only labels the facts.
\<close>

definition load_paper_facts :: "string \<Rightarrow> string \<Rightarrow> date \<Rightarrow> string \<Rightarrow> tables \<Rightarrow> recon_facts res" where
  "load_paper_facts account exchange trade_date trigger db =
     res_bind (res_list make_order_intent (sort_key int_created_at (sort_key int_id
       (filter (\<lambda>i. int_account i = account) (tb_intents db))))) (\<lambda>intents.
     res_bind (res_list make_order (sort_key ord_updated_at (sort_key ord_id
       (filter (\<lambda>r. ord_account r = account) (tb_orders db))))) (\<lambda>orders.
     res_bind (res_list make_fill (sort_key fill_time (sort_key fill_id
       (filter (\<lambda>f. fill_account f = account) (tb_fills db))))) (\<lambda>fills.
     res_bind (res_list make_position (sort_key pos_symbol (sort_key pos_id
       (filter (\<lambda>p. pos_account p = account) (tb_positions db))))) (\<lambda>positions.
     res_bind (res_list make_balance (sort_key bal_snapshot_time (sort_key bal_id
       (filter (\<lambda>b. bal_account b = account) (tb_balances db))))) (\<lambda>balances.
       Inr \<lparr>fct_account = account, fct_exchange = exchange, fct_trade_date = trade_date,
            fct_trigger = trigger, fct_intents = intents, fct_orders = orders, fct_fills = fills,
            fct_positions = positions, fct_balances = balances\<rparr>)))))"

definition replay_wanted :: "replay_filters \<Rightarrow> event_log \<Rightarrow> bool" where
  "replay_wanted f e \<longleftrightarrow>
     (case flt_start_time f of None \<Rightarrow> True | Some t \<Rightarrow> t \<le> evl_event_time e)
   \<and> (case flt_end_time f of None \<Rightarrow> True | Some t \<Rightarrow> evl_event_time e \<le> t)
   \<and> (case flt_run_id f of None \<Rightarrow> True | Some r \<Rightarrow> evl_run_id e = r)
   \<and> (case flt_account f of None \<Rightarrow> True | Some a \<Rightarrow> evl_account e = Some a)
   \<and> (case flt_symbol f of None \<Rightarrow> True | Some s \<Rightarrow> evl_symbol e = Some s)"

definition replay_events :: "replay_filters \<Rightarrow> tables \<Rightarrow> event_log list res" where
  "replay_events f db =
     res_list make_event_log (take (nat (flt_limit f))
       (rev (sort_key evl_event_time (sort_key evl_id (filter (replay_wanted f) (tb_events db))))))"

section \<open>The runtime\<close>

record recon_service =
  rcs_account :: string
  rcs_exchange :: string
  rcs_cost_model :: cost_model
  rcs_has_runtime :: bool
  rcs_background :: bool
  rcs_uuid_of_text :: "string \<Rightarrow> uuid res"
  rcs_replay_ids :: "fill \<Rightarrow> uuid \<times> uuid \<times> uuid"

text \<open>
  rw_run_id is the run of the runtime state once start has bound it, rw_stopping the stop event and
  rw_task whether the background task was created and not cancelled.
\<close>

record recon_world =
  rw_oms :: oms_world
  rw_run_id :: "string option"
  rw_last_result :: "recon_result option"
  rw_stopping :: bool
  rw_task :: bool

definition on_oms :: "(oms_world, 'a) act \<Rightarrow> (recon_world, 'a) act" where
  "on_oms m = (\<lambda>w. let (r, u) = m (rw_oms w) in (r, w\<lparr>rw_oms := u\<rparr>))"

definition recon_emit :: "string \<Rightarrow> string \<Rightarrow> bool \<Rightarrow> bool \<Rightarrow> string \<Rightarrow> (recon_world, unit) act" where
  "recon_emit event sev notify bypass reason = on_oms (observe event sev notify bypass (Some reason))"

definition recon_entry ::
  "recon_service \<Rightarrow> uuid \<Rightarrow> uuid \<Rightarrow> uuid \<Rightarrow> string \<Rightarrow> datetime \<Rightarrow> event_log res" where
  "recon_entry svc run_id i j event_type checked_at =
     make_event_log
       \<lparr>evl_id = i, evl_event_id = j, evl_type = event_type, evl_source = ''trader_reconciliation'',
        evl_run_id = run_id, evl_account = Some (rcs_account svc), evl_exchange = Some (rcs_exchange svc),
        evl_symbol = None, evl_related_type = Some ''account'', evl_related_id = None,
        evl_event_time = checked_at, evl_ingest_time = checked_at, evl_created_at = checked_at\<rparr>"

text \<open>A diagnostic event that cannot be written is reported, and nothing more.\<close>

definition recon_persist_event ::
  "oms_env \<Rightarrow> recon_service \<Rightarrow> string \<Rightarrow> datetime \<Rightarrow> (recon_world, unit) act" where
  "recon_persist_event env svc event_type checked_at =
     bind_act (reading rw_run_id) (\<lambda>bound.
       case bound of
         None \<Rightarrow> pass ()
       | Some text \<Rightarrow>
           bind_act (from_res (rcs_uuid_of_text svc text)) (\<lambda>run_id.
           bind_act (on_oms (fresh_uuid env)) (\<lambda>i. bind_act (on_oms (fresh_uuid env)) (\<lambda>j.
           bind_act (from_res (recon_entry svc run_id i j event_type checked_at)) (\<lambda>entry.
             try_except (act_seq (on_oms (session env (events_save entry))) (pass ()))
               (\<lambda>_. recon_emit ''reconciliation.event_log_write_failed'' ''critical'' True True
                      ''RECONCILIATION_EVENT_LOG_WRITE_FAILED''))))))"

definition engage_protection_mode ::
  "oms_env \<Rightarrow> recon_service \<Rightarrow> (nat \<Rightarrow> datetime) \<Rightarrow> datetime \<Rightarrow> string \<Rightarrow> (recon_world, unit) act" where
  "engage_protection_mode env svc clk checked_at reason =
     bind_act (on_oms (control_session env (\<lambda>now. set_protection_mode (rcs_account svc) True now now)))
       (\<lambda>snapshot.
     bind_act (on_oms (cancel_all_orders env (rcs_account svc) (Some (ctl_control_state snapshot)) checked_at))
       (\<lambda>_.
     act_seq (recon_persist_event env svc ''reconciliation.protection_mode_engaged'' checked_at)
    (act_seq (recon_emit ''reconciliation.protection_mode_engaged'' ''critical'' True True reason)
     (act_when (rcs_has_runtime svc)
       (on_oms (on_trader (refresh clk ''reconciliation_protection_mode'' False)))))))"

definition handle_failure ::
  "oms_env \<Rightarrow> recon_service \<Rightarrow> (nat \<Rightarrow> datetime) \<Rightarrow> datetime \<Rightarrow> (recon_world, unit) act" where
  "handle_failure env svc clk checked_at =
     act_seq (recon_persist_event env svc ''reconciliation.failed'' checked_at)
    (act_seq (recon_emit ''reconciliation.failed'' ''critical'' True True ''RECONCILIATION_FAILED'')
     (engage_protection_mode env svc clk checked_at ''RECONCILIATION_FAILED''))"

definition handle_drift ::
  "oms_env \<Rightarrow> recon_service \<Rightarrow> (nat \<Rightarrow> datetime) \<Rightarrow> recon_result \<Rightarrow> (recon_world, unit) act" where
  "handle_drift env svc clk r =
     act_seq (recon_persist_event env svc ''reconciliation.drift_detected'' (rec_checked_at r))
    (act_seq (recon_emit ''reconciliation.drift_detected'' ''critical'' True True ''RECONCILIATION_DRIFT'')
     (engage_protection_mode env svc clk (rec_checked_at r) ''RECONCILIATION_DRIFT''))"

definition compare_books ::
  "oms_env \<Rightarrow> recon_service \<Rightarrow> datetime \<Rightarrow> string \<Rightarrow> (recon_world, recon_result) act" where
  "compare_books env svc checked_at trigger =
     bind_act (on_oms (query env (load_paper_facts (rcs_account svc) (rcs_exchange svc) (date_of checked_at)
       trigger))) (\<lambda>facts.
     from_res (reconcile_paper_state (rcs_replay_ids svc) checked_at facts (rcs_cost_model svc)
       (Some checked_at)))"

text \<open>One pass.  clk is the clock of the control runtime.\<close>

definition run_once ::
  "oms_env \<Rightarrow> recon_service \<Rightarrow> (nat \<Rightarrow> datetime) \<Rightarrow> datetime \<Rightarrow> string
     \<Rightarrow> (recon_world, recon_result option) act" where
  "run_once env svc clk checked_at trigger =
     bind_act
       (try_except
         (bind_act (compare_books env svc checked_at trigger) (\<lambda>r. pass (Some r)))
         (\<lambda>_. act_seq (handle_failure env svc clk checked_at) (pass None))) (\<lambda>out.
       case out of
         None \<Rightarrow> pass None
       | Some r \<Rightarrow>
           act_seq (change (\<lambda>w. w\<lparr>rw_last_result := Some r\<rparr>))
          (act_seq (if rec_has_drift r then handle_drift env svc clk r
                    else recon_emit ''reconciliation.completed'' ''info'' False False ''RECONCILIATION_OK'')
           (pass (Some r))))"

text \<open>
  The background task: one pass after every interval that elapses before the stop event is set.  An
  exception of a pass ends the task.
\<close>

fun reconciliation_loop ::
  "oms_env \<Rightarrow> recon_service \<Rightarrow> ((nat \<Rightarrow> datetime) \<times> datetime) list \<Rightarrow> (recon_world, unit) act" where
  "reconciliation_loop env svc [] = pass ()"
| "reconciliation_loop env svc ((clk, t) # intervals) =
     bind_act (reading rw_stopping) (\<lambda>stopping.
       if stopping then pass ()
       else act_seq (run_once env svc clk t ''scheduled'') (reconciliation_loop env svc intervals))"

definition recover_on_startup ::
  "oms_env \<Rightarrow> recon_service \<Rightarrow> string \<Rightarrow> datetime \<Rightarrow> datetime \<Rightarrow> (recon_world, recovery_state) act" where
  "recover_on_startup env svc run_id checked_at now =
     bind_act (from_res (rcs_uuid_of_text svc run_id)) (\<lambda>u.
       on_oms (recover_account_state env (rcs_account svc) (rcs_exchange svc) u (date_of checked_at) 20 now))"

definition start_reconciliation ::
  "oms_env \<Rightarrow> recon_service \<Rightarrow> (nat \<Rightarrow> datetime) \<Rightarrow> (nat \<Rightarrow> datetime) \<Rightarrow> string \<Rightarrow> (recon_world, unit) act" where
  "start_reconciliation env svc clk own run_id =
     act_seq (change (\<lambda>w. w\<lparr>rw_run_id := Some run_id\<rparr>))
    (bind_act
       (try_except (act_seq (recover_on_startup env svc run_id (own 0) (own 1)) (pass True))
         (\<lambda>_. act_seq (handle_failure env svc clk (own 0)) (pass False))) (\<lambda>recovered.
     act_seq (act_when recovered
        (act_seq (recon_persist_event env svc ''reconciliation.startup_recovery_completed'' (own 0))
          (recon_emit ''reconciliation.startup_recovery_completed'' ''info'' False False
             ''STARTUP_RECOVERY_COMPLETED'')))
    (act_seq (run_once env svc clk (own 2) ''startup'')
     (act_when (rcs_background svc) (change (\<lambda>w. w\<lparr>rw_task := True\<rparr>))))))"

definition stop_reconciliation :: "(recon_world, unit) act" where
  "stop_reconciliation = change (\<lambda>w. w\<lparr>rw_stopping := True, rw_task := False\<rparr>)"


section \<open>Protection mode stays on\<close>

definition protected :: "string \<Rightarrow> oms_world \<Rightarrow> bool" where
  "protected account w \<longleftrightarrow>
     (\<exists>r. db_controls (tw_db (ow_trader w)) account = Some r \<and> cr_protection_mode r)"

text \<open>Steps that leave the trader's own state and the handed-over orders alone and never end protection.\<close>

definition halt_step :: "string \<Rightarrow> oms_world \<Rightarrow> oms_world \<Rightarrow> bool" where
  "halt_step account w w' \<longleftrightarrow> (protected account w \<longrightarrow> protected account w')
     \<and> tw_self (ow_trader w') = tw_self (ow_trader w) \<and> tw_runtime (ow_trader w') = tw_runtime (ow_trader w)
     \<and> ow_submitted w' = ow_submitted w"

interpretation halt: step_relation "halt_step account" for account
  by unfold_locales (auto simp: halt_step_def)

lemma halt_session: "halt.steps account (session env op)"
  by (rule halt.stepsI)
    (auto simp: session_def halt_step_def protected_def Let_def split: option.splits sum.splits)

lemma halt_on_store:
  assumes "\<And>db r. db_controls db account = Some r \<Longrightarrow> cr_protection_mode r \<Longrightarrow>
      \<exists>r'. db_controls (snd (op db)) account = Some r' \<and> cr_protection_mode r'"
  shows "halt.steps account (on_trader (on_store (transact op)))"
proof (rule halt.stepsI)
  fix w r w'
  assume "on_trader (on_store (transact op)) w = (r, w')"
  then show "halt_step account w w'"
    using assms [of "tw_db (ow_trader w)"]
    by (auto simp: on_trader_def on_store_def transact_def transact_res_def halt_step_def protected_def Let_def
        split: prod.splits sum.splits)
qed

definition keeps_protection :: "string \<Rightarrow> (datetime \<Rightarrow> control_db \<Rightarrow> 'a \<times> control_db) \<Rightarrow> bool" where
  "keeps_protection account op \<longleftrightarrow> (\<forall>t db r. db_controls db account = Some r \<longrightarrow> cr_protection_mode r \<longrightarrow>
     (\<exists>r'. db_controls (snd (op t db)) account = Some r' \<and> cr_protection_mode r'))"

lemma keeps_protection_ops:
  "keeps_protection a (get_control b)" "keeps_protection a (\<lambda>t. set_protection_mode b True t t)"
  by (auto simp: keeps_protection_def get_control_def set_protection_mode_def mutate_control_def put_control_def
      control_row_def Let_def)

lemma halt_control: "keeps_protection account op \<Longrightarrow> halt.steps account (control_session env op)"
proof (rule halt.stepsI)
  fix w r w'
  assume k: "keeps_protection account op" and c: "control_session env op w = (r, w')"
  let ?w = "w\<lparr>ow_sessions := Suc (ow_sessions w)\<rparr>"
  have bump: "halt_step account w ?w"
    by (simp add: halt_step_def protected_def)
  have op: "halt.steps account (on_trader (on_store (transact (op (env_clock env (ow_sessions w))))))"
    using k by (intro halt_on_store) (auto simp: keeps_protection_def)
  show "halt_step account w w'"
  proof (cases "env_outage env (ow_sessions w)")
    case None
    then have "on_trader (on_store (transact (op (env_clock env (ow_sessions w))))) ?w = (r, w')"
      using c by (simp add: control_session_def)
    from halt.trans [OF bump halt.stepsD [OF op this]] show ?thesis .
  next
    case (Some e)
    then show ?thesis
      using c bump by (auto simp: control_session_def)
  qed
qed

lemma halt_leaves:
  "halt.steps account (fresh_uuid env)" "halt.steps account (gateway_cancel env r)"
  "halt.steps account (observe e s n b x)"
  by (rule halt.stepsI;
      auto simp: fresh_uuid_def gateway_cancel_def observe_def on_trader_def halt_step_def protected_def)+

lemma halt_protect: "halt.steps account (activate_protection_mode env a t)"
  unfolding activate_protection_mode_def
  by (intro halt.steps_rules halt_control keeps_protection_ops halt_leaves)

lemma halt_persist_write: "halt.steps account (persist_write env op e c p)"
  unfolding persist_write_def by (intro halt.steps_rules halt_session halt_protect halt_leaves)

lemmas halt_parts = halt.steps_rules halt_session halt_control keeps_protection_ops halt_leaves halt_persist_write

lemma halt_event: "halt.steps account (persist_event env ty src sc t obs)"
  unfolding persist_event_def save_event_log_def by (intro halt_parts)

lemma halt_release: "halt.steps account (release_position_for_trade_date env p d t i)"
  unfolding release_position_for_trade_date_def save_position_def by (intro halt_parts halt_event)

lemma halt_report: "halt.steps account (apply_execution_report env rep r)"
  unfolding apply_execution_report_def apply_report_update_def apply_report_fill_def book_fill_def save_order_def
    save_fill_def save_position_def save_balance_snapshot_def oms_get_position_def oms_latest_balance_def
  by (intro halt_parts halt_event)

lemma halt_cancel_all: "halt.steps account (cancel_all_orders env a c t)"
  unfolding cancel_all_orders_def cancel_one_def Trader_Oms.cancel_order_def list_active_orders_def
  by (intro halt_parts halt_event halt_report)

section \<open>What a refresh reads of the switches\<close>

definition switches_step :: "trader_world \<Rightarrow> trader_world \<Rightarrow> bool" where
  "switches_step t t' \<longleftrightarrow> crt_control (tw_self t') = crt_control (tw_self t)
     \<and> db_controls (tw_db t') = db_controls (tw_db t)"

interpretation switches: step_relation switches_step
  by unfold_locales (auto simp: switches_step_def)

lemma switches_changes:
  "switches.steps (change_runtime f)" "switches.steps (emit e s n b r)"
  "(\<And>s. crt_control (f' s) = crt_control s) \<Longrightarrow> switches.steps (change_self f')"
  by (rule switches.stepsI; auto simp: emit_apply switches_step_def)+

lemma switches_store:
  assumes "\<And>db x db'. op db = Inr (x, db') \<Longrightarrow> db_controls db' = db_controls db"
  shows "switches.steps (on_store (transact_res op))"
  using assms
  by (intro switches.stepsI)
    (auto simp: on_store_def transact_res_def switches_step_def split: prod.splits sum.splits)

lemma switches_persist: "switches.steps (persist_runtime_status t)"
  unfolding persist_runtime_status_def
  by (intro switches.steps_rules switches_store) (auto simp: save_runtime_status_def Let_def split: option.splits sum.splits)

lemma switches_lease: "switches.steps (refresh_lease i force t reason expected)"
  unfolding refresh_lease_def transact_def
  by (intro switches.steps_rules switches_store switches_changes)
    (auto simp: heartbeat_lease_def conditional_result_def put_lease_def Let_def split: option.splits if_splits)

lemma switches_announce: "switches.steps (announce_control_state c)"
  unfolding announce_control_state_def by (intro switches.steps_rules switches_changes)

lemma switches_observe: "switches.steps (observe_lease i t e a b)"
  unfolding observe_lease_def by (intro switches.steps_rules switches_changes)

lemma switches_track: "switches.steps (track_runtime_safety t b r)"
  unfolding track_runtime_safety_def by (intro switches.steps_rules switches_changes) simp_all

lemma refresh_switches:
  assumes "refresh clk reason force t = (Inr u, t')" "tw_runtime t \<noteq> None"
  shows "crt_control (tw_self t') = fst (get_control (crt_account (tw_self t)) (clk 1) (tw_db t))
    \<and> db_controls (tw_db t') = db_controls (snd (get_control (crt_account (tw_self t)) (clk 1) (tw_db t)))"
proof -
  obtain rt where rt: "tw_runtime t = Some rt" using assms(2) by blast
  then obtain ctl w1 w2 w3 fresh w4 why w5 where
    a: "on_store (transact (get_control (crt_account (tw_self t)) (clk 1))) t = (Inr ctl, w1)"
    and b: "announce_control_state (rt_control_state rt) (snd (apply_control_snapshot ctl w1)) = (Inr (), w2)"
    and c: "refresh_lease (rt_instance rt) force (clk 0) reason (ls_fencing_token (crt_lease (tw_self t))) w2
        = (Inr (), w3)"
    and d: "observe_lease (rt_instance rt) (clk 0) (ls_fencing_token (crt_lease (tw_self t)))
        (ls_fencing_token (crt_lease (tw_self t)) \<noteq> None \<and> sa_status (rt_single_active rt) = SA_acquired
          \<and> ls_owner (crt_lease (tw_self t)) = Some (rt_instance rt))
        (lease_is_valid (crt_lease (tw_self w3)) (rt_instance rt) (clk 0) (ls_fencing_token (crt_lease (tw_self t))))
        (snd (change_runtime (update_market_observation (crt_latest_final_bar_time (tw_self w3))
           (crt_trading_phase (tw_self w3)) fresh) w3)) = (Inr (), w4)"
    and e: "track_runtime_safety (clk 0) (rt_status rt = LC_running
          \<and> lease_is_valid (crt_lease (tw_self w3)) (rt_instance rt) (clk 0) (ls_fencing_token (crt_lease (tw_self t)))
          \<and> fresh \<and> crt_trading_phase (tw_self w3) \<noteq> None) why
        (snd (change_runtime (set_readiness (clk 3) (rt_status rt = LC_running
          \<and> lease_is_valid (crt_lease (tw_self w3)) (rt_instance rt) (clk 0) (ls_fencing_token (crt_lease (tw_self t)))
          \<and> fresh \<and> crt_trading_phase (tw_self w3) \<noteq> None) why) w4)) = (Inr (), w5)"
    and f: "persist_runtime_status (clk 4) w5 = (Inr (), t')"
    using assms(1) by (auto simp: refresh_def Let_def split: if_splits)
  note s = switches.stepsD [OF switches_announce b] switches.stepsD [OF switches_lease c]
    switches.stepsD [OF switches_observe d] switches.stepsD [OF switches_track e] switches.stepsD [OF switches_persist f]
  show ?thesis
    using a s by (auto simp: switches_step_def on_store_ok transact_ok)
qed

lemma protected_state:
  "protected account w \<Longrightarrow>
     ctl_control_state (fst (get_control account now (tw_db (ow_trader w)))) \<in> {KILL_SWITCH, PROTECTION_MODE}"
  by (auto simp: protected_def get_control_def control_row_def Let_def ctl_control_state_def
      control_snapshot_from_record_def resolve_risk_control_state_def)

section \<open>A pass\<close>

definition round_step :: "string \<Rightarrow> recon_world \<Rightarrow> recon_world \<Rightarrow> bool" where
  "round_step account w w' \<longleftrightarrow> halt_step account (rw_oms w) (rw_oms w')"

interpretation round: step_relation "round_step account" for account
  by unfold_locales (auto simp: round_step_def intro: halt.refl halt.trans)

lemma round_on_oms: "halt.steps account m \<Longrightarrow> round.steps account (on_oms m)"
  by (rule round.stepsI) (auto simp: on_oms_def round_step_def split: prod.splits dest: halt.stepsD)

lemma round_emit: "round.steps account (recon_emit e s n b r)"
  unfolding recon_emit_def by (intro round_on_oms halt_leaves)

lemma round_event: "round.steps account (recon_persist_event env svc ty t)"
  unfolding recon_persist_event_def by (intro round.steps_rules round_on_oms halt_parts round_emit)

lemma round_compare: "round.steps account (compare_books env svc t trigger)"
  unfolding compare_books_def by (intro round.steps_rules round_on_oms halt_parts)

definition fields_step :: "recon_world \<Rightarrow> recon_world \<Rightarrow> bool" where
  "fields_step w w' \<longleftrightarrow> recon_world.truncate w' = (recon_world.truncate w)\<lparr>rw_oms := rw_oms w'\<rparr>"

interpretation fields: step_relation fields_step
  by unfold_locales (auto simp: fields_step_def recon_world.truncate_def)

lemma fields_on_oms: "fields.steps (on_oms m)"
  by (rule fields.stepsI) (auto simp: on_oms_def fields_step_def recon_world.truncate_def split: prod.splits)

lemma fields_event: "fields.steps (recon_persist_event env svc ty t)" "fields.steps (recon_emit e s n b r)"
  unfolding recon_persist_event_def recon_emit_def by (intro fields.steps_rules fields_on_oms)+

lemma fields_engage: "fields.steps (engage_protection_mode env svc clk t reason)"
  unfolding engage_protection_mode_def by (intro fields.steps_rules fields_on_oms fields_event)

lemma fields_drift: "fields.steps (handle_drift env svc clk r)"
  unfolding handle_drift_def by (intro fields.steps_rules fields_event fields_engage)

text \<open>What the engagement of protection mode leaves when it returns.\<close>

definition halted :: "recon_service \<Rightarrow> oms_world \<Rightarrow> oms_world \<Rightarrow> bool" where
  "halted svc w w' \<longleftrightarrow> protected (rcs_account svc) w' \<and> ow_submitted w' = ow_submitted w
     \<and> (rcs_has_runtime svc \<and> tw_runtime (ow_trader w) \<noteq> None
          \<and> crt_account (tw_self (ow_trader w)) = rcs_account svc
        \<longrightarrow> crt_control_state (tw_self (ow_trader w')) \<in> {KILL_SWITCH, PROTECTION_MODE})"

lemma halted_after: "halt_step (rcs_account svc) w w1 \<Longrightarrow> halted svc w1 w' \<Longrightarrow> halted svc w w'"
  by (auto simp: halted_def halt_step_def)

lemma set_protection_protects:
  assumes "control_session env (\<lambda>now. set_protection_mode account True now now) w = (Inr snapshot, w')"
  shows "protected account w'"
  using assms
  by (auto simp: control_session_def on_trader_def on_store_def transact_def transact_res_def protected_def Let_def
      set_protection_mode_def mutate_control_def put_control_def split: option.splits prod.splits sum.splits)

lemma on_oms_ok: "on_oms m w = (Inr x, w') \<longleftrightarrow> (\<exists>u. m (rw_oms w) = (Inr x, u) \<and> w' = w\<lparr>rw_oms := u\<rparr>)"
  by (auto simp: on_oms_def split: prod.splits)

lemma engage_halts:
  assumes "engage_protection_mode env svc clk t reason w = (Inr u, w')"
  shows "halted svc (rw_oms w) (rw_oms w')"
proof -
  let ?a = "rcs_account svc"
  obtain snapshot w1 res w2 w3 w4 where
    a: "on_oms (control_session env (\<lambda>now. set_protection_mode ?a True now now)) w = (Inr snapshot, w1)"
    and b: "on_oms (cancel_all_orders env ?a (Some (ctl_control_state snapshot)) t) w1 = (Inr res, w2)"
    and c: "recon_persist_event env svc ''reconciliation.protection_mode_engaged'' t w2 = (Inr (), w3)"
    and d: "recon_emit ''reconciliation.protection_mode_engaged'' ''critical'' True True reason w3 = (Inr (), w4)"
    and e: "act_when (rcs_has_runtime svc)
        (on_oms (on_trader (refresh clk ''reconciliation_protection_mode'' False))) w4 = (Inr (), w')"
    using assms by (auto simp: engage_protection_mode_def)
  have p: "protected ?a (rw_oms w1)"
    using a by (auto simp: on_oms_ok dest: set_protection_protects)
  have "halt_step ?a (rw_oms w) (rw_oms w1)"
    using round.stepsD [OF round_on_oms [OF halt_control [OF keeps_protection_ops(2)]] a] by (simp add: round_step_def)
  then have w4: "halt_step ?a (rw_oms w) (rw_oms w4)" "protected ?a (rw_oms w4)"
    using p round.stepsD [OF round_on_oms [OF halt_cancel_all] b] round.stepsD [OF round_event c]
      round.stepsD [OF round_emit d]
    by (auto simp: round_step_def halt_step_def)
  show ?thesis
  proof (cases "rcs_has_runtime svc")
    case False
    then show ?thesis
      using e w4 by (simp add: halted_def halt_step_def)
  next
    case True
    then obtain x where x: "refresh clk ''reconciliation_protection_mode'' False (ow_trader (rw_oms w4)) = (Inr (), x)"
      "w' = w4\<lparr>rw_oms := (rw_oms w4)\<lparr>ow_trader := x\<rparr>\<rparr>"
      using e by (auto simp: on_oms_ok on_trader_def split: prod.splits)
    show ?thesis
    proof (cases "tw_runtime (ow_trader (rw_oms w4)) = None")
      case True
      then show ?thesis
        using x w4 by (auto simp: halted_def halt_step_def refresh_def)
    next
      case False
      note r = refresh_switches [OF x(1) False]
      have "protected ?a ((rw_oms w4)\<lparr>ow_trader := x\<rparr>)"
        using w4(2) r by (auto simp: protected_def get_control_def control_row_def put_control_def Let_def)
      then show ?thesis
        using x(2) w4 r protected_state [OF w4(2)]
        by (auto simp: halted_def halt_step_def crt_control_state_def)
    qed
  qed
qed


text \<open>The comparison only counts its session.\<close>

lemma compare_books_ok:
  assumes "compare_books env svc t trigger w = (r, w')"
  shows "ow_tables (rw_oms w') = ow_tables (rw_oms w) \<and> ow_submitted (rw_oms w') = ow_submitted (rw_oms w)
      \<and> ow_trader (rw_oms w') = ow_trader (rw_oms w)"
    "r = Inr result \<Longrightarrow> \<exists>facts. load_paper_facts (rcs_account svc) (rcs_exchange svc) (date_of t) trigger
        (ow_tables (rw_oms w)) = Inr facts
      \<and> reconcile_paper_state (rcs_replay_ids svc) t facts (rcs_cost_model svc) (Some t) = Inr result"
  using assms
  by (auto simp: compare_books_def bind_act_def on_oms_def session_def Let_def
      split: option.splits sum.splits prod.splits)

lemma halts_after_event:
  assumes "act_seq (recon_persist_event env svc ty t) (act_seq (recon_emit ty s n b c)
      (engage_protection_mode env svc clk t reason)) w = (Inr u, w')"
  shows "halted svc (rw_oms w) (rw_oms w')"
proof -
  obtain w1 w2 where a: "recon_persist_event env svc ty t w = (Inr (), w1)"
    and b: "recon_emit ty s n b c w1 = (Inr (), w2)"
    and e: "engage_protection_mode env svc clk t reason w2 = (Inr u, w')"
    using assms by auto
  have "halt_step (rcs_account svc) (rw_oms w) (rw_oms w2)"
    using round.stepsD [OF round_event a] round.stepsD [OF round_emit b] halt.trans
    unfolding round_step_def by blast
  then show ?thesis
    by (rule halted_after) (rule engage_halts [OF e])
qed

lemma compare_halt: "compare_books env svc t trigger w = (r, w') \<Longrightarrow> halt_step account (rw_oms w) (rw_oms w')"
  using round.stepsD [OF round_compare] by (simp add: round_step_def)

text \<open>
  C20.  What a reconciliation pass does.  When a pass returns, either it compared the books that the tables
  held and found no drift, and then tables, switches and leases are as before; or the books could not
  be compared or differ, and then the account is in protection mode, no order was handed to the
  gateway, and a control runtime of that account that has started holds a control state under which
  only reductions pass the risk gate.
\<close>

theorem pass_halts_on_drift:
  assumes "run_once env svc clk t trigger w = (Inr out, w')"
  shows "case out of
     Some r \<Rightarrow> (\<exists>facts. load_paper_facts (rcs_account svc) (rcs_exchange svc) (date_of t) trigger
           (ow_tables (rw_oms w)) = Inr facts
         \<and> reconcile_paper_state (rcs_replay_ids svc) t facts (rcs_cost_model svc) (Some t) = Inr r)
       \<and> rw_last_result w' = Some r
       \<and> (if rec_has_drift r then halted svc (rw_oms w) (rw_oms w')
          else ow_tables (rw_oms w') = ow_tables (rw_oms w) \<and> ow_submitted (rw_oms w') = ow_submitted (rw_oms w)
             \<and> tw_db (ow_trader (rw_oms w')) = tw_db (ow_trader (rw_oms w)))
   | None \<Rightarrow> halted svc (rw_oms w) (rw_oms w')"
proof (cases "compare_books env svc t trigger w")
  case (Pair r0 wc)
  note same = compare_books_ok(1) [OF Pair] and step = compare_halt [OF Pair, of "rcs_account svc"]
  show ?thesis
  proof (cases r0)
    case (Inl e)
    then have "handle_failure env svc clk t wc = (Inr (), w')" "out = None"
      using assms Pair by (auto simp: run_once_def try_except_def bind_act_def split: prod.splits sum.splits)
    then show ?thesis
      using halted_after [OF step halts_after_event] by (simp add: handle_failure_def)
  next
    case (Inr r)
    let ?w = "wc\<lparr>rw_last_result := Some r\<rparr>"
    have out: "out = Some r" and k: "(if rec_has_drift r then handle_drift env svc clk r
        else recon_emit ''reconciliation.completed'' ''info'' False False ''RECONCILIATION_OK'') ?w = (Inr (), w')"
      using assms Pair Inr by (auto simp: run_once_def try_except_def bind_act_def split: prod.splits sum.splits)
    have last: "rw_last_result w' = Some r"
      using fields.stepsD [OF fields.steps_if [OF fields_drift fields_event(2)] k]
      by (simp add: fields_step_def recon_world.truncate_def)
    have "rec_has_drift r \<Longrightarrow> halted svc (rw_oms wc) (rw_oms w')"
      using k halts_after_event [of env svc _ "rec_checked_at r" _ _ _ _ clk _ ?w] by (simp add: handle_drift_def)
    moreover have "\<not> rec_has_drift r \<Longrightarrow> ow_tables (rw_oms w') = ow_tables (rw_oms wc)
        \<and> ow_submitted (rw_oms w') = ow_submitted (rw_oms wc) \<and> tw_db (ow_trader (rw_oms w')) = tw_db (ow_trader (rw_oms wc))"
      using k by (auto simp: recon_emit_def on_oms_ok observe_def on_trader_def)
    ultimately show ?thesis
      using same out last compare_books_ok(2) [OF Pair Inr] halted_after [OF step] by auto
  qed
qed


lemma recon_entry_ok:
  assumes "trim (rcs_account svc) \<noteq> []" "trim (rcs_exchange svc) \<noteq> []"
  shows "is_ok (recon_entry svc u i j ''reconciliation.failed'' t)"
proof -
  have "trim ''reconciliation.failed'' \<noteq> []" "trim ''trader_reconciliation'' \<noteq> []" "trim ''account'' \<noteq> []"
    by code_simp+
  then show ?thesis
    using assms by (simp add: is_ok_iff recon_entry_def make_event_log_def normalize_event_log_def event_log_rules_def
        Let_def)
qed

text \<open>A session that fails counts, and leaves tables and control tables.\<close>

definition missed :: "nat \<Rightarrow> recon_world \<Rightarrow> recon_world \<Rightarrow> bool" where
  "missed n w w' \<longleftrightarrow> tw_db (ow_trader (rw_oms w')) = tw_db (ow_trader (rw_oms w))
     \<and> ow_sessions (rw_oms w') = ow_sessions (rw_oms w) + n \<and> rw_run_id w' = rw_run_id w"

lemma compare_outage:
  assumes "env_outage env (ow_sessions (rw_oms w)) = Some e"
  obtains w' where "compare_books env svc t trigger w = (Inl e, w')" "missed 1 w w'"
  using assms by (simp add: compare_books_def bind_act_def on_oms_def session_def Let_def missed_def)

lemma emit_misses: "recon_emit ev s n b r w = (Inr (), w') \<Longrightarrow> missed 0 w w'"
  by (auto simp: recon_emit_def on_oms_ok observe_def on_trader_def missed_def)

lemma emit_returns: obtains w' where "recon_emit ev s n b r w = (Inr (), w')"
  by (simp add: recon_emit_def on_oms_def observe_def on_trader_def)

lemma event_outage:
  assumes "env_outage env (ow_sessions (rw_oms w)) = Some e" "rw_run_id w = Some text"
    "rcs_uuid_of_text svc text = Inr u" "trim (rcs_account svc) \<noteq> []" "trim (rcs_exchange svc) \<noteq> []"
  obtains w' where "recon_persist_event env svc ''reconciliation.failed'' t w = (Inr (), w')" "missed 1 w w'"
proof -
  let ?i = "env_uuid4 env (ow_uuids (rw_oms w))" and ?j = "env_uuid4 env (Suc (ow_uuids (rw_oms w)))"
  obtain entry where entry: "recon_entry svc u ?i ?j ''reconciliation.failed'' t = Inr entry"
    using recon_entry_ok [OF assms(4,5), of u ?i ?j t] by (auto simp: is_ok_iff)
  let ?w = "w\<lparr>rw_oms := (rw_oms w)\<lparr>ow_uuids := Suc (Suc (ow_uuids (rw_oms w))),
      ow_sessions := Suc (ow_sessions (rw_oms w))\<rparr>\<rparr>"
  obtain w' where e: "recon_emit ''reconciliation.event_log_write_failed'' ''critical'' True True
      ''RECONCILIATION_EVENT_LOG_WRITE_FAILED'' ?w = (Inr (), w')"
    by (rule emit_returns)
  have "recon_persist_event env svc ''reconciliation.failed'' t w = (Inr (), w')"
    using assms(1-3) entry e
    by (simp add: recon_persist_event_def bind_act_def on_oms_def fresh_uuid_def try_except_def session_def Let_def)
  then show thesis
    using emit_misses [OF e] by (intro that) (simp_all add: missed_def)
qed

lemma engage_outage:
  assumes "env_outage env (ow_sessions (rw_oms w)) = Some e"
  obtains w' where "engage_protection_mode env svc clk t reason w = (Inl e, w')" "missed 1 w w'"
  using assms
  by (simp add: engage_protection_mode_def bind_act_def on_oms_def control_session_def Let_def missed_def)

text \<open>
  C39.  The background task ends with the first round that the database outlives.  If in one scheduled
  round the sessions that load the facts, write the diagnostic event and set protection mode all fail,
  the round leaves the switches as they are, the task ends with the exception, and no interval that
  elapses later is followed by a pass, whatever state the database is then in.
\<close>

theorem outage_ends_reconciliation:
  assumes "\<not> rw_stopping w" "rw_run_id w = Some text" "rcs_uuid_of_text svc text = Inr u"
    and "trim (rcs_account svc) \<noteq> []" "trim (rcs_exchange svc) \<noteq> []"
    and "env_outage env (ow_sessions (rw_oms w)) = Some e1" "env_outage env (ow_sessions (rw_oms w) + 1) = Some e2"
      "env_outage env (ow_sessions (rw_oms w) + 2) = Some e3"
  shows "\<exists>w'. tw_db (ow_trader (rw_oms w')) = tw_db (ow_trader (rw_oms w))
     \<and> ow_sessions (rw_oms w') = ow_sessions (rw_oms w) + 3
     \<and> (\<forall>intervals. reconciliation_loop env svc ((clk, t) # intervals) w = (Inl e3, w'))"
proof -
  let ?n = "ow_sessions (rw_oms w)"
  obtain w1 where w1: "compare_books env svc t ''scheduled'' w = (Inl e1, w1)" "missed 1 w w1"
    by (rule compare_outage [OF assms(6)])
  then have "env_outage env (ow_sessions (rw_oms w1)) = Some e2" "rw_run_id w1 = Some text"
    using assms by (simp_all add: missed_def)
  then obtain w2 where w2: "recon_persist_event env svc ''reconciliation.failed'' t w1 = (Inr (), w2)" "missed 1 w1 w2"
    by (rule event_outage [OF _ _ assms(3-5)])
  obtain w3 where w3: "recon_emit ''reconciliation.failed'' ''critical'' True True ''RECONCILIATION_FAILED'' w2 = (Inr (), w3)"
    by (rule emit_returns)
  have "env_outage env (ow_sessions (rw_oms w3)) = Some e3"
    using w1 w2 emit_misses [OF w3] assms(8) by (simp add: missed_def)
  then obtain w4 where w4: "engage_protection_mode env svc clk t ''RECONCILIATION_FAILED'' w3 = (Inl e3, w4)" "missed 1 w3 w4"
    by (rule engage_outage)
  have "run_once env svc clk t ''scheduled'' w = (Inl e3, w4)"
    using w1 w2 w3 w4 by (simp add: run_once_def try_except_def bind_act_def handle_failure_def)
  then show ?thesis
    using assms(1) w1 w2 emit_misses [OF w3] w4
    by (intro exI [of _ w4]) (simp add: bind_act_def missed_def)
qed


section \<open>A small account\<close>

definition recon_demo_env :: oms_env where
  "recon_demo_env =
     \<lparr>env_columns = \<lparr>num = (\<lambda>x. x), conf = (\<lambda>x. x)\<rparr>,
      env_outage = (\<lambda>n. if n < 3 then Some (RuntimeError ''database is down'') else None),
      env_text = (\<lambda>_. []), env_uuid5 = (\<lambda>_. 5), env_uuid4 = of_nat, env_clock = (\<lambda>_. seconds 5),
      env_submit = (\<lambda>_ _ _. Inl AssertionError), env_cancel = (\<lambda>_ _. Inl AssertionError),
      env_policy = default_policy, env_initial_cash = 100000, env_has_control = True\<rparr>"

definition recon_demo_service :: recon_service where
  "recon_demo_service =
     \<lparr>rcs_account = ''acc'', rcs_exchange = ''cn_equity'', rcs_cost_model = sample_cost_model, rcs_has_runtime = True,
      rcs_background = True, rcs_uuid_of_text = (\<lambda>_. Inr 7), rcs_replay_ids = (\<lambda>_. (1, 2, 3))\<rparr>"

definition recon_demo :: "nat \<Rightarrow> recon_world" where
  "recon_demo n =
     \<lparr>rw_oms = \<lparr>ow_tables = empty_tables, ow_sessions = n, ow_uuids = 0, ow_trader = sample_started,
        ow_windows = (\<lambda>_. []), ow_submitted = [], ow_cancelled = []\<rparr>,
      rw_run_id = Some ''run'', rw_last_result = None, rw_stopping = False, rw_task = True\<rparr>"

lemma recon_demo_runs:
  "fst (run_once recon_demo_env recon_demo_service (\<lambda>_. seconds 5) (seconds 5) ''scheduled'' (recon_demo 2)) = Inr None"
  by code_simp

theorem outage_ends_reconciliation_witness:
  "\<exists>w'. reconciliation_loop recon_demo_env recon_demo_service
       [(\<lambda>_. seconds 60, seconds 60), (\<lambda>_. seconds 120, seconds 120)] (recon_demo 0)
       = (Inl (RuntimeError ''database is down''), w')
     \<and> env_outage recon_demo_env (ow_sessions (rw_oms w')) = None
     \<and> tw_db (ow_trader (rw_oms w')) = tw_db (ow_trader (rw_oms (recon_demo 0)))"
proof -
  let ?w = "recon_demo 0" and ?e = "RuntimeError ''database is down''" and ?n = "ow_sessions (rw_oms (recon_demo 0))"
  have n: "?n = 0"
    by (simp add: recon_demo_def)
  have "trim ''acc'' \<noteq> []" "trim ''cn_equity'' \<noteq> []"
    by code_simp+
  then have "\<not> rw_stopping ?w" "rw_run_id ?w = Some ''run''" "rcs_uuid_of_text recon_demo_service ''run'' = Inr 7"
    "trim (rcs_account recon_demo_service) \<noteq> []" "trim (rcs_exchange recon_demo_service) \<noteq> []"
    "env_outage recon_demo_env ?n = Some ?e" "env_outage recon_demo_env (?n + 1) = Some ?e"
    "env_outage recon_demo_env (?n + 2) = Some ?e"
    by (simp_all only: n recon_demo_def recon_demo_service_def recon_demo_env_def) simp_all
  from outage_ends_reconciliation [OF this, of "\<lambda>_. seconds 60" "seconds 60"] obtain w' where
    w': "tw_db (ow_trader (rw_oms w')) = tw_db (ow_trader (rw_oms ?w))" "ow_sessions (rw_oms w') = ?n + 3"
    and loop: "\<forall>intervals. reconciliation_loop recon_demo_env recon_demo_service
       ((\<lambda>_. seconds 60, seconds 60) # intervals) ?w = (Inl ?e, w')"
    by (elim exE conjE)
  have "env_outage recon_demo_env (ow_sessions (rw_oms w')) = None"
    by (simp only: w' n) (simp add: recon_demo_env_def)
  with w'(1) loop show ?thesis
    by blast
qed

theorem pass_halts_on_drift_witness:
  "\<exists>w'. run_once recon_demo_env recon_demo_service (\<lambda>_. seconds 5) (seconds 5) ''scheduled'' (recon_demo 2)
       = (Inr None, w')
     \<and> protected ''acc'' (rw_oms w') \<and> ow_submitted (rw_oms w') = []
     \<and> crt_control_state (tw_self (ow_trader (rw_oms w'))) \<in> {KILL_SWITCH, PROTECTION_MODE}"
proof -
  have started: "tw_runtime sample_started \<noteq> None" "crt_account (tw_self sample_started) = ''acc''"
    by code_simp+
  obtain r w' where w': "run_once recon_demo_env recon_demo_service (\<lambda>_. seconds 5) (seconds 5) ''scheduled'' (recon_demo 2)
       = (r, w')"
    by fastforce
  then have "r = Inr None"
    using recon_demo_runs by simp
  with w' pass_halts_on_drift [OF w' [unfolded \<open>r = Inr None\<close>]] show ?thesis
    using started by (simp add: halted_def recon_demo_service_def recon_demo_def)
qed

end
