(* ===== verification/Spec2Isabelle.thy ===== *)
theory Spec2Isabelle
  imports Bar_Gate Ledger Paper_Exchange Reconciliation Risk Control_Runtime Collector Observability Repositories Trader_Oms Oms_Safety Oms_Gateway Oms_Progress Event_Bus Strategy_Audit Backtest_Metrics Backtest Trader_Reconciliation
begin

text \<open>
  A verification development of SignalArk, an event-driven paper trading system for Chinese
  A-shares (Python, under src/src/ and src/apps/).

  How the program works.  A collector turns market data into bars; every final bar passes the
  collector's gate and the trader's trigger gate once, and the strategy answers with a signal that
  proposes a target position.  The order management service stores the signal, sizes it against the
  position and the trading rules of the symbol, and asks for the lease of the trader and for the
  pre-trade gate; an allowed plan becomes an order intent and an order, both stored before the paper
  venue is called.  Its report of order updates and fills is booked: updates move the order along its
  status machine, fills change position and cash in the ledger.  A control loop holds the lease,
  reads the operator's switches and decides readiness; the reconciliation recomputes the books from
  the persisted facts and switches protection mode on when they differ.  The backtest replays bars
  through the same sizing, venue and ledger.

  Conventions.  A record is a class with its fields, make_x the constructor of x (normalisation and
  then its checks in order), x_ok the values a constructor returns.  A function that may raise
  returns Inl of the exception or Inr of its value; a method that changes state is an action, and
  one that raises keeps what it changed before.

  Foundations.
  Prelude: faults, results, folds over fallible steps, lists of guards.
  Shared_Types (shared/types.py): texts and their normalisation, identities as 128-bit words,
  timestamps as microseconds since the epoch in Shanghai time, JSON values.
  Calendar: civil dates and ISO texts of the standard library.
  Decimals: decimal.Decimal under the default 28-digit half-even context as rounding on rationals,
  with quantize, division and remainder; lemmas for when an operation is exact.
  Effects: actions, try-except and the locale step_relation of what every action of a group keeps.
  Samples: the concrete values of the witnesses.

  The trading domain.
  Market (domain/market, domain/events): phases, price limits, bars and their keys; the price band.
  Bar_Gate (bars.py, BarTriggerGate of apps/trader/service.py): both gates as interpretations of one
  locale of bounded duplicate filters; every final bar triggers once.
  Signals, Symbol_Rules, Portfolio, Orders (signal.py, config/settings.py, portfolio/models.py,
  execution/models.py): the records with their contracts and the order status machine.
  Order_Flow (execution/oms.py): sizing, plan to intent to order, updates; what a plan may ask for,
  that an actionable plan becomes an order, how an order lives and in which sequence reports come.
  Ledger (portfolio/ledger.py): fills on position and cash; when a fill is booked and what it
  changes, T+1 over a trade date, the accounting identity.
  Paper_Exchange (infra/exchanges/paper.py): scenarios, reports, cancellations; an order accepts the
  reports of the venue and reflects them.
  Reconciliation (domain/reconciliation): the pass over facts; drift exactly when the books differ.
  Risk (domain/risk/pretrade.py): the checks in order; what an allowed order satisfies, exposure
  limits, what a halt lets through, odd lots.

  The trader process.
  Control_Store (apps/trader/control_plane.py): switches, lease with fencing token, runtime status,
  symbol requests and settings, each method one transaction on keyed tables; fencing, acquisition,
  two takeovers that interleave, the status round trip.
  Runtime_State (runtime.py) and Control_Runtime (control_plane.py): the state of a process and its
  control loop; readiness agrees with the lease table.
  Repositories (infra/db): the seven trading tables with their constraints, saves and gets.
  Trader_Oms (oms.py): submission, cancellation, booking and recovery with every write, failure path
  and alert.  Oms_Safety: the constraints and the life of orders under every sequence of calls.
  Oms_Gateway: the gateway is called once, behind the gates, and never again for a signal.
  Oms_Progress: an admitted signal reaches the gateway.
  Trader_Reconciliation (reconciliation.py): startup recovery, one pass, the background task; what a
  pass leaves, and how an outage ends the task.
  Event_Bus (infra/messaging/bus.py): publishers, dispatcher and stop in every interleaving; stop ends
  when handlers do not fail, and hangs after one failure.
  Collector (apps/collector) and Observability (infra/observability): backfill, live sessions,
  checkpoints; alert cooldowns.

  Research.
  Strategy_Audit (strategy/audit.py): the decision summary.  Backtest_Metrics and Backtest
  (services/backtest): slippage, equity curve, performance summary, and the replay itself.

  What is an argument.  Fresh identifiers and uuid5, clocks, the failures of database sessions and
  what a decimal or timestamp column returns, the answers of the execution gateway and of the market
  data gateway, alert sinks, the scenario resolver of the venue, the strategy of a backtest, float()
  and the text of a decimal.  Theorems hold for every choice of them; where one needs documented
  behaviour (a column that keeps the time, identifiers that differ) it is a named hypothesis with a
  witness.  No definition uses fuel: loops recur over lists or bars that are given, the square root
  of the performance summary bisects an interval, and the event bus is a step relation whose
  termination is proved.

  Simplified.  Texts and details of verdicts, issues, events and alerts and the payloads of stored
  events are left out; a stored JSON context is the value it stands for; column lengths are not
  checked.  A decimal is its value without trailing zeros, a power of a decimal is correctly
  rounded.  A method without a suspending await runs without interleaving; only the event bus and
  two lease takeovers are interleaved.

  Not modelled, because it is I/O, configuration or third-party glue around the parts above: the
  process entry points, the asyncio lifecycle and wiring of TraderService, the HTTP API, the MCP
  server, the research front ends, the market data gateways and fixtures, the SQLAlchemy engine and
  migrations, logging, the web front end.  The strategies themselves (strategy/baseline.py,
  rule_based.py, ai.py) are not modelled either; the strategy is a parameter.
\<close>

end
